(* ===== verification/Float64.thy ===== *)
theory Float64
  imports Prelude
begin

text \<open>
  Go's \<open>float64\<close> (IEEE 754 binary64), the type of every amount and balance of the
  program once it is decrypted. A finite number is a sign and a non-negative rational
  magnitude; an operation computes its exact rational result and rounds it once, to the
  nearest representable number with ties to even (\<open>f64_round\<close>), with gradual underflow
  down to \<open>2 powi (-1074)\<close> and overflow to infinity from \<open>2 ^ 1024\<close>. The last part is
  \<open>fmt.Sprintf("%.2f")\<close> and \<open>strconv.ParseFloat\<close>, through which the program stores
  amounts as text, and the lemmas that these keep whole cents exactly.
\<close>

subsection \<open>Rounding\<close>

text \<open>The binary exponent of a positive rational: \<open>2 powi ilog2 q \<le> q < 2 powi (ilog2 q + 1)\<close>.\<close>

definition ilog2 :: "rat \<Rightarrow> int" where
  "ilog2 q = (let (n, d) = quotient_of q; k = bitlen n - bitlen d
              in if q < 2 powi k then k - 1 else k)"

text \<open>Round half to even, on rationals.\<close>

definition round_even :: "rat \<Rightarrow> int" where
  "round_even x = (let f = \<lfloor>x\<rfloor>; r = x - of_int f in
     if r < 1 / 2 then f else if 1 / 2 < r then f + 1 else if even f then f else f + 1)"

text \<open>The exponent of the unit in the last place of the 53-bit significand.\<close>

definition ulp_exp :: "rat \<Rightarrow> int" where
  "ulp_exp q = max (ilog2 q - 52) (- 1074)"

definition round_mag :: "rat \<Rightarrow> rat option" where
  "round_mag q = (if q = 0 then Some 0 else
     let u = 2 powi (ulp_exp q); r = of_int (round_even (q / u)) * u
     in if 2 ^ 1024 \<le> r then None else Some r)"

subsection \<open>The numbers and their operations\<close>

datatype float64 = NaN | Inf bool | Fin bool rat

text \<open>\<open>f64_round z x\<close> is the float64 nearest to \<open>x\<close>; an exact zero gets the sign \<open>z\<close>.\<close>

definition f64_round :: "bool \<Rightarrow> rat \<Rightarrow> float64" where
  "f64_round z x = (if x = 0 then Fin z 0 else
     case round_mag \<bar>x\<bar> of None \<Rightarrow> Inf (x < 0) | Some m \<Rightarrow> Fin (x < 0) m)"

definition f64_val :: "bool \<Rightarrow> rat \<Rightarrow> rat" where
  "f64_val s m = (if s then - m else m)"

fun f64_neg :: "float64 \<Rightarrow> float64" where
  "f64_neg NaN = NaN"
| "f64_neg (Inf s) = Inf (\<not> s)"
| "f64_neg (Fin s m) = Fin (\<not> s) m"

fun f64_abs :: "float64 \<Rightarrow> float64" where
  "f64_abs NaN = NaN"
| "f64_abs (Inf s) = Inf False"
| "f64_abs (Fin s m) = Fin False m"

fun f64_add :: "float64 \<Rightarrow> float64 \<Rightarrow> float64" where
  "f64_add (Fin s a) (Fin t b) = f64_round (s \<and> t) (f64_val s a + f64_val t b)"
| "f64_add (Inf s) (Inf t) = (if s = t then Inf s else NaN)"
| "f64_add (Inf s) (Fin t b) = Inf s"
| "f64_add (Fin s a) (Inf t) = Inf t"
| "f64_add NaN _ = NaN"
| "f64_add _ NaN = NaN"

definition f64_sub :: "float64 \<Rightarrow> float64 \<Rightarrow> float64" where
  "f64_sub x y = f64_add x (f64_neg y)"

fun f64_mul :: "float64 \<Rightarrow> float64 \<Rightarrow> float64" where
  "f64_mul (Fin s a) (Fin t b) = f64_round (s \<noteq> t) (f64_val s a * f64_val t b)"
| "f64_mul (Inf s) (Inf t) = Inf (s \<noteq> t)"
| "f64_mul (Inf s) (Fin t b) = (if b = 0 then NaN else Inf (s \<noteq> t))"
| "f64_mul (Fin s a) (Inf t) = (if a = 0 then NaN else Inf (s \<noteq> t))"
| "f64_mul NaN _ = NaN"
| "f64_mul _ NaN = NaN"

fun f64_div :: "float64 \<Rightarrow> float64 \<Rightarrow> float64" where
  "f64_div (Fin s a) (Fin t b) =
     (if b = 0 then (if a = 0 then NaN else Inf (s \<noteq> t))
      else f64_round (s \<noteq> t) (f64_val s a / f64_val t b))"
| "f64_div (Inf s) (Inf t) = NaN"
| "f64_div (Inf s) (Fin t b) = Inf (s \<noteq> t)"
| "f64_div (Fin s a) (Inf t) = Fin (s \<noteq> t) 0"
| "f64_div NaN _ = NaN"
| "f64_div _ NaN = NaN"

fun f64_lt :: "float64 \<Rightarrow> float64 \<Rightarrow> bool" where
  "f64_lt (Fin s a) (Fin t b) = (f64_val s a < f64_val t b)"
| "f64_lt (Inf s) (Inf t) = (s \<and> \<not> t)"
| "f64_lt (Inf s) (Fin t b) = s"
| "f64_lt (Fin s a) (Inf t) = (\<not> t)"
| "f64_lt NaN _ = False"
| "f64_lt _ NaN = False"

definition f64_of_int :: "int \<Rightarrow> float64" where
  "f64_of_int i = f64_round False (of_int i)"

abbreviation f64_zero :: float64 where
  "f64_zero \<equiv> Fin False 0"

subsection \<open>Rounding: bounds\<close>

lemma powi_bitlen_bounds:
  assumes "0 < n"
  shows "2 powi (bitlen n - 1) \<le> (of_int n :: rat)" and "(of_int n :: rat) < 2 powi bitlen n"
proof -
  have b: "2 ^ nat (bitlen n - 1) \<le> n" "n < 2 ^ nat (bitlen n)"
    using bitlen_bounds [OF assms] by auto
  have p: "0 \<le> bitlen n - 1"
    using assms bitlen_ge_iff_power [of 1 n] by simp
  have "(of_int (2 ^ nat (bitlen n - 1)) :: rat) \<le> of_int n"
    using b(1) by (rule of_int_le_iff [THEN iffD2])
  then show "2 powi (bitlen n - 1) \<le> (of_int n :: rat)"
    using p by (simp add: power_int_def)
  have "(of_int n :: rat) < of_int (2 ^ nat (bitlen n))"
    using b(2) by (rule of_int_less_iff [THEN iffD2])
  then show "(of_int n :: rat) < 2 powi bitlen n"
    using p by (simp add: power_int_def)
qed

lemma ilog2_bounds:
  assumes "0 < q"
  shows "2 powi (ilog2 q) \<le> q" and "q < 2 powi (ilog2 q + 1)"
proof -
  obtain n d where nd: "quotient_of q = (n, d)" by (cases "quotient_of q")
  have d: "0 < d" using quotient_of_denom_pos [OF nd] .
  have q: "q = of_int n / of_int d" using quotient_of_div [OF nd] .
  have n: "0 < n" using assms q d by (simp add: zero_less_divide_iff)
  let ?k = "bitlen n - bitlen d"
  note bn = powi_bitlen_bounds [OF n] and bd = powi_bitlen_bounds [OF d]
  have d': "(0::rat) < of_int d" using d by simp
  have lo: "2 powi (?k - 1) < q"
  proof -
    have "2 powi (?k - 1) * (of_int d :: rat) < 2 powi (?k - 1) * 2 powi bitlen d"
      using bd(2) by (simp add: mult_strict_left_mono)
    also have "\<dots> = 2 powi (bitlen n - 1)"
      by (simp add: power_int_add [symmetric])
    also have "\<dots> \<le> of_int n" by (rule bn(1))
    finally show ?thesis using d' q by (simp add: pos_less_divide_eq)
  qed
  have hi: "q < 2 powi (?k + 1)"
  proof -
    have "(of_int n :: rat) < 2 powi bitlen n" by (rule bn(2))
    also have "\<dots> = 2 powi (?k + 1) * 2 powi (bitlen d - 1)"
      by (simp add: power_int_add [symmetric])
    also have "\<dots> \<le> 2 powi (?k + 1) * of_int d"
      using bd(1) by (simp add: mult_left_mono)
    finally show ?thesis using d' q by (simp add: pos_divide_less_eq)
  qed
  show "2 powi (ilog2 q) \<le> q" "q < 2 powi (ilog2 q + 1)"
    using lo hi by (simp_all add: ilog2_def nd Let_def)
qed

lemma ilog2_less:
  assumes "0 < q" and "q < 2 powi k"
  shows "ilog2 q < k"
proof (rule ccontr)
  assume "\<not> ilog2 q < k"
  then have "(2 powi k :: rat) \<le> 2 powi (ilog2 q)" by (simp add: power_int_increasing)
  with ilog2_bounds(1) [OF assms(1)] assms(2) show False by simp
qed

lemma round_even_error: "\<bar>of_int (round_even x) - x\<bar> \<le> 1 / 2"
proof -
  have "of_int \<lfloor>x\<rfloor> \<le> x" "x < of_int \<lfloor>x\<rfloor> + 1" by linarith+
  then show ?thesis by (simp add: round_even_def Let_def)
qed

lemma round_even_unique:
  assumes "\<bar>x - of_int k\<bar> < 1 / 2"
  shows "round_even x = k"
proof -
  have "\<bar>of_int (round_even x) - of_int k\<bar> < (1 :: rat)"
    using assms round_even_error [of x] by linarith
  then have "\<bar>of_int (round_even x - k)\<bar> < (1 :: rat)" by simp
  then have "\<bar>round_even x - k\<bar> < 1" by (metis of_int_1 of_int_abs of_int_less_iff)
  then show ?thesis by simp
qed

lemma round_even_nonneg: "0 \<le> x \<Longrightarrow> 0 \<le> round_even x"
  by (simp add: round_even_def Let_def)

text \<open>
  Below \<open>2 powi k\<close> the rounding error is at most half a unit of \<open>2 powi (k - 53)\<close>.
\<close>

lemma round_mag_error:
  assumes q: "0 \<le> q" "q < 2 powi k" and k: "- 1021 \<le> k" "k \<le> 1022"
  obtains r where "round_mag q = Some r" and "\<bar>r - q\<bar> \<le> 2 powi (k - 54)" and "0 \<le> r"
proof (cases "q = 0")
  case True
  then show ?thesis using that [of 0] by (simp add: round_mag_def)
next
  case False
  with q have pos: "0 < q" by simp
  define u :: rat where "u = 2 powi (ulp_exp q)"
  define r where "r = of_int (round_even (q / u)) * u"
  have u: "0 < u" by (simp add: u_def)
  have "ulp_exp q \<le> k - 53"
    using ilog2_less [OF pos q(2)] k by (simp add: ulp_exp_def)
  then have "u \<le> 2 powi (k - 53)"
    unfolding u_def by (rule power_int_increasing) simp
  moreover have "(2::rat) powi (k - 53) = 2 powi (k - 54) * 2"
    using power_int_add [of "2::rat" "k - 54" 1] by simp
  ultimately have uk: "u / 2 \<le> 2 powi (k - 54)" by simp
  have "r - q = (of_int (round_even (q / u)) - q / u) * u"
    using u by (simp add: r_def left_diff_distrib)
  then have "\<bar>r - q\<bar> = \<bar>of_int (round_even (q / u)) - q / u\<bar> * u"
    using u by (simp add: abs_mult)
  also have "\<dots> \<le> 1 / 2 * u"
    using round_even_error [of "q / u"] u by (intro mult_right_mono) simp_all
  finally have err: "\<bar>r - q\<bar> \<le> 2 powi (k - 54)" using uk by simp
  have nonneg: "0 \<le> r"
    using round_even_nonneg [of "q / u"] pos u by (simp add: r_def)
  have "r < 2 powi k + 2 powi (k - 54)" using err q(2) by linarith
  also have "\<dots> \<le> 2 powi k + 2 powi k"
    using power_int_increasing [of "k - 54" k "2::rat"] by simp
  also have "\<dots> = 2 powi (k + 1)"
    by (simp add: power_int_add)
  also have "\<dots> \<le> 2 powi 1023"
    using k by (intro power_int_increasing) simp_all
  also have "\<dots> \<le> 2 ^ 1024" by simp
  finally have "r < 2 ^ 1024" .
  then have "round_mag q = Some r"
    using False by (simp add: round_mag_def Let_def u_def r_def)
  then show ?thesis using that err nonneg by blast
qed

text \<open>Integers of up to 53 bits are exact.\<close>

lemma round_even_int [simp]: "round_even (of_int k) = k"
  by (simp add: round_even_def)

lemma f64_of_int_exact:
  assumes "0 \<le> n" "n < 2 ^ 53"
  shows "f64_of_int n = Fin False (of_int n)"
proof (cases "n = 0")
  case False
  define q :: rat where "q = of_int n"
  have q: "1 \<le> q" "q < 2 powi 53"
    using assms False by (simp_all add: q_def)
  have "ilog2 q < 53" using q by (intro ilog2_less) auto
  then have "ulp_exp q \<le> 0" by (simp add: ulp_exp_def)
  then obtain d where "ulp_exp q = - int d" by (metis nonpos_int_cases)
  then have u: "2 powi (ulp_exp q) = (1 / 2 ^ d :: rat)" by (simp add: power_int_minus divide_inverse)
  have scaled: "q / (1 / 2 ^ d) = of_int (n * 2 ^ d)" by (simp add: q_def)
  have "of_int (round_even (q / 2 powi (ulp_exp q))) * 2 powi (ulp_exp q) = q"
    unfolding u scaled round_even_int by (simp add: q_def)
  moreover have "\<not> (2 ^ 1024 \<le> q)" using q(2) by simp
  ultimately have "round_mag q = Some q" using q(1) by (simp add: round_mag_def Let_def)
  then show ?thesis using assms False by (simp add: f64_of_int_def f64_round_def q_def)
qed (simp add: f64_of_int_def f64_round_def)

subsection \<open>Printing: the verb %f with a precision\<close>

fun fmt_f :: "nat \<Rightarrow> float64 \<Rightarrow> string" where
  "fmt_f p NaN = ''NaN''"
| "fmt_f p (Inf s) = (if s then ''-Inf'' else ''+Inf'')"
| "fmt_f p (Fin s m) = (let n = nat (round_even (m * 10 ^ p)) in
     (if s then ''-'' else []) @ show_nat (n div 10 ^ p) @
     (if p = 0 then [] else ''.'' @ show_fixed p (n mod 10 ^ p)))"

subsection \<open>Reading: strconv.ParseFloat\<close>

datatype num_error = ErrSyntax | ErrRange

definition lower_char :: "char \<Rightarrow> char" where
  "lower_char c = (let n = of_char c :: nat in if 65 \<le> n \<and> n \<le> 90 then char_of (n + 32) else c)"

text \<open>The spellings of the special values, in any case; only infinities take a sign.\<close>

definition parse_special :: "string \<Rightarrow> float64 option" where
  "parse_special s = (let l = map lower_char s in
     if l \<in> {''inf'', ''infinity'', ''+inf'', ''+infinity''} then Some (Inf False)
     else if l \<in> {''-inf'', ''-infinity''} then Some (Inf True)
     else if l = ''nan'' then Some NaN else None)"

definition digit_in :: "nat \<Rightarrow> char \<Rightarrow> nat option" where
  "digit_in base c =
     (if is_digit c then Some (digit_val c)
      else let n = of_char (lower_char c) :: nat in
        if base = 16 \<and> 97 \<le> n \<and> n \<le> 102 then Some (n - 87) else None)"

text \<open>
  The mantissa loop of \<open>readFloat\<close>: underscores are skipped, the first dot starts the
  fraction. The result is the digits read as one number, how many of them follow the dot,
  whether there was a digit, and what is left.
\<close>

fun scan_mantissa :: "nat \<Rightarrow> string \<Rightarrow> nat \<Rightarrow> nat \<Rightarrow> bool \<Rightarrow> bool \<Rightarrow> nat \<times> nat \<times> bool \<times> string" where
  "scan_mantissa base [] m f dot dig = (m, f, dig, [])"
| "scan_mantissa base (c # s) m f dot dig =
     (if c = CHR ''_'' then scan_mantissa base s m f dot dig
      else if c = CHR ''.'' then
        (if dot then (m, f, dig, c # s) else scan_mantissa base s m f True dig)
      else case digit_in base c of
        None \<Rightarrow> (m, f, dig, c # s)
      | Some d \<Rightarrow> scan_mantissa base s (m * base + d) (if dot then Suc f else f) dot True)"

text \<open>The exponent digits; the accumulated exponent stops growing at 10000.\<close>

fun scan_exponent :: "string \<Rightarrow> int \<Rightarrow> int \<times> string" where
  "scan_exponent [] e = (e, [])"
| "scan_exponent (c # s) e =
     (if c = CHR ''_'' then scan_exponent s e
      else if is_digit c then
        scan_exponent s (if e < 10000 then e * 10 + int (digit_val c) else e)
      else (e, c # s))"

text \<open>
  The exponent part after the mantissa: \<open>None\<close> is a syntax error. Without the exponent
  letter the exponent is 0 in base 10 and an error in base 16.
\<close>

definition parse_exponent :: "nat \<Rightarrow> string \<Rightarrow> (int \<times> string) option" where
  "parse_exponent base s =
     (case s of
        [] \<Rightarrow> if base = 16 then None else Some (0, [])
      | c # t \<Rightarrow>
          if lower_char c = (if base = 16 then CHR ''p'' else CHR ''e'') then
            (let (sg, u) = (case t of [] \<Rightarrow> (1, []) | d # v \<Rightarrow>
                   if d = CHR ''+'' then (1, v) else if d = CHR ''-'' then (-1, v) else (1, t))
             in case u of
                  [] \<Rightarrow> None
                | d # _ \<Rightarrow> if is_digit d then
                     (case scan_exponent u 0 of (e, r) \<Rightarrow> Some (sg * e, r)) else None)
          else if base = 16 then None else Some (0, s))"

text \<open>
  \<open>underscoreOK\<close>: an underscore only between digits, or after a base prefix. The state is
  the class of the previous character: \<open>0\<close> a digit, \<open>_\<close> an underscore, \<open>!\<close> other.
\<close>

fun underscore_loop :: "bool \<Rightarrow> char \<Rightarrow> string \<Rightarrow> bool" where
  "underscore_loop hex saw [] = (saw \<noteq> CHR ''_'')"
| "underscore_loop hex saw (c # s) =
     (if is_digit c \<or> (hex \<and> digit_in 16 c \<noteq> None) then underscore_loop hex CHR ''0'' s
      else if c = CHR ''_'' then saw = CHR ''0'' \<and> underscore_loop hex CHR ''_'' s
      else saw \<noteq> CHR ''_'' \<and> underscore_loop hex CHR ''!'' s)"

definition strip_sign :: "string \<Rightarrow> bool \<times> string" where
  "strip_sign s = (case s of [] \<Rightarrow> (False, []) | c # t \<Rightarrow>
     if c = CHR ''+'' then (False, t) else if c = CHR ''-'' then (True, t) else (False, s))"

definition underscore_ok :: "string \<Rightarrow> bool" where
  "underscore_ok s = (case snd (strip_sign s) of
       a # b # t \<Rightarrow>
         if a = CHR ''0'' \<and> lower_char b \<in> {CHR ''b'', CHR ''o'', CHR ''x''}
         then underscore_loop (lower_char b = CHR ''x'') CHR ''0'' t
         else underscore_loop False CHR ''^'' (a # b # t)
     | t \<Rightarrow> underscore_loop False CHR ''^'' t)"

definition hex_prefix :: "string \<Rightarrow> bool" where
  "hex_prefix s = (case s of a # b # _ # _ \<Rightarrow> a = CHR ''0'' \<and> lower_char b = CHR ''x'' | _ \<Rightarrow> False)"

definition parse_number :: "string \<Rightarrow> num_error + float64" where
  "parse_number s =
     (let (neg, t) = strip_sign s;
          base = (if hex_prefix t then 16 else 10 :: nat);
          (m, f, dig, r) = scan_mantissa base (if hex_prefix t then drop 2 t else t) 0 0 False False
      in if \<not> dig then Inl ErrSyntax
         else case parse_exponent base r of
           None \<Rightarrow> Inl ErrSyntax
         | Some (e, rest) \<Rightarrow>
             if rest \<noteq> [] \<or> (CHR ''_'' \<in> set s \<and> \<not> underscore_ok s) then Inl ErrSyntax
             else let v = (if base = 16 then of_nat m * 2 powi (e - 4 * int f)
                           else of_nat m * 10 powi (e - int f))
                  in case f64_round neg (f64_val neg v) of
                       Inf sg \<Rightarrow> Inl ErrRange
                     | x \<Rightarrow> Inr x)"

definition parse_float :: "string \<Rightarrow> num_error + float64" where
  "parse_float s = (case parse_special s of Some v \<Rightarrow> Inr v | None \<Rightarrow> parse_number s)"

subsection \<open>Reading what was printed\<close>

lemma is_digit_not_special:
  assumes "is_digit c"
  shows "c \<noteq> CHR ''_''" "c \<noteq> CHR ''.''" "c \<noteq> CHR ''+''" "c \<noteq> CHR ''-''" "lower_char c = c"
    "\<not> is_digit (CHR ''x'')"
  using assms by (auto simp: is_digit_def lower_char_def Let_def)

lemma digit_in_digit [simp]: "is_digit c \<Longrightarrow> digit_in b c = Some (digit_val c)"
  by (simp add: digit_in_def)

lemma scan_digits:
  "\<forall>c \<in> set ds. is_digit c \<Longrightarrow>
   scan_mantissa 10 (ds @ r) m f dot dig =
   scan_mantissa 10 r (read_digits m ds) (if dot then f + length ds else f) dot (dig \<or> ds \<noteq> [])"
  by (induction ds arbitrary: m f dig) (simp_all add: is_digit_not_special)

text \<open>What the program prints with a precision: an optional minus, digits, a dot, digits.\<close>

lemma strip_sign_digits:
  assumes "\<forall>c \<in> set ds. is_digit c" and "ds \<noteq> []"
  shows "strip_sign ((if s then ''-'' else []) @ ds @ r) = (s, ds @ r)"
  using assms by (cases ds) (auto simp: strip_sign_def is_digit_not_special)

lemma hex_prefix_digits:
  assumes "\<forall>c \<in> set ds. is_digit c" and "ds \<noteq> []"
  shows "\<not> hex_prefix (ds @ ''.'' @ fs)"
proof -
  have x: "lower_char c \<noteq> CHR ''x''" if "is_digit c" for c
    using that is_digit_not_special [of c] by metis
  have "lower_char (CHR ''.'') \<noteq> CHR ''x''" by (simp add: lower_char_def)
  with assms x show ?thesis
    by (cases ds; cases "tl ds") (auto simp: hex_prefix_def split: list.splits)
qed

lemma no_underscore:
  assumes "\<forall>c \<in> set ds. is_digit c" and "\<forall>c \<in> set fs. is_digit c"
  shows "CHR ''_'' \<notin> set ((if s then ''-'' else []) @ ds @ ''.'' @ fs)"
  using assms by (auto simp: is_digit_def)

lemma parse_special_digits:
  assumes "\<forall>c \<in> set ds. is_digit c" and "ds \<noteq> []"
  shows "parse_special ((if s then ''-'' else []) @ ds @ r) = None"
proof -
  obtain d e where ds: "ds = d # e" using assms(2) by (cases ds) auto
  then have d: "is_digit d" using assms(1) by simp
  then have n: "lower_char d = d" "d \<noteq> CHR ''i''" "d \<noteq> CHR ''n''" "d \<noteq> CHR ''+''" "d \<noteq> CHR ''-''"
    by (auto simp: is_digit_not_special is_digit_def)
  have m: "lower_char (CHR ''-'') = CHR ''-''" by (simp add: lower_char_def)
  show ?thesis using n m by (simp add: parse_special_def ds Let_def)
qed

lemma parse_fixed:
  assumes "\<forall>c \<in> set ds. is_digit c" "ds \<noteq> []" "\<forall>c \<in> set fs. is_digit c"
  shows "parse_float ((if s then ''-'' else []) @ ds @ ''.'' @ fs) =
    (case f64_round s (f64_val s (of_nat (read_digits (read_digits 0 ds) fs) / 10 ^ length fs)) of
       Inf sg \<Rightarrow> Inl ErrRange | x \<Rightarrow> Inr x)"
proof -
  have scan: "scan_mantissa 10 (ds @ ''.'' @ fs) 0 0 False False =
      (read_digits (read_digits 0 ds) fs, length fs, True, [])"
    using assms scan_digits [of ds "''.'' @ fs" 0 0 False False]
      scan_digits [of fs "[]" "read_digits 0 ds" 0 True True] by simp
  have "(10 :: rat) powi (0 - int (length fs)) = 1 / 10 ^ length fs"
    by (simp add: power_int_minus inverse_eq_divide)
  then show ?thesis
    using strip_sign_digits [OF assms(1,2), of s "''.'' @ fs"] hex_prefix_digits [OF assms(1,2), of fs]
      no_underscore [OF assms(1,3), of s] scan parse_special_digits [OF assms(1,2), of s "''.'' @ fs"]
    by (simp add: parse_float_def parse_number_def parse_exponent_def Let_def)
qed

text \<open>
  Reading back what \<open>%.pf\<close> printed gives the float nearest to the printed decimal, with
  the sign of the original.
\<close>

lemma parse_fmt_f:
  assumes "0 < p" and "0 \<le> m"
  defines "n \<equiv> nat (round_even (m * 10 ^ p))"
  shows "parse_float (fmt_f p (Fin s m)) =
    (case f64_round s (f64_val s (of_nat n / 10 ^ p)) of Inf sg \<Rightarrow> Inl ErrRange | x \<Rightarrow> Inr x)"
proof -
  have n: "n div 10 ^ p * 10 ^ p + n mod 10 ^ p = n" by (rule div_mult_mod_eq)
  have "fmt_f p (Fin s m) = (if s then ''-'' else []) @ show_nat (n div 10 ^ p) @ ''.'' @ show_fixed p (n mod 10 ^ p)"
    using assms(1) by (simp add: n_def Let_def)
  moreover have "read_digits (read_digits 0 (show_nat (n div 10 ^ p))) (show_fixed p (n mod 10 ^ p)) = n"
    using n by (simp add: read_show_fixed)
  ultimately show ?thesis
    using parse_fixed [OF show_nat_digits show_nat_nonempty show_fixed_digits, of s "n div 10 ^ p" p "n mod 10 ^ p"]
    by simp
qed

subsection \<open>Money: whole cents survive float64\<close>

text \<open>The float64 nearest to an amount of cents, and its text with two decimals.\<close>

definition dollars :: "nat \<Rightarrow> float64" where
  "dollars c = f64_round False (of_nat c / 100)"

definition money_text :: "nat \<Rightarrow> string" where
  "money_text c = show_nat (c div 100) @ ''.'' @ show_fixed 2 (c mod 100)"

text \<open>Amounts up to ten trillion: far below the 2 powi 44 where half a unit reaches 0.001.\<close>

definition cents_ok :: "nat \<Rightarrow> bool" where
  "cents_ok c \<longleftrightarrow> c \<le> 10 ^ 15"

lemma f64_round_error:
  assumes x: "x \<noteq> 0" "\<bar>x\<bar> < 2 ^ 44"
  obtains m where "f64_round z x = Fin (x < 0) m" "\<bar>m - \<bar>x\<bar>\<bar> \<le> 1 / 1024" "0 \<le> m"
proof -
  have "\<bar>x\<bar> < 2 powi 44" using x(2) by simp
  then obtain m where m: "round_mag \<bar>x\<bar> = Some m" "\<bar>m - \<bar>x\<bar>\<bar> \<le> 2 powi (44 - 54)" "0 \<le> m"
    by (rule round_mag_error [of "\<bar>x\<bar>" 44, rotated]) auto
  have "(2 :: rat) powi (44 - 54) = 1 / 1024" by (simp add: power_int_def power_divide)
  with m x that show ?thesis by (simp add: f64_round_def)
qed

lemma dollars_error:
  assumes "cents_ok c"
  obtains m where "dollars c = Fin False m" "\<bar>m - of_nat c / 100\<bar> \<le> 1 / 1024" "0 \<le> m"
proof (cases "c = 0")
  case True
  then show ?thesis using that [of 0] by (simp add: dollars_def f64_round_def)
next
  case False
  have "of_nat c \<le> (10 ^ 15 :: rat)"
    using assms by (simp add: cents_ok_def flip: of_nat_power)
  then have "\<bar>of_nat c / 100\<bar> < (2 ^ 44 :: rat)" by simp
  moreover have "of_nat c / 100 \<noteq> (0 :: rat)" using False by simp
  ultimately show ?thesis
    using that f64_round_error [of "of_nat c / 100" False] by (auto simp: dollars_def)
qed

lemma fmt_cents:
  assumes "\<bar>m - of_nat c / 100\<bar> < 1 / 200"
  shows "fmt_f 2 (Fin False m) = money_text c"
proof -
  have "\<bar>m * 100 - of_int (int c)\<bar> = 100 * \<bar>m - of_nat c / 100\<bar>"
    by (simp add: abs_if field_simps)
  then have "round_even (m * 100) = int c"
    using assms by (intro round_even_unique) linarith
  then show ?thesis by (simp add: money_text_def Let_def)
qed

lemma fmt_dollars: "cents_ok c \<Longrightarrow> fmt_f 2 (dollars c) = money_text c"
proof (erule dollars_error)
  fix m assume "dollars c = Fin False m" "\<bar>m - of_nat c / 100\<bar> \<le> 1 / 1024"
  then show ?thesis using fmt_cents [of m c] by simp
qed

lemma parse_money_text:
  assumes "cents_ok c"
  shows "parse_float (money_text c) = Inr (dollars c)"
proof -
  obtain m where m: "dollars c = Fin False m" using assms by (rule dollars_error)
  have "read_digits (read_digits 0 (show_nat (c div 100))) (show_fixed 2 (c mod 100)) = c"
    by (simp add: read_show_fixed)
  then show ?thesis
    using parse_fixed [OF show_nat_digits show_nat_nonempty show_fixed_digits, of False "c div 100" 2 "c mod 100"] m
    by (simp add: money_text_def dollars_def f64_val_def)
qed

lemma dollars_round_trip: "cents_ok c \<Longrightarrow> parse_float (fmt_f 2 (dollars c)) = Inr (dollars c)"
  by (simp add: fmt_dollars parse_money_text)

lemma of_nat_less_rat: "a < b \<Longrightarrow> of_nat a + 1 \<le> (of_nat b :: rat)"
  by (metis Suc_leI of_nat_Suc of_nat_le_iff add.commute)

lemma abs_near_diff:
  fixes a b x y e :: rat
  assumes "\<bar>x - a\<bar> \<le> e" "\<bar>y - b\<bar> \<le> e"
  shows "\<bar>\<bar>y - x\<bar> - \<bar>b - a\<bar>\<bar> \<le> 2 * e"
  using assms by linarith

lemma near_less:
  fixes a b x y e :: rat
  assumes "\<bar>x - a\<bar> \<le> e" "\<bar>y - b\<bar> \<le> e" "a + 3 * e \<le> b" "0 < e"
  shows "x < y"
  using assms by linarith

text \<open>
  Subtraction of two amounts: the float result is within 3/1024 of the exact difference
  and has its sign.
\<close>

lemma dollars_sub:
  assumes "cents_ok a" "cents_ok b"
  obtains m where "f64_sub (dollars b) (dollars a) = Fin (b < a) m"
    "\<bar>m - \<bar>of_nat b - of_nat a\<bar> / 100\<bar> \<le> 3 / 1024" "0 \<le> m"
proof (cases "a = b")
  case True
  with assms(1) show ?thesis
    using that [of 0] by (auto simp: f64_sub_def f64_val_def f64_round_def elim: dollars_error)
next
  case False
  obtain ma where ma: "dollars a = Fin False ma" "\<bar>ma - of_nat a / 100\<bar> \<le> 1 / 1024" "0 \<le> ma"
    using assms(1) by (rule dollars_error)
  obtain mb where mb: "dollars b = Fin False mb" "\<bar>mb - of_nat b / 100\<bar> \<le> 1 / 1024" "0 \<le> mb"
    using assms(2) by (rule dollars_error)
  have bounds: "of_nat a \<le> (10 ^ 15 :: rat)" "of_nat b \<le> (10 ^ 15 :: rat)"
    using assms by (simp_all add: cents_ok_def flip: of_nat_power)
  have sgn: "(mb - ma < 0) = (b < a)"
  proof (cases "b < a")
    case True
    with near_less [OF mb(2) ma(2)] of_nat_less_rat [OF True] show ?thesis by simp
  next
    case nb: False
    then have "a < b" using False by simp
    with near_less [OF ma(2) mb(2)] of_nat_less_rat [of a b] show ?thesis by simp
  qed
  let ?d = "\<bar>of_nat b / 100 - of_nat a / 100 :: rat\<bar>"
  have d: "?d = \<bar>of_nat b - of_nat a\<bar> / 100" by (simp add: diff_divide_distrib [symmetric])
  have near: "\<bar>\<bar>mb - ma\<bar> - ?d\<bar> \<le> 2 / 1024"
    using abs_near_diff [OF ma(2) mb(2)] by simp
  have "mb - ma \<noteq> 0"
    using near_less [OF ma(2) mb(2)] near_less [OF mb(2) ma(2)]
      of_nat_less_rat [of a b] of_nat_less_rat [of b a] False by (cases "a < b") auto
  moreover have "\<bar>mb - ma\<bar> < 2 ^ 44"
  proof -
    have "mb \<le> of_nat b / 100 + 1" "ma \<le> of_nat a / 100 + 1" using ma(2) mb(2) by linarith+
    then have "mb \<le> 10 ^ 13 + 1" "ma \<le> 10 ^ 13 + 1" using bounds by simp_all
    then show ?thesis using ma(3) mb(3) by (simp add: abs_less_iff)
  qed
  ultimately obtain m where m: "f64_round False (mb - ma) = Fin (mb - ma < 0) m"
      "\<bar>m - \<bar>mb - ma\<bar>\<bar> \<le> 1 / 1024" "0 \<le> m"
    by (rule f64_round_error)
  show ?thesis
  proof (rule that)
    show "f64_sub (dollars b) (dollars a) = Fin (b < a) m"
      using m(1) sgn by (simp add: f64_sub_def ma mb f64_val_def)
    show "\<bar>m - \<bar>of_nat b - of_nat a\<bar> / 100\<bar> \<le> 3 / 1024"
      unfolding d [symmetric] using m(2) near by linarith
    show "0 \<le> m" by (rule m(3))
  qed
qed

lemma fmt_dollars_sub:
  assumes "cents_ok a" "cents_ok b" "a \<le> b"
  shows "fmt_f 2 (f64_sub (dollars b) (dollars a)) = money_text (b - a)"
proof -
  obtain m where m: "f64_sub (dollars b) (dollars a) = Fin (b < a) m"
    "\<bar>m - \<bar>of_nat b - of_nat a\<bar> / 100\<bar> \<le> 3 / 1024"
    using assms(1,2) by (rule dollars_sub)
  have "\<bar>of_nat b - of_nat a :: rat\<bar> = of_nat (b - a)" using assms(3) by simp
  with m have "\<bar>m - of_nat (b - a) / 100\<bar> < 1 / 200" by simp
  with m(1) assms(3) fmt_cents show ?thesis by simp
qed

lemma dollars_sub_lt_zero:
  assumes "cents_ok a" "cents_ok b"
  shows "f64_lt (f64_sub (dollars b) (dollars a)) f64_zero = (b < a)"
proof -
  obtain m where m: "f64_sub (dollars b) (dollars a) = Fin (b < a) m"
    "\<bar>m - \<bar>of_nat b - of_nat a\<bar> / 100\<bar> \<le> 3 / 1024" "0 \<le> m"
    using assms by (rule dollars_sub)
  show ?thesis
  proof (cases "b < a")
    case True
    then have g: "of_nat b + 1 \<le> (of_nat a :: rat)" by (rule of_nat_less_rat)
    then have "\<bar>of_nat b - of_nat a :: rat\<bar> = of_nat a - of_nat b" by simp
    with m(2) have "(of_nat a - of_nat b) / 100 - 3 / 1024 \<le> m" by (simp only: abs_le_iff) linarith
    moreover have "3 / 1024 < (of_nat a - of_nat b) / (100 :: rat)" using g by simp
    ultimately have "0 < m" by linarith
    with True m(1) show ?thesis by (simp add: f64_val_def)
  next
    case False
    with m(1,3) show ?thesis by (simp add: f64_val_def)
  qed
qed

lemma dollars_lt:
  assumes "cents_ok a" "cents_ok b"
  shows "f64_lt (dollars a) (dollars b) = (a < b)"
proof -
  obtain ma where ma: "dollars a = Fin False ma" "\<bar>ma - of_nat a / 100\<bar> \<le> 1 / 1024"
    using assms(1) by (rule dollars_error)
  obtain mb where mb: "dollars b = Fin False mb" "\<bar>mb - of_nat b / 100\<bar> \<le> 1 / 1024"
    using assms(2) by (rule dollars_error)
  consider "a < b" | "a = b" | "b < a" by linarith
  then show ?thesis
  proof cases
    case 1
    with near_less [OF ma(2) mb(2)] of_nat_less_rat [OF 1] ma(1) mb(1) show ?thesis
      by (simp add: f64_val_def)
  next
    case 2
    then show ?thesis using ma by (simp add: f64_val_def)
  next
    case 3
    with near_less [OF mb(2) ma(2)] of_nat_less_rat [OF 3] ma(1) mb(1) show ?thesis
      by (simp add: f64_val_def)
  qed
qed

subsection \<open>Bounded amounts: products, sums, quotients and their text\<close>

text \<open>
  \<open>at_most n x\<close>: the float \<open>x\<close> is finite, not negative, and at most \<open>n\<close> times \<open>2 ^ 44\<close>, a bound that
  rounding respects because it is itself a float64.
\<close>

fun at_most :: "int \<Rightarrow> float64 \<Rightarrow> bool" where
  "at_most n (Fin s m) = (\<not> s \<and> 0 \<le> m \<and> m \<le> of_int n * 2 ^ 44)"
| "at_most n _ = False"

lemma round_even_le: "x \<le> of_int n \<Longrightarrow> round_even x \<le> n"
proof -
  assume x: "x \<le> of_int n"
  show ?thesis
  proof (cases "\<lfloor>x\<rfloor> = n")
    case True
    then have "x = of_int n" using x floor_correct [of x] by linarith
    then show ?thesis by simp
  next
    case False
    moreover have "\<lfloor>x\<rfloor> \<le> n" using x floor_mono [of x "of_int n"] by simp
    ultimately have "\<lfloor>x\<rfloor> + 1 \<le> n" by linarith
    then show ?thesis by (simp add: round_even_def Let_def)
  qed
qed

lemma round_mag_le:
  assumes "0 \<le> q" "q \<le> of_int n * 2 ^ 44" "n \<le> 2 ^ 32"
  obtains r where "round_mag q = Some r" "0 \<le> r" "r \<le> of_int n * 2 ^ 44"
proof (cases "q = 0")
  case True
  then show ?thesis using that [of 0] assms(1,2) by (simp add: round_mag_def)
next
  case False
  with assms(1) have pos: "0 < q" by simp
  define u :: rat where "u = 2 powi (ulp_exp q)"
  have u: "0 < u" by (simp add: u_def)
  have "(of_int n :: rat) \<le> 2 ^ 32" using assms(3) by (metis of_int_le_iff of_int_numeral of_int_power)
  then have "q < 2 powi 77" using assms(2) by simp
  then have "ilog2 q < 77" by (rule ilog2_less [OF pos])
  then have "ulp_exp q \<le> 44" by (simp add: ulp_exp_def)
  then obtain d where "44 - ulp_exp q = int d" by (metis diff_ge_0_iff_ge nonneg_int_cases)
  then have d: "ulp_exp q + int d = 44" by simp
  have two: "(2 :: rat) ^ 44 = u * 2 ^ d"
    using power_int_add [of "2 :: rat" "ulp_exp q" "int d"] unfolding d u_def by simp
  have "of_int n * 2 ^ 44 = of_int (n * 2 ^ d) * u" unfolding two by simp
  then have "q / u \<le> of_int (n * 2 ^ d)" using assms(2) u by (simp only: pos_divide_le_eq)
  then have "round_even (q / u) \<le> n * 2 ^ d" by (rule round_even_le)
  then have "(of_int (round_even (q / u)) :: rat) \<le> of_int (n * 2 ^ d)" by (simp only: of_int_le_iff)
  then have le: "of_int (round_even (q / u)) * u \<le> of_int n * 2 ^ 44"
    using u mult_right_mono [of "of_int (round_even (q / u))" "of_int (n * 2 ^ d)" u]
    unfolding \<open>of_int n * 2 ^ 44 = of_int (n * 2 ^ d) * u\<close> by simp
  have nn: "0 \<le> of_int (round_even (q / u)) * u" using round_even_nonneg [of "q / u"] pos u by simp
  have "of_int (round_even (q / u)) * u < 2 ^ 1024" using le \<open>of_int n \<le> 2 ^ 32\<close> by simp
  then show ?thesis using that le nn False by (simp add: round_mag_def Let_def u_def)
qed

lemma f64_round_at_most:
  assumes "0 \<le> x" "x \<le> of_int n * 2 ^ 44" "n \<le> 2 ^ 32"
  shows "at_most n (f64_round False x)"
  by (rule round_mag_le [OF assms]) (use assms in \<open>auto simp: f64_round_def\<close>)

lemma at_most_cases:
  assumes "at_most n x"
  obtains m where "x = Fin False m" "0 \<le> m" "m \<le> of_int n * 2 ^ 44"
  using assms by (cases x) auto

lemma at_most_arith:
  assumes "at_most 1 v" "at_most 1 a" "0 \<le> n" "n < 2 ^ 31"
  shows "at_most 1 (f64_div (f64_add (f64_mul v (f64_of_int n)) a) (f64_of_int (n + 1)))"
proof -
  have n: "f64_of_int n = Fin False (of_int n)" "f64_of_int (n + 1) = Fin False (of_int (n + 1))"
    using assms(3,4) by (simp_all add: f64_of_int_exact)
  obtain m where m: "v = Fin False m" "0 \<le> m" "m \<le> 2 ^ 44" using at_most_cases [OF assms(1)] by auto
  obtain b where b: "a = Fin False b" "0 \<le> b" "b \<le> 2 ^ 44" using at_most_cases [OF assms(2)] by auto
  have "at_most n (f64_mul v (f64_of_int n))"
    using m assms(3,4) mult_right_mono [of m "2 ^ 44" "of_int n"] unfolding n m(1)
    by (auto intro!: f64_round_at_most simp: f64_val_def mult_ac)
  then obtain x where x: "f64_mul v (f64_of_int n) = Fin False x" "0 \<le> x" "x \<le> of_int n * 2 ^ 44" by (rule at_most_cases)
  have "at_most (n + 1) (f64_add (f64_mul v (f64_of_int n)) a)"
    using x b assms(3,4) unfolding x(1) b(1) by (auto intro!: f64_round_at_most simp: f64_val_def algebra_simps)
  then obtain y where y: "f64_add (f64_mul v (f64_of_int n)) a = Fin False y" "0 \<le> y" "y \<le> of_int (n + 1) * 2 ^ 44"
    by (rule at_most_cases)
  have "y / of_int (n + 1) \<le> 2 ^ 44" using y(3) assms(3) by (simp add: divide_le_eq mult_ac)
  then show ?thesis
    using y assms(3) unfolding y(1) n(2) by (auto intro!: f64_round_at_most simp: f64_val_def)
qed

lemma at_most_text:
  assumes "at_most 1 x"
  obtains y where "parse_float (fmt_f 2 x) = Inr y" "at_most 1 y"
proof -
  obtain m where m: "x = Fin False m" "0 \<le> m" "m \<le> 2 ^ 44" using at_most_cases [OF assms] by auto
  let ?n = "nat (round_even (m * 10 ^ 2))"
  have "m * 10 ^ 2 \<le> of_int (2 ^ 44 * 100)" using m(3) by simp
  then have "round_even (m * 10 ^ 2) \<le> 2 ^ 44 * 100" by (rule round_even_le)
  then have "of_int (round_even (m * 10 ^ 2)) \<le> (of_int (2 ^ 44 * 100) :: rat)" by (simp only: of_int_le_iff)
  moreover have "0 \<le> round_even (m * 10 ^ 2)" using m(2) by (intro round_even_nonneg) simp
  ultimately have "at_most 1 (f64_round False (of_nat ?n / 10 ^ 2))"
    by (intro f64_round_at_most) simp_all
  moreover from this obtain y where "f64_round False (of_nat ?n / 10 ^ 2) = Fin False y" by (rule at_most_cases)
  ultimately show ?thesis using that parse_fmt_f [of 2 m False] m by (simp add: f64_val_def)
qed

lemma dollars_at_most:
  assumes "cents_ok c"
  shows "at_most 1 (dollars c)"
proof -
  have "of_nat c \<le> (10 ^ 15 :: rat)" using assms by (simp add: cents_ok_def flip: of_nat_power)
  then have "of_nat c / 100 \<le> (of_int 1 * 2 ^ 44 :: rat)" by simp
  then show ?thesis unfolding dollars_def by (intro f64_round_at_most) simp_all
qed

end
