(* ===== verification/Errors.thy ===== *)
theory Errors
  imports Float64
begin

text \<open>
  \<open>pkg/errors.go\<close>: the error values of the program and their conversion to HTTP
  responses. A Go \<open>error\<close> is a value of \<open>go_error\<close>: the program's own \<open>AppError\<close>, errors
  made by \<open>errors.New\<close> and \<open>fmt.Errorf\<close>, and the errors of the libraries it tells apart
  (\<open>pgx.ErrNoRows\<close>, \<open>*pgconn.PgError\<close>, \<open>redis.Nil\<close>, \<open>*strconv.NumError\<close>); any other
  library error is \<open>LibError\<close> with its text. A Go result \<open>(T, error)\<close> is \<open>go_error + T\<close>.

  \<open>errors.Is\<close> and \<open>errors.As\<close> walk the chain of \<open>Unwrap\<close>; the walks the program uses
  are \<open>is_no_rows\<close>, \<open>as_pg_error\<close> and \<open>as_app_error\<close>.
\<close>

record ErrorCode =
  ec_Code :: string
  ec_Status :: int
  ec_Message :: string

record PgError =
  pg_Code :: string
  pg_Text :: string

datatype go_error =
    ErrorString string
  | WrapError string go_error
  | AppError ErrorCode string "go_error option"
  | PgErr PgError
  | ErrNoRows
  | RedisNil
  | NumError string num_error
  | LibError string

type_synonym 'a result = "go_error + 'a"

subsection \<open>Reusable errors and the catalogue of codes\<close>

definition SqlErrForeignKeyViolation :: go_error where
  "SqlErrForeignKeyViolation = ErrorString ''foreign key violation''"

definition SqlError :: go_error where
  "SqlError = ErrorString ''sql error''"

definition ErrInsufficientBalance :: go_error where
  "ErrInsufficientBalance = ErrorString ''insufficient balance''"

definition ErrInvalidInputCode :: ErrorCode where
  "ErrInvalidInputCode = \<lparr>ec_Code = ''APP_INVALID_INPUT'', ec_Status = 400, ec_Message = ''invalid input''\<rparr>"

definition ErrServerCode :: ErrorCode where
  "ErrServerCode = \<lparr>ec_Code = ''APP_INTERNAL'', ec_Status = 500, ec_Message = ''internal server error''\<rparr>"

definition ErrRecordNotFoundCode :: ErrorCode where
  "ErrRecordNotFoundCode = \<lparr>ec_Code = ''APP_NOT_FOUND'', ec_Status = 404, ec_Message = ''record not found''\<rparr>"

definition ErrBusinessRuleCode :: ErrorCode where
  "ErrBusinessRuleCode = \<lparr>ec_Code = ''BUSINESS_RULE_VIOLATION'', ec_Status = 422, ec_Message = ''business rule violated''\<rparr>"

definition ErrInsufficientFundsCode :: ErrorCode where
  "ErrInsufficientFundsCode = \<lparr>ec_Code = ''BUSINESS_INSUFFICIENT_FUNDS'', ec_Status = 422, ec_Message = ''insufficient balance''\<rparr>"

definition ErrIdempotencyConflictCode :: ErrorCode where
  "ErrIdempotencyConflictCode = \<lparr>ec_Code = ''BUSINESS_IDEMPOTENCY_CONFLICT'', ec_Status = 409, ec_Message = ''idempotency conflict''\<rparr>"

definition ErrSQLUnknownCode :: ErrorCode where
  "ErrSQLUnknownCode = \<lparr>ec_Code = ''SQL_UNKNOWN'', ec_Status = 500, ec_Message = ''sql error''\<rparr>"

definition ErrSQLConflictCode :: ErrorCode where
  "ErrSQLConflictCode = \<lparr>ec_Code = ''SQL_CONFLICT'', ec_Status = 409, ec_Message = ''sql conflict''\<rparr>"

definition ErrSQLDuplicateCode :: ErrorCode where
  "ErrSQLDuplicateCode = \<lparr>ec_Code = ''SQL_DUPLICATE'', ec_Status = 409, ec_Message = ''duplicate record''\<rparr>"

definition ErrSQLInvalidInput :: ErrorCode where
  "ErrSQLInvalidInput = \<lparr>ec_Code = ''SQL_INVALID_INPUT'', ec_Status = 400, ec_Message = ''invalid input''\<rparr>"

lemmas error_code_defs =
  ErrInvalidInputCode_def ErrServerCode_def ErrRecordNotFoundCode_def ErrBusinessRuleCode_def
  ErrInsufficientFundsCode_def ErrIdempotencyConflictCode_def ErrSQLUnknownCode_def
  ErrSQLConflictCode_def ErrSQLDuplicateCode_def ErrSQLInvalidInput_def

subsection \<open>Texts, chains and responses\<close>

definition NewAppError :: "ErrorCode \<Rightarrow> string \<Rightarrow> go_error option \<Rightarrow> go_error" where
  "NewAppError code msg cause = AppError code msg cause"

text \<open>
  \<open>Error()\<close>. The argument \<open>quote\<close> stands for \<open>strconv.Quote\<close>, which the text of a
  \<open>NumError\<close> applies to the input.
\<close>

fun error_text :: "(string \<Rightarrow> string) \<Rightarrow> go_error \<Rightarrow> string" where
  "error_text quote (ErrorString s) = s"
| "error_text quote (WrapError p e) = p @ '': '' @ error_text quote e"
| "error_text quote (AppError c m None) = m"
| "error_text quote (AppError c m (Some e)) = m @ '': '' @ error_text quote e"
| "error_text quote (PgErr p) = pg_Text p"
| "error_text quote ErrNoRows = ''no rows in result set''"
| "error_text quote RedisNil = ''redis: nil''"
| "error_text quote (NumError s k) = ''strconv.ParseFloat: parsing '' @ quote s @ '': '' @
     (case k of ErrSyntax \<Rightarrow> ''invalid syntax'' | ErrRange \<Rightarrow> ''value out of range'')"
| "error_text quote (LibError s) = s"

fun is_no_rows :: "go_error \<Rightarrow> bool" where
  "is_no_rows ErrNoRows = True"
| "is_no_rows (WrapError p e) = is_no_rows e"
| "is_no_rows (AppError c m (Some e)) = is_no_rows e"
| "is_no_rows _ = False"

fun as_pg_error :: "go_error \<Rightarrow> PgError option" where
  "as_pg_error (PgErr p) = Some p"
| "as_pg_error (WrapError t e) = as_pg_error e"
| "as_pg_error (AppError c m (Some e)) = as_pg_error e"
| "as_pg_error _ = None"

fun as_app_error :: "go_error \<Rightarrow> (ErrorCode \<times> string) option" where
  "as_app_error (AppError c m cause) = Some (c, m)"
| "as_app_error (WrapError t e) = as_app_error e"
| "as_app_error _ = None"

record ErrorResponse =
  er_Status :: int
  er_Code :: string
  er_Message :: string
  er_Details :: string

definition ToErrorResponse :: "bool \<Rightarrow> (string \<Rightarrow> string) \<Rightarrow> go_error \<Rightarrow> ErrorResponse" where
  "ToErrorResponse ExposeErrorDetails quote err =
     (let details = (if ExposeErrorDetails then error_text quote err else [])
      in case as_app_error err of
        Some (code, msg) \<Rightarrow>
          \<lparr>er_Status = ec_Status code, er_Code = ec_Code code, er_Message = msg, er_Details = details\<rparr>
      | None \<Rightarrow>
          \<lparr>er_Status = ec_Status ErrServerCode, er_Code = ec_Code ErrServerCode,
           er_Message = ec_Message ErrServerCode, er_Details = details\<rparr>)"

text \<open>The value the package gives \<open>ExposeErrorDetails\<close> when it is loaded, from gin's mode.\<close>

definition init_ExposeErrorDetails :: "string \<Rightarrow> bool" where
  "init_ExposeErrorDetails ginMode \<longleftrightarrow> ''debug'' = ginMode \<or> ''test'' = ginMode"

definition HandleSQLError :: "go_error \<Rightarrow> go_error" where
  "HandleSQLError err =
     (if is_no_rows err then NewAppError ErrRecordNotFoundCode ''no records found'' (Some err)
      else case as_pg_error err of
        None \<Rightarrow> NewAppError ErrSQLUnknownCode ''sql error'' (Some err)
      | Some p \<Rightarrow>
          if pg_Code p = ''23505'' then
            NewAppError ErrSQLDuplicateCode ''duplicate value violates unique constraint'' (Some SqlError)
          else if pg_Code p = ''23503'' then
            NewAppError ErrSQLConflictCode ''foreign key violation'' (Some SqlErrForeignKeyViolation)
          else if pg_Code p = ''22P02'' then
            NewAppError ErrSQLInvalidInput ''invalid input syntax'' (Some SqlError)
          else if pg_Code p = ''22001'' then
            NewAppError ErrSQLInvalidInput ''value too long for column'' (Some SqlError)
          else if pg_Code p = ''22003'' then
            NewAppError ErrSQLInvalidInput ''numeric value out of range'' (Some SqlError)
          else NewAppError ErrSQLUnknownCode ''sql error'' (Some SqlError))"

subsection \<open>What a client sees of a database error\<close>

text \<open>The HTTP status the catalogue gives to each class of database error.\<close>

definition sql_status :: "go_error \<Rightarrow> int" where
  "sql_status err =
     (if is_no_rows err then 404
      else case as_pg_error err of
        None \<Rightarrow> 500
      | Some p \<Rightarrow>
          if pg_Code p \<in> {''23505'', ''23503''} then 409
          else if pg_Code p \<in> {''22P02'', ''22001'', ''22003''} then 400 else 500)"

lemma HandleSQLError_app: "\<exists>c m e. HandleSQLError err = AppError c m (Some e)"
  by (simp add: HandleSQLError_def NewAppError_def split: option.split)

lemma HandleSQLError_response_status:
  "er_Status (ToErrorResponse x q (HandleSQLError err)) = sql_status err"
  by (auto simp: HandleSQLError_def NewAppError_def ToErrorResponse_def sql_status_def
      error_code_defs split: option.split)

end
