(* ===== verification/Aes_Gcm.thy ===== *)
theory Aes_Gcm
  imports Prelude
begin

unbundle bit_operations_syntax

text \<open>
  What \<open>pkg/utils/security_utils.go\<close> uses of Go's \<open>crypto/aes\<close> and \<open>crypto/cipher\<close>: the
  AES block function (FIPS 197, encryption direction, 16, 24 and 32 byte keys) and the
  Galois/Counter mode over it (NIST SP 800-38D) with a 12 byte nonce, a 16 byte tag and
  no additional data. Everything is executable; the lemmas at the end are the facts the
  client relies on: sealing adds 16 bytes and opening a sealed message returns it.
\<close>

subsection \<open>The AES block function\<close>

definition aes_sbox :: "byte list" where
  "aes_sbox = [
    99, 124, 119, 123, 242, 107, 111, 197, 48, 1, 103, 43, 254, 215, 171, 118,
    202, 130, 201, 125, 250, 89, 71, 240, 173, 212, 162, 175, 156, 164, 114, 192,
    183, 253, 147, 38, 54, 63, 247, 204, 52, 165, 229, 241, 113, 216, 49, 21,
    4, 199, 35, 195, 24, 150, 5, 154, 7, 18, 128, 226, 235, 39, 178, 117,
    9, 131, 44, 26, 27, 110, 90, 160, 82, 59, 214, 179, 41, 227, 47, 132,
    83, 209, 0, 237, 32, 252, 177, 91, 106, 203, 190, 57, 74, 76, 88, 207,
    208, 239, 170, 251, 67, 77, 51, 133, 69, 249, 2, 127, 80, 60, 159, 168,
    81, 163, 64, 143, 146, 157, 56, 245, 188, 182, 218, 33, 16, 255, 243, 210,
    205, 12, 19, 236, 95, 151, 68, 23, 196, 167, 126, 61, 100, 93, 25, 115,
    96, 129, 79, 220, 34, 42, 144, 136, 70, 238, 184, 20, 222, 94, 11, 219,
    224, 50, 58, 10, 73, 6, 36, 92, 194, 211, 172, 98, 145, 149, 228, 121,
    231, 200, 55, 109, 141, 213, 78, 169, 108, 86, 244, 234, 101, 122, 174, 8,
    186, 120, 37, 46, 28, 166, 180, 198, 232, 221, 116, 31, 75, 189, 139, 138,
    112, 62, 181, 102, 72, 3, 246, 14, 97, 53, 87, 185, 134, 193, 29, 158,
    225, 248, 152, 17, 105, 217, 142, 148, 155, 30, 135, 233, 206, 85, 40, 223,
    140, 161, 137, 13, 191, 230, 66, 104, 65, 153, 45, 15, 176, 84, 187, 22]"

definition sub_byte :: "byte \<Rightarrow> byte" where
  "sub_byte b = aes_sbox ! unat b"

definition xor_bytes :: "byte list \<Rightarrow> byte list \<Rightarrow> byte list" where
  "xor_bytes xs ys = map2 (XOR) xs ys"

text \<open>Multiplication by \<open>x\<close> in the AES field, with the polynomial 0x11b.\<close>

definition xtime :: "byte \<Rightarrow> byte" where
  "xtime b = (if 128 \<le> unat b then push_bit 1 b XOR 27 else push_bit 1 b)"

text \<open>The state is the 16 bytes column by column; row \<open>r\<close> rotates left by \<open>r\<close>.\<close>

definition shift_rows :: "byte list \<Rightarrow> byte list" where
  "shift_rows s = map (\<lambda>i. s ! i) [0, 5, 10, 15, 4, 9, 14, 3, 8, 13, 2, 7, 12, 1, 6, 11]"

fun mix_columns :: "byte list \<Rightarrow> byte list" where
  "mix_columns (a # b # c # d # s) =
     [xtime a XOR (xtime b XOR b) XOR c XOR d,
      a XOR xtime b XOR (xtime c XOR c) XOR d,
      a XOR b XOR xtime c XOR (xtime d XOR d),
      (xtime a XOR a) XOR b XOR c XOR xtime d] @ mix_columns s"
| "mix_columns s = []"

text \<open>Key expansion: 4-byte words, with the round constants as powers of \<open>x\<close>.\<close>

definition rcon :: "nat \<Rightarrow> byte list" where
  "rcon i = [(xtime ^^ (i - 1)) 1, 0, 0, 0]"

definition rot_word :: "byte list \<Rightarrow> byte list" where
  "rot_word w = rotate1 w"

fun split_words :: "byte list \<Rightarrow> byte list list" where
  "split_words (a # b # c # d # s) = [a, b, c, d] # split_words s"
| "split_words s = []"

definition next_word :: "nat \<Rightarrow> byte list list \<Rightarrow> byte list" where
  "next_word nk ws =
     (let i = length ws; temp = ws ! (i - 1);
          temp' = (if i mod nk = 0 then xor_bytes (map sub_byte (rot_word temp)) (rcon (i div nk))
                   else if 6 < nk \<and> i mod nk = 4 then map sub_byte temp else temp)
      in xor_bytes (ws ! (i - nk)) temp')"

primrec expand_words :: "nat \<Rightarrow> nat \<Rightarrow> byte list list \<Rightarrow> byte list list" where
  "expand_words nk 0 ws = ws"
| "expand_words nk (Suc n) ws = expand_words nk n (ws @ [next_word nk ws])"

definition key_schedule :: "byte list \<Rightarrow> byte list list" where
  "key_schedule key =
     (let nk = length key div 4; rounds = nk + 6;
          ws = expand_words nk (4 * (rounds + 1) - nk) (split_words key)
      in map (\<lambda>r. concat (take 4 (drop (4 * r) ws))) [0..<rounds + 1])"

fun aes_rounds :: "byte list list \<Rightarrow> byte list \<Rightarrow> byte list" where
  "aes_rounds [] s = s"
| "aes_rounds [k] s = xor_bytes (shift_rows (map sub_byte s)) k"
| "aes_rounds (k # ks) s = aes_rounds ks (xor_bytes (mix_columns (shift_rows (map sub_byte s))) k)"

definition aes_encrypt :: "byte list \<Rightarrow> byte list \<Rightarrow> byte list" where
  "aes_encrypt key block =
     (case key_schedule key of [] \<Rightarrow> block | k # ks \<Rightarrow> aes_rounds ks (xor_bytes block k))"

text \<open>\<open>aes.NewCipher\<close>: only three key lengths are accepted.\<close>

definition aes_NewCipher :: "byte list \<Rightarrow> (byte list \<Rightarrow> byte list) option" where
  "aes_NewCipher key = (if length key \<in> {16, 24, 32} then Some (aes_encrypt key) else None)"

subsection \<open>Galois/Counter mode\<close>

definition be_word :: "byte list \<Rightarrow> 128 word" where
  "be_word bs = foldl (\<lambda>a b. push_bit 8 a OR ucast b) 0 bs"

definition be_bytes :: "nat \<Rightarrow> 128 word \<Rightarrow> byte list" where
  "be_bytes n w = map (\<lambda>i. ucast (drop_bit (8 * (n - 1 - i)) w)) [0..<n]"

text \<open>Multiplication in GF(2^128): bit 127 of a word is the coefficient of \<open>x^0\<close>.\<close>

primrec gf_mul_loop :: "nat \<Rightarrow> 128 word \<Rightarrow> 128 word \<Rightarrow> 128 word \<Rightarrow> 128 word" where
  "gf_mul_loop 0 x v z = z"
| "gf_mul_loop (Suc n) x v z =
     gf_mul_loop n x
       (if bit v 0 then drop_bit 1 v XOR push_bit 120 225 else drop_bit 1 v)
       (if bit x n then z XOR v else z)"

definition gf_mul :: "128 word \<Rightarrow> 128 word \<Rightarrow> 128 word" where
  "gf_mul x y = gf_mul_loop 128 x y 0"

definition pad16 :: "byte list \<Rightarrow> byte list" where
  "pad16 b = b @ replicate (16 - length b) 0"

fun ghash_blocks :: "128 word \<Rightarrow> 128 word \<Rightarrow> byte list \<Rightarrow> 128 word" where
  "ghash_blocks h y bs =
     (if bs = [] then y
      else ghash_blocks h (gf_mul (y XOR be_word (pad16 (take 16 bs))) h) (drop 16 bs))"

declare ghash_blocks.simps [simp del]

text \<open>GHASH of the ciphertext and the length block (no additional data).\<close>

definition ghash :: "128 word \<Rightarrow> byte list \<Rightarrow> 128 word" where
  "ghash h c = gf_mul (ghash_blocks h 0 c XOR of_nat (8 * length c)) h"

definition counter_block :: "byte list \<Rightarrow> nat \<Rightarrow> byte list" where
  "counter_block nonce n = nonce @ be_bytes 4 (of_nat n)"

text \<open>Counter mode: block \<open>i\<close> of the text is masked with the encryption of counter \<open>i\<close>.\<close>

fun ctr_mode :: "(byte list \<Rightarrow> byte list) \<Rightarrow> byte list \<Rightarrow> nat \<Rightarrow> byte list \<Rightarrow> byte list" where
  "ctr_mode E nonce n bs =
     (if bs = [] then []
      else map2 (XOR) (take 16 bs) (pad16 (take 16 (E (counter_block nonce n)))) @
           ctr_mode E nonce (Suc n) (drop 16 bs))"

declare ctr_mode.simps [simp del]

definition gcm_tag :: "(byte list \<Rightarrow> byte list) \<Rightarrow> byte list \<Rightarrow> byte list \<Rightarrow> byte list" where
  "gcm_tag E nonce c =
     be_bytes 16 (ghash (be_word (E (replicate 16 0))) c XOR be_word (E (counter_block nonce 1)))"

definition gcm_Seal :: "(byte list \<Rightarrow> byte list) \<Rightarrow> byte list \<Rightarrow> byte list \<Rightarrow> byte list" where
  "gcm_Seal E nonce plaintext =
     (let c = ctr_mode E nonce 2 plaintext in c @ gcm_tag E nonce c)"

definition gcm_Open :: "(byte list \<Rightarrow> byte list) \<Rightarrow> byte list \<Rightarrow> byte list \<Rightarrow> byte list option" where
  "gcm_Open E nonce data =
     (if length data < 16 then None
      else let c = take (length data - 16) data; tag = drop (length data - 16) data
           in if gcm_tag E nonce c = tag then Some (ctr_mode E nonce 2 c) else None)"

subsection \<open>Opening what was sealed\<close>

lemma length_be_bytes [simp]: "length (be_bytes n w) = n"
  by (simp add: be_bytes_def)

lemma length_gcm_tag [simp]: "length (gcm_tag E nonce c) = 16"
  by (simp add: gcm_tag_def)

lemma length_pad16: "length b \<le> 16 \<Longrightarrow> length (pad16 b) = 16"
  by (simp add: pad16_def)

lemma ctr_mode_Nil [simp]: "ctr_mode E nonce n [] = []"
  by (simp add: ctr_mode.simps)

lemma length_ctr_mode [simp]: "length (ctr_mode E nonce n bs) = length bs"
proof (induction E nonce n bs rule: ctr_mode.induct)
  case (1 E nonce n bs)
  then show ?case
    by (cases "bs = []") (simp_all add: ctr_mode.simps [of E nonce n bs] length_pad16)
qed

lemma map2_xor_involutive:
  "length xs \<le> length ks \<Longrightarrow> map2 (XOR) (map2 (XOR) xs ks) ks = (xs :: byte list)"
  by (induction xs ks rule: list_induct2') (auto simp: xor.assoc)

lemma ctr_mode_involutive [simp]: "ctr_mode E nonce n (ctr_mode E nonce n bs) = bs"
proof (induction E nonce n bs rule: ctr_mode.induct)
  case (1 E nonce n bs)
  show ?case
  proof (cases "bs = []")
    case True
    then show ?thesis by (simp add: ctr_mode.simps)
  next
    case False
    define k where "k = pad16 (take 16 (E (counter_block nonce n)))"
    define x where "x = map2 (XOR) (take 16 bs) k"
    define r where "r = ctr_mode E nonce (Suc n) (drop 16 bs)"
    have len: "length k = 16" by (simp add: k_def length_pad16)
    have lx: "length x = min (length bs) 16" by (simp add: x_def len)
    have lr: "length bs \<le> 16 \<Longrightarrow> r = []" by (simp add: r_def)
    have eq: "ctr_mode E nonce n bs = x @ r"
      using False by (simp add: ctr_mode.simps [of E nonce n bs] x_def k_def r_def)
    have parts: "take 16 (x @ r) = x" "drop 16 (x @ r) = r"
      using lx lr by (cases "length bs \<le> 16"; simp)+
    have ne: "x @ r \<noteq> []" using False lx by (cases bs) auto
    have "ctr_mode E nonce n (x @ r) = map2 (XOR) x k @ ctr_mode E nonce (Suc n) r"
      by (subst ctr_mode.simps) (simp only: ne parts k_def if_False)
    also have "map2 (XOR) x k = take 16 bs"
      unfolding x_def using len by (intro map2_xor_involutive) simp
    also have "ctr_mode E nonce (Suc n) r = drop 16 bs"
      unfolding r_def by (rule "1.IH" [OF False])
    finally show ?thesis by (simp add: eq)
  qed
qed

lemma length_gcm_Seal [simp]: "length (gcm_Seal E nonce p) = length p + 16"
  by (simp add: gcm_Seal_def Let_def)

lemma gcm_Open_Seal [simp]: "gcm_Open E nonce (gcm_Seal E nonce p) = Some p"
  by (simp add: gcm_Open_def gcm_Seal_def Let_def)

lemma gcm_Open_short: "length data < 16 \<Longrightarrow> gcm_Open E nonce data = None"
  by (simp add: gcm_Open_def)

end
