(* ===== verification/Security.thy ===== *)
theory Security
  imports Errors Aes_Gcm
begin

text \<open>
  \<open>pkg/utils/security_utils.go\<close> and the conversions of \<open>pkg/utils/utils.go\<close>: amounts are
  printed with two decimals, sealed with AES-GCM under a random nonce and stored as base64
  text; reading goes the other way. \<open>encoding/base64\<close> is modelled here, the cipher in
  \<open>Aes_Gcm\<close>. The random nonce that \<open>rand.Reader\<close> delivers (or its error) is an argument.

  The locale \<open>aead\<close> is the contract of Go's \<open>cipher.AEAD\<close> the code relies on;
  \<open>amount_store\<close> is the contract this component offers to the services: an amount of whole
  cents that was stored is read back as the same float64.
\<close>

subsection \<open>Standard base64\<close>

definition b64_char :: "nat \<Rightarrow> char" where
  "b64_char n = char_of (if n < 26 then n + 65 else if n < 52 then n + 71
     else if n < 62 then n - 4 else if n = 62 then 43 else 47)"

definition b64_val :: "char \<Rightarrow> nat option" where
  "b64_val c = (let n = of_char c :: nat in
     if 65 \<le> n \<and> n \<le> 90 then Some (n - 65) else if 97 \<le> n \<and> n \<le> 122 then Some (n - 71)
     else if 48 \<le> n \<and> n \<le> 57 then Some (n + 4) else if n = 43 then Some 62
     else if n = 47 then Some 63 else None)"

fun b64_encode :: "byte list \<Rightarrow> string" where
  "b64_encode [] = []"
| "b64_encode [a] = (let x = unat a in [b64_char (x div 4), b64_char (x mod 4 * 16), CHR ''='', CHR ''=''])"
| "b64_encode [a, b] = (let x = unat a; y = unat b in
     [b64_char (x div 4), b64_char (x mod 4 * 16 + y div 16), b64_char (y mod 16 * 4), CHR ''=''])"
| "b64_encode (a # b # c # r) = (let x = unat a; y = unat b; z = unat c in
     [b64_char (x div 4), b64_char (x mod 4 * 16 + y div 16), b64_char (y mod 16 * 4 + z div 64),
      b64_char (z mod 64)] @ b64_encode r)"

text \<open>
  Decoding skips line feeds and carriage returns; the text left is groups of four, the last
  of which may end in one or two padding characters.
\<close>

fun b64_groups :: "string \<Rightarrow> byte list option" where
  "b64_groups [] = Some []"
| "b64_groups (a # b # c # d # r) =
     (case (b64_val a, b64_val b) of
        (Some p, Some q) \<Rightarrow>
          if c = CHR ''='' then
            (if d = CHR ''='' \<and> r = [] then Some [of_nat (p * 4 + q div 16)] else None)
          else (case b64_val c of None \<Rightarrow> None | Some s \<Rightarrow>
            if d = CHR ''='' then
              (if r = [] then Some [of_nat (p * 4 + q div 16), of_nat (q mod 16 * 16 + s div 4)] else None)
            else (case b64_val d of None \<Rightarrow> None | Some t \<Rightarrow>
              map_option (\<lambda>bs. [of_nat (p * 4 + q div 16), of_nat (q mod 16 * 16 + s div 4),
                of_nat (s mod 4 * 64 + t)] @ bs) (b64_groups r)))
      | _ \<Rightarrow> None)"
| "b64_groups _ = None"

definition b64_decode :: "string \<Rightarrow> byte list option" where
  "b64_decode s = b64_groups (filter (\<lambda>c. c \<noteq> CHR 0x0A \<and> c \<noteq> CHR 0x0D) s)"

subsection \<open>Conversions\<close>

definition IsEmpty :: "string \<Rightarrow> bool" where
  "IsEmpty s \<longleftrightarrow> s = []"

definition ToFloat64 :: "string \<Rightarrow> float64 result" where
  "ToFloat64 s = (case parse_float s of Inl k \<Rightarrow> Inl (NumError s k) | Inr x \<Rightarrow> Inr x)"

definition Float64ToByte :: "float64 \<Rightarrow> byte list" where
  "Float64ToByte bal = bytes_of_string (fmt_f 2 bal)"

definition ComputeDeviation :: "float64 \<Rightarrow> float64 \<Rightarrow> float64" where
  "ComputeDeviation amount averageAmount = f64_div (f64_abs (f64_sub amount averageAmount)) averageAmount"

subsection \<open>Encryption\<close>

record AEAD =
  aead_Seal :: "byte list \<Rightarrow> byte list \<Rightarrow> byte list"
  aead_Open :: "byte list \<Rightarrow> byte list \<Rightarrow> byte list option"

definition cipher_NewGCM :: "(byte list \<Rightarrow> byte list) \<Rightarrow> AEAD" where
  "cipher_NewGCM E = \<lparr>aead_Seal = gcm_Seal E, aead_Open = gcm_Open E\<rparr>"

definition ErrKeySize :: go_error where
  "ErrKeySize = LibError ''crypto/aes: invalid key size''"

definition ErrOpen :: go_error where
  "ErrOpen = LibError ''cipher: message authentication failed''"

definition ErrBase64 :: go_error where
  "ErrBase64 = LibError ''illegal base64 data''"

text \<open>
  The two halves of the code that talk to the AEAD: \<open>nonce\<close> and ciphertext are joined and
  encoded; decoding checks the minimal length 12 + 16 and splits at 12.
\<close>

definition seal_text :: "AEAD \<Rightarrow> byte list \<Rightarrow> byte list \<Rightarrow> string" where
  "seal_text A nonce plaintext = b64_encode (nonce @ aead_Seal A nonce plaintext)"

definition open_data :: "AEAD \<Rightarrow> byte list \<Rightarrow> string result" where
  "open_data A data =
     (case aead_Open A (take 12 data) (drop 12 data) of
        None \<Rightarrow> Inl ErrOpen
      | Some plaintext \<Rightarrow> Inr (string_of_bytes plaintext))"

definition EncryptAES :: "byte list result \<Rightarrow> byte list \<Rightarrow> byte list \<Rightarrow> string result" where
  "EncryptAES random plaintext key =
     (case aes_NewCipher key of
        None \<Rightarrow> Inl ErrKeySize
      | Some block \<Rightarrow>
          (case random of
             Inl err \<Rightarrow> Inl err
           | Inr nonce \<Rightarrow> Inr (seal_text (cipher_NewGCM block) nonce plaintext)))"

definition DecryptAES :: "string \<Rightarrow> byte list \<Rightarrow> string result" where
  "DecryptAES value key =
     (case b64_decode value of
        None \<Rightarrow> Inl ErrBase64
      | Some data \<Rightarrow>
          if length data < 12 + 16 then Inl (ErrorString ''ciphertext too short'')
          else (case aes_NewCipher key of
             None \<Rightarrow> Inl ErrKeySize
           | Some block \<Rightarrow> open_data (cipher_NewGCM block) data))"

text \<open>\<open>DecodeString\<close>: the AES key of the configuration, which must be 32 bytes.\<close>

definition DecodeString :: "string \<Rightarrow> byte list result" where
  "DecodeString value =
     (case b64_decode value of
        None \<Rightarrow> Inl (ErrorString ''invalid AES key'')
      | Some key \<Rightarrow> if length key \<noteq> 32 then Inl (ErrorString ''invalid AES key'') else Inr key)"

definition DecryptToFloat64 :: "string \<Rightarrow> byte list \<Rightarrow> float64 result" where
  "DecryptToFloat64 value key =
     (if IsEmpty value then Inr f64_zero
      else case DecryptAES value key of Inl err \<Rightarrow> Inl err | Inr s \<Rightarrow> ToFloat64 s)"

subsection \<open>Base64: decoding what was encoded\<close>

lemma b64_val_char [simp]: "n < 64 \<Longrightarrow> b64_val (b64_char n) = Some n"
  by (auto simp: b64_val_def b64_char_def Let_def)

lemma b64_val_None:
  "b64_val (CHR ''='') = None" "b64_val (CHR 0x0A) = None" "b64_val (CHR 0x0D) = None"
  by (simp_all add: b64_val_def)

lemma b64_char_clean:
  assumes "n < 64"
  shows "b64_char n \<noteq> CHR ''=''" "b64_char n \<noteq> CHR 0x0A" "b64_char n \<noteq> CHR 0x0D"
  using b64_val_char [OF assms] b64_val_None by auto

text \<open>Splitting bytes into groups of six bits and joining them again.\<close>

lemma b64_index_bounds:
  fixes x y z :: nat
  assumes "x < 256" "y < 256" "z < 256"
  shows "x div 4 < 64" "x mod 4 * 16 < 64" "x mod 4 * 16 + y div 16 < 64"
    "y mod 16 * 4 < 64" "y mod 16 * 4 + z div 64 < 64" "z mod 64 < 64"
proof -
  have "x mod 4 < 4" "y mod 16 < 16" "y div 16 < 16" "z div 64 < 4"
    using assms by (simp_all add: less_mult_imp_div_less)
  then show "x mod 4 * 16 < 64" "x mod 4 * 16 + y div 16 < 64"
    "y mod 16 * 4 < 64" "y mod 16 * 4 + z div 64 < 64" by linarith+
qed (use assms in \<open>simp_all add: less_mult_imp_div_less\<close>)

lemma b64_join1: "y < 256 \<Longrightarrow> x div 4 * 4 + (x mod 4 * 16 + y div 16) div 16 = (x :: nat)"
  using less_mult_imp_div_less [of y 16 16] by simp

lemma b64_join2:
  "y < 256 \<Longrightarrow> z < 256 \<Longrightarrow>
   (x mod 4 * 16 + y div 16) mod 16 * 16 + (y mod 16 * 4 + z div 64) div 4 = (y :: nat)"
  using less_mult_imp_div_less [of y 16 16] less_mult_imp_div_less [of z 4 64] by simp

lemma b64_join3: "z < 256 \<Longrightarrow> (y mod 16 * 4 + z div 64) mod 4 * 64 + z mod 64 = (z :: nat)"
  using less_mult_imp_div_less [of z 4 64] by simp

lemma unat_byte [simp]: "unat (b :: byte) < 256"
  using unsigned_less [of b, where 'a = nat] by simp

lemma b64_word2: "word_of_nat (unat b div 16 mod 16) * 16 + word_of_nat (unat b mod 16) = (b :: byte)"
proof -
  have "unat b div 16 mod 16 * 16 + unat b mod 16 = unat b"
    using less_mult_imp_div_less [of "unat b" 16 16] by simp
  then have "word_of_nat (unat b div 16 mod 16 * 16 + unat b mod 16) = b" by simp
  then show ?thesis by (simp only: of_nat_add of_nat_mult of_nat_numeral)
qed

lemma b64_groups_encode: "b64_groups (b64_encode bs) = Some bs"
proof (induction bs rule: b64_encode.induct)
  case (2 a)
  then show ?case
    using b64_index_bounds [of "unat a" 0 0] b64_join1 [of 0 "unat a"] b64_char_clean
    by (simp add: Let_def)
next
  case (3 a b)
  then show ?case
    using b64_index_bounds [of "unat a" "unat b" 0] b64_join1 [of "unat b" "unat a"]
      b64_join2 [of "unat b" 0 "unat a"] b64_char_clean
    by (simp add: Let_def)
next
  case (4 a b c r)
  then show ?case
    using b64_index_bounds [of "unat a" "unat b" "unat c"] b64_join1 [of "unat b" "unat a"]
      b64_join2 [of "unat b" "unat c" "unat a"] b64_join3 [of "unat c" "unat b"] b64_char_clean b64_word2 [of b]
    by (simp add: Let_def)
qed simp

lemma b64_encode_no_newline: "filter (\<lambda>c. c \<noteq> CHR 0x0A \<and> c \<noteq> CHR 0x0D) (b64_encode bs) = b64_encode bs"
proof (induction bs rule: b64_encode.induct)
  case (2 a)
  then show ?case
    using b64_index_bounds [of "unat a" 0 0] b64_char_clean by (simp add: Let_def)
next
  case (3 a b)
  then show ?case
    using b64_index_bounds [of "unat a" "unat b" 0] b64_char_clean by (simp add: Let_def)
next
  case (4 a b c r)
  then show ?case
    using b64_index_bounds [of "unat a" "unat b" "unat c"] b64_char_clean by (simp add: Let_def)
qed simp

lemma b64_decode_encode [simp]: "b64_decode (b64_encode bs) = Some bs"
  by (simp add: b64_decode_def b64_encode_no_newline b64_groups_encode)

lemma b64_encode_eq_Nil [simp]: "b64_encode bs = [] \<longleftrightarrow> bs = []"
  by (cases bs rule: b64_encode.cases) (simp_all add: Let_def)

subsection \<open>The AEAD contract and the stored amounts\<close>

text \<open>
  What the code relies on in a \<open>cipher.AEAD\<close>: opening a sealed text under the same nonce
  gives it back, and the overhead is the 16 byte tag that \<open>DecryptAES\<close> checks for.
\<close>

locale aead =
  fixes A :: AEAD
  assumes open_seal: "aead_Open A nonce (aead_Seal A nonce p) = Some p"
    and seal_length: "length (aead_Seal A nonce p) = length p + 16"
begin

lemma seal_text_decodes: "b64_decode (seal_text A nonce p) = Some (nonce @ aead_Seal A nonce p)"
  by (simp add: seal_text_def)

lemma open_sealed:
  "length nonce = 12 \<Longrightarrow> open_data A (nonce @ aead_Seal A nonce p) = Inr (string_of_bytes p)"
  by (simp add: open_data_def open_seal)

lemma sealed_long_enough:
  "length nonce = 12 \<Longrightarrow> 12 + 16 \<le> length (nonce @ aead_Seal A nonce p)"
  by (simp add: seal_length)

end

interpretation gcm: aead "cipher_NewGCM E" for E
  by unfold_locales (simp_all add: cipher_NewGCM_def)

lemma DecryptAES_EncryptAES:
  assumes "EncryptAES (Inr nonce) p key = Inr c" and "length nonce = 12"
  shows "DecryptAES c key = Inr (string_of_bytes p)"
proof -
  obtain block where block: "aes_NewCipher key = Some block"
    and c: "c = seal_text (cipher_NewGCM block) nonce p"
    using assms(1) by (auto simp: EncryptAES_def split: option.splits)
  have "\<not> length (nonce @ aead_Seal (cipher_NewGCM block) nonce p) < 12 + 16"
    using gcm.sealed_long_enough [OF assms(2), of block p] by (simp only: not_less)
  then show ?thesis
    using gcm.open_sealed [OF assms(2), of block p] by (simp add: DecryptAES_def c block gcm.seal_text_decodes)
qed

lemma EncryptAES_total:
  "length key = 32 \<Longrightarrow> \<exists>c. EncryptAES (Inr nonce) p key = Inr c"
  by (simp add: EncryptAES_def aes_NewCipher_def)

lemma EncryptAES_nonempty: "EncryptAES (Inr nonce) p key = Inr c \<Longrightarrow> c \<noteq> []"
  using arg_cong [OF length_gcm_Seal]
  by (auto simp: EncryptAES_def seal_text_def cipher_NewGCM_def split: option.splits)
    (metis add_is_0 length_gcm_Seal list.size(3) zero_neq_numeral)

lemma DecryptToFloat64_encrypted:
  assumes "EncryptAES (Inr nonce) (Float64ToByte x) key = Inr c" and "length nonce = 12"
  shows "DecryptToFloat64 c key = ToFloat64 (fmt_f 2 x)"
  using DecryptAES_EncryptAES [OF assms] EncryptAES_nonempty [OF assms(1)]
  by (simp add: DecryptToFloat64_def IsEmpty_def Float64ToByte_def)

text \<open>
  The contract offered to the services: \<open>store\<close> turns an amount into stored text (with a
  nonce), \<open>load\<close> reads it back, and whole cents come back exactly.
\<close>

locale amount_store =
  fixes key_ok :: "byte list \<Rightarrow> bool"
    and store :: "byte list \<Rightarrow> byte list \<Rightarrow> float64 \<Rightarrow> string result"
    and load :: "byte list \<Rightarrow> string \<Rightarrow> float64 result"
  assumes store_total: "key_ok key \<Longrightarrow> \<exists>c. store key nonce x = Inr c"
    and load_store: "length nonce = 12 \<Longrightarrow> store key nonce x = Inr c \<Longrightarrow>
      load key c = ToFloat64 (fmt_f 2 x)"
begin

lemma load_dollars:
  assumes "length nonce = 12" "store key nonce (dollars c) = Inr t" "cents_ok c"
  shows "load key t = Inr (dollars c)"
  using load_store [OF assms(1,2)] dollars_round_trip [OF assms(3)] by (simp add: ToFloat64_def)

text \<open>Storing the float difference of two amounts stores the exact difference in cents.\<close>

lemma load_difference:
  assumes "length nonce = 12" "store key nonce (f64_sub (dollars b) (dollars a)) = Inr t"
    and "cents_ok a" "cents_ok b" "a \<le> b"
  shows "load key t = Inr (dollars (b - a))"
proof -
  have "cents_ok (b - a)" using assms(4) by (simp add: cents_ok_def)
  then show ?thesis
    using load_store [OF assms(1,2)] fmt_dollars_sub [OF assms(3-5)] parse_money_text [of "b - a"]
    by (simp add: ToFloat64_def)
qed

end

interpretation aes_store: amount_store "\<lambda>key. length key = 32"
    "\<lambda>key nonce x. EncryptAES (Inr nonce) (Float64ToByte x) key" "\<lambda>key c. DecryptToFloat64 c key"
  by unfold_locales (auto intro: EncryptAES_total DecryptToFloat64_encrypted)

text \<open>\<open>DecodeString\<close> only returns keys that are good for this store.\<close>

lemma DecodeString_length: "DecodeString s = Inr key \<Longrightarrow> length key = 32"
  by (auto simp: DecodeString_def split: option.splits if_splits)

text \<open>
  Property C24. Round trips of the encryption layer, for every 32 byte key and every nonce: the key
  survives its base64 form in the configuration; any plaintext, however long, can be encrypted to a
  non-empty text from which \<open>DecryptAES\<close> recovers it; and every amount of whole cents comes back
  from its stored text as the same float64.
\<close>

theorem encryption_round_trip:
  assumes "length key = 32" "length nonce = 12" "cents_ok n"
  shows "DecodeString (b64_encode key) = Inr key \<and>
     (\<exists>c. EncryptAES (Inr nonce) p key = Inr c \<and> c \<noteq> [] \<and> DecryptAES c key = Inr (string_of_bytes p)) \<and>
     (\<exists>c. EncryptAES (Inr nonce) (Float64ToByte (dollars n)) key = Inr c \<and> DecryptToFloat64 c key = Inr (dollars n))"
proof (intro conjI)
  show "DecodeString (b64_encode key) = Inr key" using assms(1) by (simp add: DecodeString_def)
  obtain c where "EncryptAES (Inr nonce) p key = Inr c" using EncryptAES_total [OF assms(1)] by blast
  then show "\<exists>c. EncryptAES (Inr nonce) p key = Inr c \<and> c \<noteq> [] \<and> DecryptAES c key = Inr (string_of_bytes p)"
    using EncryptAES_nonempty DecryptAES_EncryptAES [OF _ assms(2)] by blast
  obtain d where "EncryptAES (Inr nonce) (Float64ToByte (dollars n)) key = Inr d"
    using aes_store.store_total [OF assms(1)] by blast
  then show "\<exists>c. EncryptAES (Inr nonce) (Float64ToByte (dollars n)) key = Inr c \<and> DecryptToFloat64 c key = Inr (dollars n)"
    using aes_store.load_dollars [OF assms(2) _ assms(3)] by blast
qed

theorem encryption_round_trip_witness:
  "DecodeString (b64_encode (replicate 32 7)) = Inr (replicate 32 7) \<and>
   (\<exists>c. EncryptAES (Inr (replicate 12 1)) (bytes_of_string ''hello'') (replicate 32 7) = Inr c \<and> c \<noteq> [] \<and>
      DecryptAES c (replicate 32 7) = Inr ''hello'') \<and>
   (\<exists>c. EncryptAES (Inr (replicate 12 1)) (Float64ToByte (dollars 1999)) (replicate 32 7) = Inr c \<and>
      DecryptToFloat64 c (replicate 32 7) = Inr (dollars 1999))"
  using encryption_round_trip [of "replicate 32 7" "replicate 12 1" 1999 "bytes_of_string ''hello''"]
  by (simp add: cents_ok_def)

end
