(* ===== verification/Backoff.thy ===== *)
theory Backoff
  imports Prelude
begin

text \<open>
  \<open>pkg/utils/backoff.go\<close>: the exponential backoff of the retry handler, on int64
  nanoseconds with Go's wrap-around. \<open>rand.Int63n\<close> is the argument \<open>int63n\<close> and panics on
  a bound that is not positive, which is the result \<open>None\<close>. Converting a float64 power
  that does not fit int64 is left to the implementation by the Go specification: its value
  is the argument \<open>conv\<close>.
\<close>

definition pow2_duration :: "int \<Rightarrow> int \<Rightarrow> int" where
  "pow2_duration conv k = (if k < 63 then 2 ^ nat k else conv)"

definition CalculateExponentialBackoffWithJitter ::
  "int \<Rightarrow> (int \<Rightarrow> int) \<Rightarrow> int \<Rightarrow> duration \<Rightarrow> duration \<Rightarrow> duration option" where
  "CalculateExponentialBackoffWithJitter conv int63n count base max_delay =
     (if count \<le> 0 then Some 0
      else
        let baseDelay = wrap64 (base * pow2_duration conv (count - 1));
            n = go_div baseDelay 4
        in if n \<le> 0 then None
           else
             let jitter = wrap64 (int63n n - go_div baseDelay 8);
                 delay = wrap64 (baseDelay + jitter)
             in Some (if max_delay < delay then max_delay else delay))"

text \<open>What the documentation of \<open>rand.Int63n\<close> promises.\<close>

definition int63n_ok :: "(int \<Rightarrow> int) \<Rightarrow> bool" where
  "int63n_ok f \<longleftrightarrow> (\<forall>n > 0. 0 \<le> f n \<and> f n < n)"

text \<open>The delay before jitter, as a mathematical integer.\<close>

definition exact_delay :: "int \<Rightarrow> duration \<Rightarrow> int" where
  "exact_delay count base = base * 2 ^ nat (count - 1)"

lemma base_delay_exact:
  assumes "1 \<le> count" "count \<le> 63" "0 \<le> base" "exact_delay count base < 2 ^ 62"
  shows "wrap64 (base * pow2_duration conv (count - 1)) = exact_delay count base"
proof -
  have "0 \<le> exact_delay count base" using assms(3) by (simp add: exact_delay_def)
  with assms(4) have "int64_ok (exact_delay count base)" by (simp add: int64_ok_def)
  then show ?thesis using assms(1,2) by (simp add: pow2_duration_def exact_delay_def)
qed

text \<open>The jittered delay for a base delay \<open>d\<close> that fits: between 7/8 and 9/8 of it.\<close>

lemma jitter_bounds:
  assumes "4 \<le> d" "d < 2 ^ 62" "0 \<le> r" "r < d div 4"
  shows "wrap64 (d + wrap64 (r - go_div d 8)) = d + r - d div 8"
    and "d - d div 8 \<le> d + r - d div 8" and "d + r - d div 8 \<le> d + d div 8"
proof -
  have "go_div d 8 = d div 8" using assms(1) by (simp add: go_div_nonneg)
  moreover have "int64_ok (r - d div 8)" "int64_ok (d + (r - d div 8))"
    using assms by (simp_all add: int64_ok_def) linarith+
  ultimately show "wrap64 (d + wrap64 (r - go_div d 8)) = d + r - d div 8" by simp
  show "d - d div 8 \<le> d + r - d div 8" using assms(3) by simp
  have "d div 4 - 1 \<le> d div 8 + d div 8" by linarith
  then show "d + r - d div 8 \<le> d + d div 8" using assms(4) by linarith
qed

lemma backoff_eq:
  assumes "int63n_ok f" "1 \<le> count" "count \<le> 63" "0 \<le> base"
    and "4 \<le> exact_delay count base" "exact_delay count base < 2 ^ 62"
  shows "CalculateExponentialBackoffWithJitter conv f count base m =
    Some (min m (exact_delay count base + f (exact_delay count base div 4) - exact_delay count base div 8))"
proof -
  let ?d = "exact_delay count base"
  have pos: "0 < ?d div 4" using assms(5) by linarith
  then have r: "0 \<le> f (?d div 4)" "f (?d div 4) < ?d div 4"
    using assms(1) by (auto simp: int63n_ok_def)
  show ?thesis
    using base_delay_exact [OF assms(2,3,4,6), of conv] pos jitter_bounds(1) [OF assms(5,6) r]
      assms(2,5) by (simp add: CalculateExponentialBackoffWithJitter_def Let_def go_div_nonneg min_def)
qed

text \<open>
  Property C35. For a retry count from 1 to 63 and a base of at least 4 ns whose doubled
  value stays below 2^62 ns, the backoff does not panic, never exceeds the cap, and
  otherwise lies within one eighth of \<open>base * 2^(count-1)\<close>.
\<close>

theorem backoff_bounds:
  assumes "int63n_ok f" "1 \<le> count" "count \<le> 63" "4 \<le> base"
    and "exact_delay count base < 2 ^ 62"
  shows "\<exists>d. CalculateExponentialBackoffWithJitter conv f count base m = Some d \<and> d \<le> m \<and>
    (d = m \<or> exact_delay count base - exact_delay count base div 8 \<le> d \<and>
             d \<le> exact_delay count base + exact_delay count base div 8)"
proof -
  let ?d = "exact_delay count base"
  have "base * 1 \<le> base * 2 ^ nat (count - 1)" using assms(4) by (intro mult_left_mono) simp_all
  then have d: "4 \<le> ?d" unfolding exact_delay_def using assms(4) by linarith
  then have pos: "0 < ?d div 4" by linarith
  then have r: "0 \<le> f (?d div 4)" "f (?d div 4) < ?d div 4"
    using assms(1) by (auto simp: int63n_ok_def)
  show ?thesis
    using backoff_eq [OF assms(1-3) _ d assms(5), of conv m] assms(4)
      jitter_bounds(2,3) [OF d assms(5) r] by (auto simp: min_def)
qed

theorem backoff_bounds_witness:
  "int63n_ok (\<lambda>n. n div 2) \<and> exact_delay 3 30000000000 < 2 ^ 62 \<and>
   (\<exists>d. CalculateExponentialBackoffWithJitter 0 (\<lambda>n. n div 2) 3 30000000000 300000000000 = Some d \<and>
    d \<le> 300000000000 \<and>
    (d = 300000000000 \<or>
     exact_delay 3 30000000000 - exact_delay 3 30000000000 div 8 \<le> d \<and>
     d \<le> exact_delay 3 30000000000 + exact_delay 3 30000000000 div 8))"
proof -
  have f: "int63n_ok (\<lambda>n. n div 2)" by (simp add: int63n_ok_def) linarith
  have e: "exact_delay 3 30000000000 < 2 ^ 62" by (simp add: exact_delay_def)
  show ?thesis using f e backoff_bounds [OF f _ _ _ e, of 0 300000000000] by simp
qed

text \<open>
  The only panic is \<open>rand.Int63n\<close> on a bound that is not positive: the
  function fails exactly when the count is positive and a quarter of the (wrapped) base
  delay truncates to zero or below, so a base under 4 ns panics on the first retry.
\<close>

theorem backoff_panics_iff:
  "CalculateExponentialBackoffWithJitter conv f count base m = None \<longleftrightarrow>
     0 < count \<and> wrap64 (base * pow2_duration conv (count - 1)) < 4"
proof -
  have "go_div x 4 \<le> 0 \<longleftrightarrow> x < 4" for x :: int
    using go_div_nonneg [of x 4] go_div_nonpos [of x 4] by (cases "0 \<le> x") (simp_all, linarith)
  then show ?thesis
    by (auto simp: CalculateExponentialBackoffWithJitter_def Let_def)
qed

end
