(* ===== verification/Commit_Manager.thy ===== *)
theory Commit_Manager
  imports Errors "HOL-Library.FSet"
begin

text \<open>
  \<open>pkg/kafka/commit_manager.go\<close>: the offsets of messages processed out of order, and the
  commit of the longest run of them. \<open>cm_high\<close> is the Go map \<open>high\<close> (a missing key reads
  as 0) and \<open>cm_done\<close> the Go map \<open>done\<close> of offset sets. The broker's answer to
  \<open>consumer.CommitOffsets\<close> is an argument of \<open>Ack\<close>; the offset sent to it is a result.

  \<open>acks\<close> runs a sequence of acknowledgements. The specification is the set of acknowledged
  offsets: the manager's state is a function of it (\<open>cm_abs\<close>), so the order in which the
  goroutines finish does not matter. The section on the first offset shows what the zero
  value of \<open>high\<close> does to offset 0 and to a consumer that starts later.
\<close>

record tp =
  tp_topic :: string
  tp_partition :: int

record CommitManager =
  cm_high :: "tp \<Rightarrow> int"
  cm_done :: "tp \<Rightarrow> int fset"

definition NewCommitManager :: CommitManager where
  "NewCommitManager = \<lparr>cm_high = (\<lambda>_. 0), cm_done = (\<lambda>_. {||})\<rparr>"

text \<open>The loop: while the next offset is done, take it out and move on.\<close>

function advance :: "int \<Rightarrow> int fset \<Rightarrow> int \<times> int fset" where
  "advance nxt dn =
     (if wrap64 (nxt + 1) |\<in>| dn then advance (wrap64 (nxt + 1)) (dn |-| {|wrap64 (nxt + 1)|})
      else (nxt, dn))"
  by pat_completeness auto
termination
  by (relation "measure (\<lambda>(nxt, dn). fcard dn)") (simp_all only: wf_measure in_measure split_conv fcard_fminus1_less)

declare advance.simps [simp del]

text \<open>
  \<open>Ack\<close>: the new state and the commit request sent to the broker (the partition and the
  offset after the last processed one), if any. A failed commit leaves \<open>high\<close> alone, but the
  offsets the loop took out of \<open>done\<close> are gone.
\<close>

definition Ack :: "go_error option \<Rightarrow> tp \<Rightarrow> int \<Rightarrow> CommitManager \<Rightarrow> CommitManager \<times> (tp \<times> int) option" where
  "Ack commitErr key off m =
     (case advance (cm_high m key) (finsert off (cm_done m key)) of
        (nxt, dn) \<Rightarrow>
          let m' = m\<lparr>cm_done := (cm_done m)(key := dn)\<rparr>
          in if cm_high m key < nxt then
               (case commitErr of
                  Some err \<Rightarrow> (m', Some (key, wrap64 (nxt + 1)))
                | None \<Rightarrow> (m'\<lparr>cm_high := (cm_high m)(key := nxt)\<rparr>, Some (key, wrap64 (nxt + 1))))
             else (m', None))"

fun acks :: "(go_error option \<times> tp \<times> int) list \<Rightarrow> CommitManager \<Rightarrow> CommitManager \<times> (tp \<times> int) list" where
  "acks [] m = (m, [])"
| "acks ((e, key, off) # as) m =
     (case Ack e key off m of (m1, c) \<Rightarrow>
        case acks as m1 of (m2, cs) \<Rightarrow> (m2, (case c of None \<Rightarrow> [] | Some x \<Rightarrow> [x]) @ cs))"

subsection \<open>One acknowledgement\<close>

text \<open>Kafka offsets: non-negative, with room for the offset after them.\<close>

definition offset_ok :: "int \<Rightarrow> bool" where
  "offset_ok off \<longleftrightarrow> 0 \<le> off \<and> off < 2 ^ 63 - 1"

lemma wrap64_next [simp]: "offset_ok off \<Longrightarrow> wrap64 (off + 1) = off + 1"
  by (simp add: offset_ok_def int64_ok_def)

lemma advance_spec:
  assumes "offset_ok h" "\<forall>x |\<in>| D. offset_ok x"
  shows "h \<le> fst (advance h D) \<and> offset_ok (fst (advance h D)) \<and>
    {h + 1..fst (advance h D)} \<subseteq> fset D \<and> fst (advance h D) + 1 |\<notin>| D \<and>
    fset (snd (advance h D)) = fset D - {h + 1..fst (advance h D)}"
  using assms
proof (induction h D rule: advance.induct)
  case (1 h D)
  show ?case
  proof (cases "h + 1 |\<in>| D")
    case False
    with "1.prems" show ?thesis by (simp add: advance.simps [of h D])
  next
    case True
    define r where "r = advance (h + 1) (D |-| {|h + 1|})"
    have eq: "advance h D = r" using True "1.prems" by (simp add: advance.simps [of h D] r_def)
    have ih: "h + 1 \<le> fst r" "offset_ok (fst r)" "{h + 2..fst r} \<subseteq> fset (D |-| {|h + 1|})"
      "fst r + 1 |\<notin>| D |-| {|h + 1|}" "fset (snd r) = fset (D |-| {|h + 1|}) - {h + 2..fst r}"
      using "1.IH" True "1.prems" by (force simp: r_def add.commute [of 2])+
    have rng: "{h + 1..fst r} = insert (h + 1) {h + 2..fst r}" using ih(1) by auto
    have "fst r + 1 |\<notin>| D" using ih(1,4) by simp
    with ih True show ?thesis unfolding eq rng by auto
  qed
qed

text \<open>\<open>is_run A h\<close>: \<open>h\<close> is the end of the longest run 1, 2, \<dots> of acknowledged offsets.\<close>

definition is_run :: "int set \<Rightarrow> int \<Rightarrow> bool" where
  "is_run A h \<longleftrightarrow> 0 \<le> h \<and> {1..h} \<subseteq> A \<and> h + 1 \<notin> A"

lemma is_run_unique:
  assumes "is_run A h" "is_run A k"
  shows "h = k"
proof (rule ccontr)
  assume "h \<noteq> k"
  then consider "h + 1 \<in> {1..k}" | "k + 1 \<in> {1..h}" using assms by (force simp: is_run_def)
  then show False using assms unfolding is_run_def by cases blast+
qed

text \<open>
  The state of one partition for a set \<open>A\<close> of acknowledged offsets: \<open>high\<close> ends the run and
  \<open>done\<close> holds what lies beyond it.
\<close>

definition cm_abs :: "int set \<Rightarrow> int \<Rightarrow> int fset \<Rightarrow> bool" where
  "cm_abs A h D \<longleftrightarrow> is_run A h \<and> offset_ok h \<and> (\<forall>x |\<in>| D. offset_ok x) \<and> fset D \<subseteq> A \<and>
     (\<forall>x. h < x \<longrightarrow> (x |\<in>| D \<longleftrightarrow> x \<in> A))"

lemma cm_abs_new: "cm_abs {} 0 {||}"
  by (simp add: cm_abs_def is_run_def offset_ok_def)

lemma cm_abs_step:
  assumes "cm_abs A h D" "offset_ok off"
  defines "r \<equiv> advance h (finsert off D)"
  shows "cm_abs (insert off A) (fst r) (snd r)" and "h \<le> fst r"
proof -
  have ok: "offset_ok h" "\<forall>x |\<in>| finsert off D. offset_ok x"
    using assms(1,2) by (auto simp: cm_abs_def)
  note sp = advance_spec [OF ok, folded r_def]
  then show le: "h \<le> fst r" by simp
  have split: "{1..fst r} = {1..h} \<union> {h + 1..fst r}"
    using le assms(1) by (auto simp: cm_abs_def is_run_def)
  have "fset D \<subseteq> A" using assms(1) by (simp add: cm_abs_def)
  then have run: "{1..fst r} \<subseteq> insert off A"
    unfolding split using sp assms(1) by (auto simp: cm_abs_def is_run_def)
  have mem: "x |\<in>| finsert off D \<longleftrightarrow> x \<in> insert off A" if "h < x" for x
    using that assms(1) by (auto simp: cm_abs_def)
  have "fst r + 1 \<notin> insert off A" using mem [of "fst r + 1"] sp le by auto
  then show "cm_abs (insert off A) (fst r) (snd r)"
    unfolding cm_abs_def is_run_def
    using run sp ok(2) mem le assms(1) \<open>fset D \<subseteq> A\<close> by (auto simp: cm_abs_def is_run_def)
qed

lemma Ack_other:
  "k \<noteq> key \<Longrightarrow> cm_high (fst (Ack e key off m)) k = cm_high m k \<and>
    cm_done (fst (Ack e key off m)) k = cm_done m k"
  by (simp add: Ack_def Let_def split: prod.split option.split)

lemma Ack_same:
  assumes "cm_abs A (cm_high m key) (cm_done m key)" "offset_ok off"
  defines "m' \<equiv> fst (Ack None key off m)"
  shows "cm_abs (insert off A) (cm_high m' key) (cm_done m' key)"
    and "snd (Ack None key off m) = Some (k, c) \<Longrightarrow> k = key \<and> c = cm_high m' key + 1 \<and> cm_high m key < cm_high m' key"
    and "snd (Ack None key off m) = None \<Longrightarrow> cm_high m' key = cm_high m key"
proof -
  obtain n D where r: "advance (cm_high m key) (finsert off (cm_done m key)) = (n, D)" by fastforce
  note st = cm_abs_step [OF assms(1,2)]
  have ok: "offset_ok n" using st(1) r by (simp add: cm_abs_def)
  have eq: "Ack None key off m =
      (if cm_high m key < n then
         (m\<lparr>cm_done := (cm_done m)(key := D), cm_high := (cm_high m)(key := n)\<rparr>, Some (key, n + 1))
       else (m\<lparr>cm_done := (cm_done m)(key := D)\<rparr>, None))"
    using ok by (simp add: Ack_def r Let_def)
  show "cm_abs (insert off A) (cm_high m' key) (cm_done m' key)"
    using st r by (cases "cm_high m key < n") (simp_all add: m'_def eq)
  show "snd (Ack None key off m) = Some (k, c) \<Longrightarrow> k = key \<and> c = cm_high m' key + 1 \<and> cm_high m key < cm_high m' key"
    using eq by (cases "cm_high m key < n") (auto simp add: m'_def)
  show "snd (Ack None key off m) = None \<Longrightarrow> cm_high m' key = cm_high m key"
    by (cases "cm_high m key < n") (simp_all add: m'_def eq)
qed

subsection \<open>Sequences of acknowledgements\<close>

text \<open>The offsets of one partition that a sequence acknowledges.\<close>

definition acked :: "tp \<Rightarrow> (go_error option \<times> tp \<times> int) list \<Rightarrow> int set" where
  "acked key as = {off. \<exists>e. (e, key, off) \<in> set as}"

lemma acked_Nil [simp]: "acked key [] = {}"
  by (simp add: acked_def)

lemma acked_Cons: "acked key ((e, k, off) # as) = (if k = key then insert off (acked key as) else acked key as)"
  by (auto simp: acked_def)

text \<open>Every commit succeeds and every offset is one Kafka can hand out.\<close>

definition acks_fine :: "(go_error option \<times> tp \<times> int) list \<Rightarrow> bool" where
  "acks_fine as \<longleftrightarrow> (\<forall>(e, key, off) \<in> set as. e = None \<and> offset_ok off)"

lemma acks_fine_Cons: "acks_fine ((e, k, off) # as) \<longleftrightarrow> e = None \<and> offset_ok off \<and> acks_fine as"
  by (auto simp: acks_fine_def)

abbreviation cm_tracks :: "tp \<Rightarrow> int set \<Rightarrow> CommitManager \<Rightarrow> bool" where
  "cm_tracks key A m \<equiv> cm_abs A (cm_high m key) (cm_done m key)"

lemma cm_tracks_new: "cm_tracks key {} NewCommitManager"
  using cm_abs_new by (simp add: NewCommitManager_def)

lemma acks_tracks:
  assumes "acks_fine as" "cm_tracks key A m"
  shows "cm_tracks key (A \<union> acked key as) (fst (acks as m))"
  using assms
proof (induction as arbitrary: A m)
  case (Cons a as)
  obtain e k off where a: "a = (e, k, off)" by (cases a)
  obtain m1 c where r: "Ack e k off m = (m1, c)" by fastforce
  have fine: "e = None" "offset_ok off" "acks_fine as"
    using Cons.prems(1) by (simp_all add: a acks_fine_Cons)
  have "cm_tracks key (if k = key then insert off A else A) m1"
    using Ack_same(1) [of A m key off] Ack_other [of key k e off m] Cons.prems(2) fine r by auto
  from Cons.IH [OF fine(3) this] show ?case
    by (auto simp: a r acked_Cons split: prod.splits if_splits)
qed simp

lemma acks_commits:
  assumes "acks_fine as" "cm_tracks key A m" "(key, c) \<in> set (snd (acks as m))"
  shows "{1..<c} \<subseteq> A \<union> acked key as \<and> cm_high m key + 1 < c"
  using assms
proof (induction as arbitrary: A m)
  case (Cons a as)
  obtain e k off where a: "a = (e, k, off)" by (cases a)
  obtain m1 o1 where r: "Ack e k off m = (m1, o1)" by fastforce
  have fine: "e = None" "offset_ok off" "acks_fine as"
    using Cons.prems(1) by (simp_all add: a acks_fine_Cons)
  let ?A = "if k = key then insert off A else A"
  have tr: "cm_tracks key ?A m1"
    using Ack_same(1) [of A m key off] Ack_other [of key k e off m] Cons.prems(2) fine r by auto
  have grow: "cm_high m key \<le> cm_high m1 key"
    using Ack_same(2,3) [of A m key off] Ack_other [of key k e off m] Cons.prems(2) fine r
    by (cases o1; cases "k = key") fastforce+
  show ?case
  proof (cases "(key, c) \<in> set (snd (acks as m1))")
    case True
    from Cons.IH [OF fine(3) tr this] grow show ?thesis
      by (auto simp: a acked_Cons split: if_splits)
  next
    case False
    with Cons.prems(3) have o1: "o1 = Some (key, c)"
      by (auto simp: a r split: prod.splits option.splits)
    then have k: "k = key" using r by (auto simp: Ack_def Let_def split: prod.splits if_splits option.splits)
    then have "c = cm_high m1 key + 1 \<and> cm_high m key < cm_high m1 key"
      using Ack_same(2) [of A m key off key c] Cons.prems(2) fine r o1 by simp
    moreover have "{1..cm_high m1 key} \<subseteq> ?A" using tr by (simp add: cm_abs_def is_run_def)
    ultimately show ?thesis using k by (auto simp: a acked_Cons subset_iff)
  qed
qed simp

text \<open>
  Property C19. Started fresh, with every commit accepted, the manager's committed position
  of a partition is the end of the longest run of processed offsets 1, 2, \<dots>, whatever the
  order in which the worker goroutines finished.
\<close>

theorem commit_position_is_longest_run:
  assumes "acks_fine as"
  shows "is_run (acked key as) (cm_high (fst (acks as NewCommitManager)) key)"
proof -
  have "cm_tracks key {} NewCommitManager" by (rule cm_tracks_new)
  from acks_tracks [OF assms this] show ?thesis by (simp add: cm_abs_def)
qed

definition tp_example :: tp where
  "tp_example = \<lparr>tp_topic = ''orders-placed'', tp_partition = 0\<rparr>"

theorem commit_position_is_longest_run_witness:
  "acks_fine [(None, tp_example, 2), (None, tp_example, 1)] \<and>
   is_run (acked tp_example [(None, tp_example, 2), (None, tp_example, 1)])
     (cm_high (fst (acks [(None, tp_example, 2), (None, tp_example, 1)] NewCommitManager)) tp_example)"
proof -
  have "acks_fine [(None, tp_example, 2), (None, tp_example, 1)]"
    by (simp add: acks_fine_def offset_ok_def)
  then show ?thesis using commit_position_is_longest_run by blast
qed

text \<open>
  The order of acknowledgement is irrelevant: two sequences that acknowledge
  the same offsets of a partition leave it at the same committed position.
\<close>

theorem acks_order_irrelevant:
  assumes "acks_fine as" "acks_fine bs" "acked key as = acked key bs"
  shows "cm_high (fst (acks as NewCommitManager)) key = cm_high (fst (acks bs NewCommitManager)) key"
proof -
  have t: "cm_tracks key {} NewCommitManager" by (rule cm_tracks_new)
  have "is_run (acked key as) (cm_high (fst (acks as NewCommitManager)) key)"
    using acks_tracks [OF assms(1) t] by (simp add: cm_abs_def)
  moreover have "is_run (acked key as) (cm_high (fst (acks bs NewCommitManager)) key)"
    using acks_tracks [OF assms(2) t] assms(3) by (simp add: cm_abs_def)
  ultimately show ?thesis by (rule is_run_unique)
qed

theorem acks_order_irrelevant_witness:
  "acks_fine [(None, tp_example, 2), (None, tp_example, 1)] \<and>
   acks_fine [(None, tp_example, 1), (None, tp_example, 2)] \<and>
   cm_high (fst (acks [(None, tp_example, 2), (None, tp_example, 1)] NewCommitManager)) tp_example =
   cm_high (fst (acks [(None, tp_example, 1), (None, tp_example, 2)] NewCommitManager)) tp_example"
proof -
  have a: "acks_fine [(None, tp_example, 2), (None, tp_example, 1)]"
    and b: "acks_fine [(None, tp_example, 1), (None, tp_example, 2)]"
    by (simp_all add: acks_fine_def offset_ok_def)
  have "acked tp_example [(None, tp_example, 2), (None, tp_example, 1)] =
    acked tp_example [(None, tp_example, 1), (None, tp_example, 2)]"
    by (auto simp: acked_Cons)
  from a b acks_order_irrelevant [OF a b this] show ?thesis by blast
qed

text \<open>
  A commit never runs ahead of processing: if offset \<open>c\<close> is committed, every
  offset from 1 up to \<open>c - 1\<close> has been acknowledged. (Offset 0 is the exception below.)
\<close>

theorem commits_only_processed:
  assumes "acks_fine as" "(key, c) \<in> set (snd (acks as NewCommitManager))"
  shows "{1..<c} \<subseteq> acked key as"
proof -
  have "cm_tracks key {} NewCommitManager" by (rule cm_tracks_new)
  from acks_commits [OF assms(1) this assms(2)] show ?thesis by simp
qed

lemma advance_eval: "offset_ok h \<Longrightarrow> advance h D = (if h + 1 |\<in>| D then advance (h + 1) (D |-| {|h + 1|}) else (h, D))"
  by (simp add: advance.simps [of h D])

lemma commit_example:
  "snd (acks [(None, tp_example, 2), (None, tp_example, 1)] NewCommitManager) = [(tp_example, 3)]"
  by (simp add: NewCommitManager_def Ack_def advance_eval offset_ok_def wrap64_def)

theorem commits_only_processed_witness:
  "acks_fine [(None, tp_example, 2), (None, tp_example, 1)] \<and>
   (tp_example, 3) \<in> set (snd (acks [(None, tp_example, 2), (None, tp_example, 1)] NewCommitManager)) \<and>
   {1..<3} \<subseteq> acked tp_example [(None, tp_example, 2), (None, tp_example, 1)]"
proof -
  have a: "acks_fine [(None, tp_example, 2), (None, tp_example, 1)]"
    by (simp add: acks_fine_def offset_ok_def)
  have b: "(tp_example, 3) \<in> set (snd (acks [(None, tp_example, 2), (None, tp_example, 1)] NewCommitManager))"
    by (simp only: commit_example list.set insertI1)
  from a b commits_only_processed [OF a b] show ?thesis by blast
qed

subsection \<open>The first offset\<close>

lemma advance_stuck: "wrap64 (h + 1) |\<notin>| D \<Longrightarrow> advance h D = (h, D)"
  by (simp add: advance.simps [of h D])

text \<open>A partition is stuck when the offset after \<open>high\<close> is not done and is not acknowledged again.\<close>

lemma acks_stuck:
  assumes "\<forall>(e, k, off) \<in> set as. k = key \<longrightarrow> off \<noteq> wrap64 (cm_high m key + 1)"
    and "wrap64 (cm_high m key + 1) |\<notin>| cm_done m key"
  shows "(key, c) \<notin> set (snd (acks as m)) \<and> cm_high (fst (acks as m)) key = cm_high m key"
  using assms
proof (induction as arbitrary: m)
  case (Cons a as)
  obtain e k off where a: "a = (e, k, off)" by (cases a)
  obtain m1 o1 where r: "Ack e k off m = (m1, o1)" by fastforce
  have "cm_high m1 key = cm_high m key \<and> wrap64 (cm_high m key + 1) |\<notin>| cm_done m1 key \<and>
      (\<forall>x. o1 = Some x \<longrightarrow> fst x \<noteq> key)"
  proof (cases "k = key")
    case True
    then have "off \<noteq> wrap64 (cm_high m key + 1)" using Cons.prems(1) by (simp add: a)
    with Cons.prems(2) have "advance (cm_high m key) (finsert off (cm_done m key)) =
        (cm_high m key, finsert off (cm_done m key))"
      by (intro advance_stuck) auto
    with r True Cons.prems(2) \<open>off \<noteq> _\<close> show ?thesis by (auto simp: Ack_def)
  next
    case False
    moreover have "o1 = Some x \<Longrightarrow> fst x = k" for x
      using r by (auto simp: Ack_def Let_def split: prod.splits if_splits option.splits)
    ultimately show ?thesis using Ack_other [of key k e off m] Cons.prems(2) r by auto
  qed
  with Cons.IH [of m1] Cons.prems(1) show ?case
    by (fastforce simp: a r split: prod.splits option.splits)
qed simp

text \<open>
  A partition whose messages all have offsets of 2 or more (a consumer group
  that resumes later in the log) is never committed: \<open>high\<close> starts at its zero value and
  the run from 1 never begins, so the position is lost at the next restart.
\<close>

theorem late_start_never_commits:
  assumes "\<forall>(e, k, off) \<in> set as. 2 \<le> off"
  shows "snd (acks as NewCommitManager) = []"
proof -
  have w: "wrap64 (0 + 1) = 1" by (simp add: int64_ok_def)
  have "(key, c) \<notin> set (snd (acks as NewCommitManager))" for key c
    using acks_stuck [of as key NewCommitManager c] assms w by (force simp: NewCommitManager_def)
  then show ?thesis by (metis list.set_intros(1) neq_Nil_conv surj_pair)
qed

theorem late_start_never_commits_witness:
  "snd (acks [(None, tp_example, 7), (None, tp_example, 8)] NewCommitManager) = []"
proof -
  have a: "\<forall>(e, k, off) \<in> set [(None :: go_error option, tp_example, 7 :: int), (None, tp_example, 8)]. 2 \<le> off"
    by simp
  from late_start_never_commits [OF a] show ?thesis by blast
qed

text \<open>
  After a commit the broker refused, the partition stays where it is for good:
  the offsets taken out of \<open>done\<close> are not put back, so no later acknowledgement of another
  offset of that partition leads to a commit.
\<close>

theorem failed_commit_is_final:
  assumes "Ack (Some err) key off m = (m', Some (key, c))"
    and "cm_tracks key A m" "offset_ok off"
    and "\<forall>(e, k, o') \<in> set as. k = key \<longrightarrow> o' \<noteq> cm_high m key + 1"
  shows "(key, d) \<notin> set (snd (acks as m')) \<and> cm_high (fst (acks as m')) key = cm_high m key"
proof -
  obtain n D where r: "advance (cm_high m key) (finsert off (cm_done m key)) = (n, D)" by fastforce
  have ok: "offset_ok (cm_high m key)" "\<forall>x |\<in>| finsert off (cm_done m key). offset_ok x"
    using assms(2,3) by (auto simp: cm_abs_def)
  note sp = advance_spec [OF ok, unfolded r]
  have "cm_high m key < n" and m': "m' = m\<lparr>cm_done := (cm_done m)(key := D)\<rparr>"
    using assms(1) r by (auto simp: Ack_def Let_def split: if_splits)
  then have "cm_high m key + 1 |\<notin>| D" using sp by auto
  with acks_stuck [of as key m' d] assms(4) ok(1) m' show ?thesis by simp
qed

theorem failed_commit_is_final_witness:
  "Ack (Some RedisNil) tp_example 1 NewCommitManager = (NewCommitManager, Some (tp_example, 2)) \<and>
   (tp_example, 4) \<notin> set (snd (acks [(None, tp_example, 2), (None, tp_example, 3)] NewCommitManager))"
proof -
  have a: "Ack (Some RedisNil) tp_example 1 NewCommitManager = (NewCommitManager, Some (tp_example, 2))"
    by (simp add: NewCommitManager_def Ack_def advance_eval offset_ok_def wrap64_def fun_eq_iff)
  have b: "cm_tracks tp_example {} NewCommitManager" by (rule cm_tracks_new)
  have c: "offset_ok 1" by (simp add: offset_ok_def)
  have d: "\<forall>(e, k, o') \<in> set [(None, tp_example, 2), (None, tp_example, 3)].
      k = tp_example \<longrightarrow> o' \<noteq> cm_high NewCommitManager tp_example + 1"
    by (simp add: NewCommitManager_def)
  from a failed_commit_is_final [OF a b c d, of 4] show ?thesis by blast
qed

text \<open>
  Offset 0 is outside the guarantee: acknowledging offset 1 alone commits
  position 2, so the first message of a partition is skipped if the worker stops before
  it is processed; acknowledging offset 0 alone commits nothing.
\<close>

theorem offset_zero_not_tracked:
  "snd (acks [(None, key, 1)] NewCommitManager) = [(key, 2)] \<and>
   0 \<notin> acked key [(None, key, 1)] \<and>
   snd (acks [(None, key, 0)] NewCommitManager) = []"
  by (simp add: NewCommitManager_def Ack_def advance_eval offset_ok_def wrap64_def acked_Cons)

end
