(* ===== verification/Models.thy ===== *)
theory Models
  imports Errors
begin

text \<open>
  The data the services exchange: \<open>pkg/const.go\<close>, \<open>pkg/models\<close> (the rows of the tables) and
  \<open>pkg/dtos\<close> (the Kafka payload and the exported training set). Fields carry the prefix of
  their struct. A \<open>time.Time\<close> is its number of nanoseconds since the Unix epoch; its zero
  value is the start of year 1. \<open>uuid.UUID.String\<close> is code of a third-party package and is
  an argument where it is used.
\<close>

definition time_zero :: time where
  "time_zero = - 62135596800 * 10 ^ 9"

datatype OrderStatus = OrderStatusPending | OrderStatusSuccess | OrderStatusRetrying | OrderStatusFailed

fun OrderStatus_text :: "OrderStatus \<Rightarrow> string" where
  "OrderStatus_text OrderStatusPending = ''pending''"
| "OrderStatus_text OrderStatusSuccess = ''success''"
| "OrderStatus_text OrderStatusRetrying = ''retrying''"
| "OrderStatus_text OrderStatusFailed = ''failed''"

record PaymentJob =
  pj_ID :: uuid
  pj_UserID :: uuid
  pj_AccountID :: uuid
  pj_IdempotencyKey :: uuid
  pj_Amount :: string
  pj_RetryCount :: int
  pj_NextRetryTime :: time
  pj_CreatedAt :: time
  pj_UpdatedAt :: time

definition PaymentJob_zero :: PaymentJob where
  "PaymentJob_zero = \<lparr>pj_ID = 0, pj_UserID = 0, pj_AccountID = 0, pj_IdempotencyKey = 0, pj_Amount = [],
     pj_RetryCount = 0, pj_NextRetryTime = time_zero, pj_CreatedAt = time_zero, pj_UpdatedAt = time_zero\<rparr>"

text \<open>
  The \<open>validate\<close> tags of \<open>PaymentJob\<close>: \<open>required\<close> fields are not their zero value, the
  retry count is at least 0. (The tag \<open>uuid\<close> adds nothing on a field of type \<open>uuid.UUID\<close>.)
\<close>

definition PaymentJob_tags :: "PaymentJob \<Rightarrow> bool" where
  "PaymentJob_tags job \<longleftrightarrow>
     pj_ID job \<noteq> uuid_Nil \<and> pj_UserID job \<noteq> uuid_Nil \<and> pj_AccountID job \<noteq> uuid_Nil \<and>
     pj_IdempotencyKey job \<noteq> uuid_Nil \<and> pj_Amount job \<noteq> [] \<and> 0 \<le> pj_RetryCount job \<and>
     pj_CreatedAt job \<noteq> time_zero \<and> pj_UpdatedAt job \<noteq> time_zero"

record Order =
  or_ID :: uuid
  or_UserID :: uuid
  or_AccountID :: uuid
  or_IdempotencyKey :: uuid
  or_Amount :: string
  or_Currency :: string
  or_Status :: OrderStatus
  or_Message :: string
  or_CreatedAt :: time
  or_UpdatedAt :: time

definition ToPaymentJob :: "Order \<Rightarrow> PaymentJob" where
  "ToPaymentJob o' = \<lparr>pj_ID = or_ID o', pj_UserID = or_UserID o', pj_AccountID = or_AccountID o',
     pj_IdempotencyKey = or_IdempotencyKey o', pj_Amount = or_Amount o', pj_RetryCount = 0,
     pj_NextRetryTime = time_zero, pj_CreatedAt = or_CreatedAt o', pj_UpdatedAt = or_UpdatedAt o'\<rparr>"

record Account =
  ac_ID :: uuid
  ac_UserID :: uuid
  ac_Balance :: string
  ac_Currency :: string
  ac_OrderCount :: int
  ac_AvgOrderAmount :: string
  ac_CreatedAt :: time
  ac_UpdatedAt :: time

definition Account_zero :: Account where
  "Account_zero = \<lparr>ac_ID = 0, ac_UserID = 0, ac_Balance = [], ac_Currency = [], ac_OrderCount = 0,
     ac_AvgOrderAmount = [], ac_CreatedAt = time_zero, ac_UpdatedAt = time_zero\<rparr>"

record User =
  us_ID :: uuid
  us_Username :: string
  us_CreatedAt :: time
  us_UpdatedAt :: time

record OrderAIModel =
  ai_ID :: uuid
  ai_UserID :: uuid
  ai_AccountID :: uuid
  ai_IdempotencyKey :: uuid
  ai_Amount :: float64
  ai_Currency :: string
  ai_IsFraud :: bool
  ai_TransactionVelocity :: int
  ai_AmountDeviation :: float64
  ai_CreatedAt :: time
  ai_UpdatedAt :: time

record OrderAIDto =
  ad_ID :: string
  ad_UserID :: string
  ad_AccountID :: string
  ad_IdempotencyKey :: string
  ad_Amount :: float64
  ad_Currency :: string
  ad_IsFraud :: bool
  ad_TransactionVelocity :: int
  ad_AmountDeviation :: float64
  ad_CreatedAt :: time
  ad_UpdatedAt :: time

record OrderResult =
  res_Orders :: "OrderAIDto list"
  res_Count :: int
  res_CreatedAt :: time

definition ToOrderAIDto :: "(uuid \<Rightarrow> string) \<Rightarrow> OrderAIModel \<Rightarrow> OrderAIDto" where
  "ToOrderAIDto uuid_string o' = \<lparr>ad_ID = uuid_string (ai_ID o'), ad_UserID = uuid_string (ai_UserID o'),
     ad_AccountID = uuid_string (ai_AccountID o'), ad_IdempotencyKey = uuid_string (ai_IdempotencyKey o'),
     ad_Amount = ai_Amount o', ad_Currency = ai_Currency o', ad_IsFraud = ai_IsFraud o',
     ad_TransactionVelocity = ai_TransactionVelocity o', ad_AmountDeviation = ai_AmountDeviation o',
     ad_CreatedAt = ai_CreatedAt o', ad_UpdatedAt = ai_UpdatedAt o'\<rparr>"

text \<open>The job of a complete order passes the validation of the worker.\<close>

lemma ToPaymentJob_tags:
  assumes "or_ID o' \<noteq> uuid_Nil" "or_UserID o' \<noteq> uuid_Nil" "or_AccountID o' \<noteq> uuid_Nil"
    and "or_IdempotencyKey o' \<noteq> uuid_Nil" "or_Amount o' \<noteq> []"
    and "or_CreatedAt o' \<noteq> time_zero" "or_UpdatedAt o' \<noteq> time_zero"
  shows "PaymentJob_tags (ToPaymentJob o')"
  using assms by (simp add: PaymentJob_tags_def ToPaymentJob_def)

end
