(* ===== verification/Repositories.thy ===== *)
theory Repositories
  imports Models "HOL-Library.Multiset"
begin

text \<open>
  \<open>pkg/repositories\<close> over the schema of \<open>pkg/database/migrations/0001_create_tables.up.sql\<close>:
  one function per SQL statement of the code, on the tables as lists of rows. None of the queries
  that select many rows has an \<open>ORDER BY\<close>: the order in which PostgreSQL returns the rows is an
  argument of each call (\<open>row_order\<close>), a rearrangement of them and nothing more. A statement answers with an error or the new tables and the number of affected
  rows. The generated primary key of an inserted row (\<open>gen_random_uuid()\<close>) and the clock are
  arguments. A constraint violation is the SQLSTATE the error mapping looks at; its text is
  not modelled beyond that. An \<open>int\<close> that does not fit the column's \<open>integer\<close> is refused by
  the driver before anything is sent, so that error is no error of the server.

  \<open>DB\<close>, \<open>Tx\<close> and their operations are \<open>pkg/database/db.go\<close>: writes go to the primary inside
  a transaction, reads to a reader pool that may be a replica, so a read does not see the
  open transaction and may be older than the primary. A statement that fails
  on the server aborts its transaction: later statements fail and the commit rolls back. A fault
  of the connection at a statement or at the commit is an argument.
\<close>

record Tables =
  t_users :: "User list"
  t_accounts :: "Account list"
  t_orders :: "Order list"
  t_ai :: "OrderAIModel list"

definition pg_error :: "string \<Rightarrow> go_error" where
  "pg_error code = PgErr \<lparr>pg_Code = code, pg_Text = code\<rparr>"

text \<open>The foreign key (account_id, user_id) of \<open>orders\<close> and \<open>orders_ai_dataset\<close>.\<close>

definition account_exists :: "Tables \<Rightarrow> uuid \<Rightarrow> uuid \<Rightarrow> bool" where
  "account_exists t acc user \<longleftrightarrow> (\<exists>a \<in> set (t_accounts t). ac_ID a = acc \<and> ac_UserID a = user)"

subsection \<open>Orders\<close>

text \<open>
  \<open>Create\<close> inserts neither the id nor the currency of the order: both get the default of
  their column.
\<close>

definition OrderRepo_Create :: "uuid \<Rightarrow> Order \<Rightarrow> Tables \<Rightarrow> (Tables \<times> int) result" where
  "OrderRepo_Create gen_id order t =
     (if gen_id \<in> or_ID ` set (t_orders t) then Inr (t, 0)
      else if \<not> account_exists t (or_AccountID order) (or_UserID order) then Inl (pg_error ''23503'')
      else Inr (t\<lparr>t_orders := t_orders t @ [order\<lparr>or_ID := gen_id, or_Currency := ''CAD'', or_Message := []\<rparr>]\<rparr>, 1))"

definition FindByIdempotencyKey :: "go_error option \<Rightarrow> uuid \<Rightarrow> Tables \<Rightarrow> bool result" where
  "FindByIdempotencyKey fault key t =
     (if key = uuid_Nil then Inl (ErrorString ''idempotency key cannot be nil'')
      else case fault of Some err \<Rightarrow> Inl err
           | None \<Rightarrow> Inr (\<exists>o' \<in> set (t_orders t). or_IdempotencyKey o' = key))"

text \<open>
  The \<open>UPDATE orders\<close> of both status methods: every row with the key is rewritten; the column's
  length is checked when there is a row to write.
\<close>

definition UpdateStatus :: "time \<Rightarrow> uuid \<Rightarrow> OrderStatus \<Rightarrow> string \<Rightarrow> Tables \<Rightarrow> (Tables \<times> int) result" where
  "UpdateStatus now key status message t =
     (if 200 < length message \<and> (\<exists>o' \<in> set (t_orders t). or_IdempotencyKey o' = key) then Inl (pg_error ''22001'')
      else Inr (t\<lparr>t_orders := map (\<lambda>o'. if or_IdempotencyKey o' = key
                then o'\<lparr>or_Status := status, or_Message := message, or_UpdatedAt := now\<rparr> else o') (t_orders t)\<rparr>,
            int (length (filter (\<lambda>o'. or_IdempotencyKey o' = key) (t_orders t)))))"

definition int4_ok :: "int \<Rightarrow> bool" where
  "int4_ok i \<longleftrightarrow> - (2 ^ 31) \<le> i \<and> i < 2 ^ 31"

definition ErrInt4 :: go_error where
  "ErrInt4 = LibError ''value out of range for int4''"

text \<open>
  The column \<open>amount_deviation\<close> is \<open>numeric(10, 2)\<close>: \<open>numeric\<close> is the server's conversion of a
  float to it and back, an argument, with no result when the value does not fit.
\<close>

definition CreateAiDataset ::
  "(float64 \<Rightarrow> float64 option) \<Rightarrow> uuid \<Rightarrow> OrderAIModel \<Rightarrow> Tables \<Rightarrow> (Tables \<times> int) result" where
  "CreateAiDataset numeric gen_id order t =
     (if \<not> int4_ok (ai_TransactionVelocity order) then Inl ErrInt4
      else case numeric (ai_AmountDeviation order) of
        None \<Rightarrow> Inl (pg_error ''22003'')
      | Some dev \<Rightarrow>
          if gen_id \<in> ai_ID ` set (t_ai t) then Inr (t, 0)
          else if \<not> account_exists t (ai_AccountID order) (ai_UserID order) then Inl (pg_error ''23503'')
          else Inr (t\<lparr>t_ai := t_ai t @ [order\<lparr>ai_ID := gen_id, ai_Currency := ''CAD'', ai_AmountDeviation := dev\<rparr>]\<rparr>, 1))"

text \<open>\<open>LIMIT\<close> and \<open>OFFSET\<close>: negative values are errors of the server.\<close>

definition page_rows :: "int \<Rightarrow> int \<Rightarrow> 'a list \<Rightarrow> 'a list result" where
  "page_rows limit offset rows =
     (if limit < 0 then Inl (pg_error ''2201W'') else if offset < 0 then Inl (pg_error ''2201X'')
      else Inr (take (nat limit) (drop (nat offset) rows)))"

text \<open>The order of the rows of a query without \<open>ORDER BY\<close>: some rearrangement, chosen anew for each query.\<close>

type_synonym 'a row_order = "'a list \<Rightarrow> 'a list"

definition row_order :: "'a row_order \<Rightarrow> bool" where
  "row_order ord \<longleftrightarrow> (\<forall>rows. mset (ord rows) = mset rows)"

lemma row_order_simps:
  "row_order ord \<Longrightarrow> length (ord rows) = length rows" "row_order ord \<Longrightarrow> set (ord rows) = set rows"
  by (metis row_order_def size_mset) (metis row_order_def set_mset_mset)

lemma row_order_id [simp]: "row_order (\<lambda>rows. rows)" "row_order rev"
  by (simp_all add: row_order_def)

text \<open>
  \<open>GetAllAiDataset\<close> never asks \<open>rows.Err()\<close>, where the driver reports what goes wrong while the rows
  arrive: the error of a bad page, and a connection lost after \<open>lost\<close> rows. What was read until then
  is returned as the page.
\<close>

definition GetAllAiDataset ::
  "OrderAIModel row_order \<Rightarrow> go_error option \<Rightarrow> nat option \<Rightarrow> int \<Rightarrow> int \<Rightarrow> Tables \<Rightarrow> OrderAIModel list result" where
  "GetAllAiDataset ord fault lost pageNumber pageSize t =
     (let offset = wrap64 (wrap64 (pageNumber - 1) * pageSize)
      in case fault of
           Some err \<Rightarrow> Inl err
         | None \<Rightarrow>
             (case page_rows pageSize offset (ord (t_ai t)) of
                Inl err \<Rightarrow> Inr []
              | Inr rows \<Rightarrow> Inr (case lost of None \<Rightarrow> rows | Some k \<Rightarrow> take k rows)))"

subsection \<open>Accounts and users\<close>

definition AccountRepo_Create :: "Account \<Rightarrow> Tables \<Rightarrow> (Tables \<times> int) result" where
  "AccountRepo_Create account t =
     (if 3 < length (ac_Currency account) then Inl (pg_error ''22001'')
      else if \<exists>a \<in> set (t_accounts t). ac_ID a = ac_ID account \<and> ac_UserID a = ac_UserID account then Inr (t, 0)
      else if ac_UserID account \<notin> us_ID ` set (t_users t) then Inl (pg_error ''23503'')
      else Inr (t\<lparr>t_accounts := t_accounts t @ [account\<lparr>ac_OrderCount := 0, ac_AvgOrderAmount := []\<rparr>]\<rparr>, 1))"

text \<open>\<open>FindByID\<close> selects by the id alone and scans the first row.\<close>

definition FindByID :: "(uuid \<Rightarrow> string) \<Rightarrow> go_error option \<Rightarrow> uuid \<Rightarrow> Tables \<Rightarrow> Account result" where
  "FindByID uuid_string fault accountID t =
     (if accountID = uuid_Nil then Inl (ErrorString (''invalid account ID: '' @ uuid_string accountID))
      else case fault of Some err \<Rightarrow> Inl err
           | None \<Rightarrow> (case filter (\<lambda>a. ac_ID a = accountID) (t_accounts t) of
               [] \<Rightarrow> Inl ErrNoRows | a # _ \<Rightarrow> Inr a))"

text \<open>\<open>GetAccountsByUserID\<close> selects neither the balance nor the counters.\<close>

definition GetAccountsByUserID ::
  "Account row_order \<Rightarrow> go_error option \<Rightarrow> uuid \<Rightarrow> int \<Rightarrow> int \<Rightarrow> Tables \<Rightarrow> Account list result" where
  "GetAccountsByUserID ord fault userID pageNumber pageSize t =
     (let offset = wrap64 (wrap64 (pageNumber - 1) * pageSize)
      in case fault of Some err \<Rightarrow> Inl err
         | None \<Rightarrow> map_sum id (map (\<lambda>a. a\<lparr>ac_Balance := [], ac_OrderCount := 0, ac_AvgOrderAmount := []\<rparr>))
             (page_rows pageSize offset (ord (filter (\<lambda>a. ac_UserID a = userID) (t_accounts t)))))"

text \<open>A new user is skipped when its id or its username is taken.\<close>

definition UserRepo_Create :: "User \<Rightarrow> Tables \<Rightarrow> (Tables \<times> int) result" where
  "UserRepo_Create user t =
     (if 255 < length (us_Username user) then Inl (pg_error ''22001'')
      else if us_ID user \<in> us_ID ` set (t_users t) \<or> us_Username user \<in> us_Username ` set (t_users t) then Inr (t, 0)
      else Inr (t\<lparr>t_users := t_users t @ [user]\<rparr>, 1))"

text \<open>The \<open>SET\<close> clause of the balance update, on the rows with the account's id.\<close>

definition set_account :: "time \<Rightarrow> Account \<Rightarrow> Account \<Rightarrow> Account" where
  "set_account now account a =
     (if ac_ID a = ac_ID account
      then a\<lparr>ac_Balance := ac_Balance account, ac_OrderCount := ac_OrderCount account,
             ac_AvgOrderAmount := ac_AvgOrderAmount account, ac_UpdatedAt := now\<rparr> else a)"

definition UpdateBalanceCountAvgByAccountID :: "time \<Rightarrow> Account \<Rightarrow> Tables \<Rightarrow> (Tables \<times> int) result" where
  "UpdateBalanceCountAvgByAccountID now account t =
     (if \<not> int4_ok (ac_OrderCount account) then Inl ErrInt4
      else Inr (t\<lparr>t_accounts := map (set_account now account) (t_accounts t)\<rparr>,
            int (length (filter (\<lambda>a. ac_ID a = ac_ID account) (t_accounts t)))))"

definition FindUsers :: "User row_order \<Rightarrow> go_error option \<Rightarrow> int \<Rightarrow> int \<Rightarrow> Tables \<Rightarrow> User list result" where
  "FindUsers ord fault pageNumber pageSize t =
     (let offset = wrap64 (wrap64 (pageNumber - 1) * pageSize)
      in case fault of Some err \<Rightarrow> Inl err | None \<Rightarrow> page_rows pageSize offset (ord (t_users t)))"

subsection \<open>Transactions and read routing\<close>

record Tx =
  tx_view :: Tables
  tx_aborted :: bool

definition Begin :: "Tables \<Rightarrow> Tx" where
  "Begin primary = \<lparr>tx_view = primary, tx_aborted = False\<rparr>"

definition tx_Exec :: "go_error option \<Rightarrow> (Tables \<Rightarrow> (Tables \<times> int) result) \<Rightarrow> Tx \<Rightarrow> int result \<times> Tx" where
  "tx_Exec fault stmt tx =
     (if tx_aborted tx then (Inl (pg_error ''25P02''), tx)
      else case fault of
        Some err \<Rightarrow> (Inl err, tx\<lparr>tx_aborted := True\<rparr>)
      | None \<Rightarrow> (case stmt (tx_view tx) of
          Inl err \<Rightarrow> (Inl err, tx\<lparr>tx_aborted := as_pg_error err \<noteq> None\<rparr>)
        | Inr (t, n) \<Rightarrow> (Inr n, tx\<lparr>tx_view := t\<rparr>)))"

definition ErrTxCommitRollback :: go_error where
  "ErrTxCommitRollback = LibError ''commit unexpectedly resulted in rollback''"

text \<open>
  Commit answers with its error and the tables of the primary afterwards. An error stands for a
  commit without effect; a commit that took effect and whose answer was lost is not among the answers.
\<close>

definition Commit :: "go_error option \<Rightarrow> Tx \<Rightarrow> Tables \<Rightarrow> go_error option \<times> Tables" where
  "Commit fault tx primary =
     (if tx_aborted tx then (Some ErrTxCommitRollback, primary)
      else case fault of Some err \<Rightarrow> (Some err, primary) | None \<Rightarrow> (None, tx_view tx))"

text \<open>The outcome of the function \<open>WithTransaction\<close> runs: an error (or nil), or a panic.\<close>

datatype fn_outcome = Returned "go_error option" | Panicked string

definition WithTransaction ::
  "go_error option \<Rightarrow> go_error option \<Rightarrow> (Tx \<Rightarrow> fn_outcome \<times> Tx) \<Rightarrow> Tables \<Rightarrow> fn_outcome \<times> Tables" where
  "WithTransaction beginFault commitFault fn primary =
     (case beginFault of
        Some err \<Rightarrow> (Returned (Some err), primary)
      | None \<Rightarrow>
          (case fn (Begin primary) of
             (Panicked p, tx) \<Rightarrow> (Panicked p, primary)
           | (Returned (Some err), tx) \<Rightarrow> (Returned (Some err), primary)
           | (Returned None, tx) \<Rightarrow>
               (case Commit commitFault tx primary of (err, t) \<Rightarrow> (Returned err, t))))"

text \<open>A reader pool is the writer's pool itself or the state of a replica.\<close>

datatype reader_pool = WriterPool | ReplicaPool Tables

record DB =
  db_writer :: Tables
  db_readers :: "reader_pool list"

definition getReader :: "(nat \<Rightarrow> nat) \<Rightarrow> DB \<Rightarrow> Tables" where
  "getReader intn db =
     (if db_readers db = [] then db_writer db
      else case db_readers db ! intn (length (db_readers db)) of
        WriterPool \<Rightarrow> db_writer db | ReplicaPool t \<Rightarrow> t)"

subsection \<open>Laws of the statements\<close>

lemma UpdateStatus_frame:
  "UpdateStatus now key st msg t = Inr (t', n) \<Longrightarrow>
   t_accounts t' = t_accounts t \<and> t_users t' = t_users t \<and> length (t_orders t') = length (t_orders t)"
  by (auto simp: UpdateStatus_def split: if_splits)

lemma UpdateBalance_frame:
  "UpdateBalanceCountAvgByAccountID now a t = Inr (t', n) \<Longrightarrow>
   t_orders t' = t_orders t \<and> t_users t' = t_users t"
  by (auto simp: UpdateBalanceCountAvgByAccountID_def split: if_splits)

text \<open>The row \<open>FindByID\<close> returns has the id it was asked for, which is not nil.\<close>

lemma FindByID_SomeD:
  assumes "FindByID us f i t = Inr a"
  shows "ac_ID a = i \<and> a \<in> set (t_accounts t) \<and> i \<noteq> uuid_Nil"
proof -
  obtain r where "filter (\<lambda>a. ac_ID a = i) (t_accounts t) = a # r" and "i \<noteq> uuid_Nil"
    using assms by (auto simp: FindByID_def split: if_splits option.splits list.splits)
  then have "a \<in> set (filter (\<lambda>a. ac_ID a = i) (t_accounts t))" by simp
  with \<open>i \<noteq> uuid_Nil\<close> show ?thesis by auto
qed

lemma FindByID_cong: "t_accounts t' = t_accounts t \<Longrightarrow> FindByID us f i t' = FindByID us f i t"
  by (cases f) (simp_all add: FindByID_def)

lemma UpdateBalance_accounts:
  "UpdateBalanceCountAvgByAccountID now acc t = Inr (t', n) \<Longrightarrow>
   t_accounts t' = map (set_account now acc) (t_accounts t)"
  by (auto simp: UpdateBalanceCountAvgByAccountID_def split: if_splits)

lemma filter_set_account:
  "filter (\<lambda>a. ac_ID a = i) (map (set_account now acc) xs) =
   map (set_account now acc) (filter (\<lambda>a. ac_ID a = i) xs)"
  by (induction xs) (auto simp: set_account_def)

lemma FindByID_after_update:
  assumes "FindByID us None i t = Inr a"
    and "UpdateBalanceCountAvgByAccountID now acc t = Inr (t', n)"
  shows "FindByID us None i t' = Inr (set_account now acc a)"
  using assms(1)
  by (auto simp: FindByID_def UpdateBalance_accounts [OF assms(2)] filter_set_account
      split: if_splits list.splits)

lemma FindByID_other:
  assumes "UpdateBalanceCountAvgByAccountID now acc t = Inr (t', n)" "i \<noteq> ac_ID acc"
  shows "FindByID us f i t' = FindByID us f i t"
proof -
  have "map (set_account now acc) (filter (\<lambda>a. ac_ID a = i) xs) = filter (\<lambda>a. ac_ID a = i) xs" for xs
    using assms(2) by (induction xs) (auto simp: set_account_def)
  then show ?thesis
    by (cases f) (simp_all add: FindByID_def UpdateBalance_accounts [OF assms(1)] filter_set_account)
qed

lemma WithTransaction_atomic:
  "snd (WithTransaction b c fn t) = t \<or>
   (\<exists>tx. fn (Begin t) = (Returned None, tx) \<and> snd (WithTransaction b c fn t) = tx_view tx \<and>
      fst (WithTransaction b c fn t) = Returned None)"
  by (auto simp: WithTransaction_def Commit_def split: option.split prod.split fn_outcome.split)

lemma WithTransaction_error:
  "fst (WithTransaction b c fn t) \<noteq> Returned None \<Longrightarrow> snd (WithTransaction b c fn t) = t"
  by (auto simp: WithTransaction_def Commit_def split: option.splits prod.splits fn_outcome.splits if_splits)

end
