(* ===== verification/Http_Client.thy ===== *)
theory Http_Client
  imports Prelude
begin

text \<open>
  \<open>pkg/utils/http_client.go\<close>: the configuration of the HTTP client the fraud detector uses,
  its functional options, the defaults, and the bounds put on what the options produced. The
  built client is the record of the values handed to \<open>net.Dialer\<close>, \<open>http.Transport\<close> and
  \<open>http.Client\<close>. A duration is its number of nanoseconds; the function-typed \<open>Proxy\<close> is
  \<open>http.ProxyFromEnvironment\<close>, another function, or nil (\<open>None\<close>).
\<close>

definition Second :: duration where
  "Second = 1000000000"

definition Millisecond :: duration where
  "Millisecond = 1000000"

lemma Second_pos [simp]: "0 < Second"
  by (simp add: Second_def)

lemma Millisecond_pos [simp]: "0 < Millisecond"
  by (simp add: Millisecond_def)

definition defaultClientTimeout :: duration where
  "defaultClientTimeout = 2 * Second"

definition defaultResponseHeaderTimeout :: duration where
  "defaultResponseHeaderTimeout = 1 * Second"

definition defaultIdleConnTimeout :: duration where
  "defaultIdleConnTimeout = 90 * Second"

definition defaultTLSHandshakeTimeout :: duration where
  "defaultTLSHandshakeTimeout = 5 * Second"

definition defaultExpectContinueTimeout :: duration where
  "defaultExpectContinueTimeout = 1 * Second"

definition defaultMaxConnsPerHost :: int where
  "defaultMaxConnsPerHost = 128"

definition defaultMaxIdleConns :: int where
  "defaultMaxIdleConns = 256"

definition defaultMaxIdleConnsPerHost :: int where
  "defaultMaxIdleConnsPerHost = 128"

definition defaultDialerTimeout :: duration where
  "defaultDialerTimeout = 500 * Millisecond"

definition defaultDialerKeepAlive :: duration where
  "defaultDialerKeepAlive = 30 * Second"


lemmas client_default_defs [go_defs] =
  defaultClientTimeout_def defaultResponseHeaderTimeout_def defaultIdleConnTimeout_def
  defaultTLSHandshakeTimeout_def defaultExpectContinueTimeout_def defaultMaxConnsPerHost_def
  defaultMaxIdleConns_def defaultMaxIdleConnsPerHost_def defaultDialerTimeout_def
  defaultDialerKeepAlive_def

datatype proxy = ProxyFromEnvironment | ProxyFunc "string \<Rightarrow> string option"

record ClientConfig =
  ClientTimeout :: duration
  ResponseHeaderTimeout :: duration
  IdleConnTimeout :: duration
  TLSHandshakeTimeout :: duration
  ExpectContinueTimeout :: duration
  MaxConnsPerHost :: int
  MaxIdleConns :: int
  MaxIdleConnsPerHost :: int
  DialerTimeout :: duration
  DialerKeepAlive :: duration
  ForceAttemptHTTP2 :: bool
  Proxy :: "proxy option"

type_synonym ClientOption = "ClientConfig \<Rightarrow> ClientConfig"

definition WithClientTimeout :: "duration \<Rightarrow> ClientOption" where
  "WithClientTimeout d c = c\<lparr>ClientTimeout := d\<rparr>"

definition WithResponseHeaderTimeout :: "duration \<Rightarrow> ClientOption" where
  "WithResponseHeaderTimeout d c = c\<lparr>ResponseHeaderTimeout := d\<rparr>"

definition WithIdleConnTimeout :: "duration \<Rightarrow> ClientOption" where
  "WithIdleConnTimeout d c = c\<lparr>IdleConnTimeout := d\<rparr>"

definition WithTLSHandshakeTimeout :: "duration \<Rightarrow> ClientOption" where
  "WithTLSHandshakeTimeout d c = c\<lparr>TLSHandshakeTimeout := d\<rparr>"

definition WithExpectContinueTimeout :: "duration \<Rightarrow> ClientOption" where
  "WithExpectContinueTimeout d c = c\<lparr>ExpectContinueTimeout := d\<rparr>"

definition WithMaxConnsPerHost :: "int \<Rightarrow> ClientOption" where
  "WithMaxConnsPerHost n c = c\<lparr>MaxConnsPerHost := n\<rparr>"

definition WithMaxIdleConns :: "int \<Rightarrow> ClientOption" where
  "WithMaxIdleConns n c = c\<lparr>MaxIdleConns := n\<rparr>"

definition WithMaxIdleConnsPerHost :: "int \<Rightarrow> ClientOption" where
  "WithMaxIdleConnsPerHost n c = c\<lparr>MaxIdleConnsPerHost := n\<rparr>"

definition WithDialerTimeout :: "duration \<Rightarrow> ClientOption" where
  "WithDialerTimeout d c = c\<lparr>DialerTimeout := d\<rparr>"

definition WithDialerKeepAlive :: "duration \<Rightarrow> ClientOption" where
  "WithDialerKeepAlive d c = c\<lparr>DialerKeepAlive := d\<rparr>"

definition WithProxy :: "proxy option \<Rightarrow> ClientOption" where
  "WithProxy p c = c\<lparr>Proxy := p\<rparr>"

definition WithForceAttemptHTTP2 :: "bool \<Rightarrow> ClientOption" where
  "WithForceAttemptHTTP2 b c = c\<lparr>ForceAttemptHTTP2 := b\<rparr>"

definition DefaultClientConfig :: ClientConfig where
  "DefaultClientConfig = \<lparr>
     ClientTimeout = defaultClientTimeout,
     ResponseHeaderTimeout = defaultResponseHeaderTimeout,
     IdleConnTimeout = defaultIdleConnTimeout,
     TLSHandshakeTimeout = defaultTLSHandshakeTimeout,
     ExpectContinueTimeout = defaultExpectContinueTimeout,
     MaxConnsPerHost = defaultMaxConnsPerHost,
     MaxIdleConns = defaultMaxIdleConns,
     MaxIdleConnsPerHost = defaultMaxIdleConnsPerHost,
     DialerTimeout = defaultDialerTimeout,
     DialerKeepAlive = defaultDialerKeepAlive,
     ForceAttemptHTTP2 = True,
     Proxy = Some ProxyFromEnvironment\<rparr>"

text \<open>The two ways the code writes \<open>if v <= 0 { v = d }\<close>, here and in \<open>pkg/cache/redis.go\<close>.\<close>

definition or_default :: "int \<Rightarrow> int \<Rightarrow> int" where
  "or_default v d = (if v \<le> 0 then d else v)"

lemma or_default_pos [simp]: "0 < d \<Longrightarrow> 0 < or_default v d"
  by (simp add: or_default_def)

lemma or_default_keep [simp]: "0 < v \<Longrightarrow> or_default v d = v"
  by (simp add: or_default_def)

definition sanitizeClientConfig :: "ClientConfig \<Rightarrow> ClientConfig" where
  "sanitizeClientConfig c = c\<lparr>
     ClientTimeout := or_default (ClientTimeout c) defaultClientTimeout,
     ResponseHeaderTimeout := or_default (ResponseHeaderTimeout c) defaultResponseHeaderTimeout,
     IdleConnTimeout := or_default (IdleConnTimeout c) defaultIdleConnTimeout,
     TLSHandshakeTimeout := or_default (TLSHandshakeTimeout c) defaultTLSHandshakeTimeout,
     ExpectContinueTimeout := or_default (ExpectContinueTimeout c) defaultExpectContinueTimeout,
     DialerTimeout := or_default (DialerTimeout c) defaultDialerTimeout,
     DialerKeepAlive := or_default (DialerKeepAlive c) defaultDialerKeepAlive,
     MaxConnsPerHost := or_default (MaxConnsPerHost c) defaultMaxConnsPerHost,
     MaxIdleConns := or_default (MaxIdleConns c) defaultMaxIdleConns,
     MaxIdleConnsPerHost := or_default (MaxIdleConnsPerHost c) defaultMaxIdleConnsPerHost,
     Proxy := (if Proxy c = None then Some ProxyFromEnvironment else Proxy c)\<rparr>"

record Dialer =
  dl_Timeout :: duration
  dl_KeepAlive :: duration

record Transport =
  tr_Proxy :: "proxy option"
  tr_DialContext :: Dialer
  tr_MaxConnsPerHost :: int
  tr_MaxIdleConns :: int
  tr_MaxIdleConnsPerHost :: int
  tr_IdleConnTimeout :: duration
  tr_TLSHandshakeTimeout :: duration
  tr_ExpectContinueTimeout :: duration
  tr_ResponseHeaderTimeout :: duration
  tr_ForceAttemptHTTP2 :: bool

record HttpClient =
  hc_Transport :: Transport
  hc_Timeout :: duration

definition NewHTTPClient :: "ClientOption list \<Rightarrow> HttpClient" where
  "NewHTTPClient opts =
     (let cfg = sanitizeClientConfig (fold (\<lambda>opt c. opt c) opts DefaultClientConfig);
          tr = \<lparr>tr_Proxy = Proxy cfg,
                tr_DialContext = \<lparr>dl_Timeout = DialerTimeout cfg, dl_KeepAlive = DialerKeepAlive cfg\<rparr>,
                tr_MaxConnsPerHost = MaxConnsPerHost cfg,
                tr_MaxIdleConns = MaxIdleConns cfg,
                tr_MaxIdleConnsPerHost = MaxIdleConnsPerHost cfg,
                tr_IdleConnTimeout = IdleConnTimeout cfg,
                tr_TLSHandshakeTimeout = TLSHandshakeTimeout cfg,
                tr_ExpectContinueTimeout = ExpectContinueTimeout cfg,
                tr_ResponseHeaderTimeout = ResponseHeaderTimeout cfg,
                tr_ForceAttemptHTTP2 = ForceAttemptHTTP2 cfg\<rparr>
      in \<lparr>hc_Transport = tr, hc_Timeout = ClientTimeout cfg\<rparr>)"

text \<open>A transport none of whose waits is unbounded and none of whose pools is unlimited.\<close>

definition bounded_client :: "HttpClient \<Rightarrow> bool" where
  "bounded_client h \<longleftrightarrow> 0 < hc_Timeout h \<and>
     (let t = hc_Transport h in
        0 < dl_Timeout (tr_DialContext t) \<and> 0 < dl_KeepAlive (tr_DialContext t) \<and>
        0 < tr_MaxConnsPerHost t \<and> 0 < tr_MaxIdleConns t \<and> 0 < tr_MaxIdleConnsPerHost t \<and>
        0 < tr_IdleConnTimeout t \<and> 0 < tr_TLSHandshakeTimeout t \<and> 0 < tr_ExpectContinueTimeout t \<and>
        0 < tr_ResponseHeaderTimeout t \<and> tr_Proxy t \<noteq> None)"

definition sane_config :: "ClientConfig \<Rightarrow> bool" where
  "sane_config c \<longleftrightarrow>
     0 < ClientTimeout c \<and> 0 < ResponseHeaderTimeout c \<and> 0 < IdleConnTimeout c \<and>
     0 < TLSHandshakeTimeout c \<and> 0 < ExpectContinueTimeout c \<and> 0 < DialerTimeout c \<and>
     0 < DialerKeepAlive c \<and> 0 < MaxConnsPerHost c \<and> 0 < MaxIdleConns c \<and>
     0 < MaxIdleConnsPerHost c \<and> Proxy c \<noteq> None"

lemma client_defaults_pos:
  "0 < defaultClientTimeout" "0 < defaultResponseHeaderTimeout" "0 < defaultIdleConnTimeout"
  "0 < defaultTLSHandshakeTimeout" "0 < defaultExpectContinueTimeout" "0 < defaultMaxConnsPerHost"
  "0 < defaultMaxIdleConns" "0 < defaultMaxIdleConnsPerHost" "0 < defaultDialerTimeout"
  "0 < defaultDialerKeepAlive"
  by (simp_all add: client_default_defs)

lemma sanitize_sane: "sane_config (sanitizeClientConfig c)"
  using client_defaults_pos by (simp add: sane_config_def sanitizeClientConfig_def)

lemma sanitize_id: "sane_config c \<Longrightarrow> sanitizeClientConfig c = c"
  by (cases c) (auto simp: sane_config_def sanitizeClientConfig_def)

lemma default_config_sane: "sane_config DefaultClientConfig"
  using client_defaults_pos by (simp add: sane_config_def DefaultClientConfig_def)

lemma NewHTTPClient_bounded: "bounded_client (NewHTTPClient opts)"
proof -
  have "sane_config (sanitizeClientConfig (fold (\<lambda>opt c. opt c) opts DefaultClientConfig))"
    by (rule sanitize_sane)
  then show ?thesis
    by (simp add: NewHTTPClient_def bounded_client_def Let_def sane_config_def)
qed

text \<open>
  Whatever options a caller passes, the client that is built has a deadline,
  bounded transport timeouts, bounded pools and a proxy function, and the options that leave a
  sane configuration are honoured exactly: sanitizing changes nothing then.
\<close>

theorem http_client_never_unbounded:
  "bounded_client (NewHTTPClient opts) \<and>
   (sane_config (fold (\<lambda>opt c. opt c) opts DefaultClientConfig) \<longrightarrow>
      hc_Timeout (NewHTTPClient opts) = ClientTimeout (fold (\<lambda>opt c. opt c) opts DefaultClientConfig) \<and>
      tr_ResponseHeaderTimeout (hc_Transport (NewHTTPClient opts)) =
        ResponseHeaderTimeout (fold (\<lambda>opt c. opt c) opts DefaultClientConfig) \<and>
      tr_MaxConnsPerHost (hc_Transport (NewHTTPClient opts)) =
        MaxConnsPerHost (fold (\<lambda>opt c. opt c) opts DefaultClientConfig))"
  by (simp add: NewHTTPClient_bounded) (simp add: NewHTTPClient_def sanitize_id Let_def)

theorem http_client_never_unbounded_witness:
  "bounded_client (NewHTTPClient [WithClientTimeout (3 * Second), WithMaxConnsPerHost 7]) \<and>
   hc_Timeout (NewHTTPClient [WithClientTimeout (3 * Second), WithMaxConnsPerHost 7]) = 3 * Second"
  using http_client_never_unbounded [of "[WithClientTimeout (3 * Second), WithMaxConnsPerHost 7]"]
    default_config_sane
  by (simp add: sane_config_def WithClientTimeout_def WithMaxConnsPerHost_def)

end
