(* ===== verification/Redis_Client.thy ===== *)
theory Redis_Client
  imports Http_Client Errors
begin

text \<open>
  \<open>pkg/cache/redis.go\<close>: the options handed to \<open>redis.NewClient\<close> and the health check. The
  driver is third-party code: \<open>ping\<close>, an argument, is what it answers to \<open>PING\<close> for the
  options it was given. A returned client is its options; \<open>None\<close> in \<open>TLSConfig\<close> is nil.
\<close>

record RedisConfig =
  rc_Addr :: string
  rc_Username :: string
  rc_Password :: string
  rc_DB :: int
  rc_UseTLS :: bool
  rc_DialTimeout :: duration
  rc_ReadTimeout :: duration
  rc_WriteTimeout :: duration
  rc_PoolSize :: int
  rc_MinIdleConns :: int
  rc_MaxRetries :: int
  rc_MaxRetryBackoff :: duration
  rc_MinRetryBackoff :: duration

datatype tls_config = MinVersionTLS12

record RedisOptions =
  ro_Addr :: string
  ro_Username :: string
  ro_Password :: string
  ro_DB :: int
  ro_DialTimeout :: duration
  ro_ReadTimeout :: duration
  ro_WriteTimeout :: duration
  ro_PoolSize :: int
  ro_MinIdleConns :: int
  ro_MaxRetries :: int
  ro_MinRetryBackoff :: duration
  ro_MaxRetryBackoff :: duration
  ro_TLSConfig :: "tls_config option"

definition defaultDuration :: "duration \<Rightarrow> duration \<Rightarrow> duration" where
  "defaultDuration v d = (if 0 < v then v else d)"

definition defaultInt :: "int \<Rightarrow> int \<Rightarrow> int" where
  "defaultInt v d = (if 0 < v then v else d)"

definition redis_options :: "RedisConfig \<Rightarrow> RedisOptions" where
  "redis_options cfg = \<lparr>
     ro_Addr = rc_Addr cfg,
     ro_Username = rc_Username cfg,
     ro_Password = rc_Password cfg,
     ro_DB = rc_DB cfg,
     ro_DialTimeout = defaultDuration (rc_DialTimeout cfg) (3 * Second),
     ro_ReadTimeout = defaultDuration (rc_ReadTimeout cfg) (2 * Second),
     ro_WriteTimeout = defaultDuration (rc_WriteTimeout cfg) (2 * Second),
     ro_PoolSize = defaultInt (rc_PoolSize cfg) 10,
     ro_MinIdleConns = defaultInt (rc_MinIdleConns cfg) 2,
     ro_MaxRetries = defaultInt (rc_MaxRetries cfg) 3,
     ro_MinRetryBackoff = (if 0 < rc_MinRetryBackoff cfg then rc_MinRetryBackoff cfg else 50 * Millisecond),
     ro_MaxRetryBackoff = (if 0 < rc_MaxRetryBackoff cfg then rc_MaxRetryBackoff cfg else 500 * Millisecond),
     ro_TLSConfig = (if rc_UseTLS cfg then Some MinVersionTLS12 else None)\<rparr>"

text \<open>The second component says whether the client is still open when \<open>New\<close> returns.\<close>

definition redis_New :: "(RedisOptions \<Rightarrow> go_error option) \<Rightarrow> RedisConfig \<Rightarrow> RedisOptions result \<times> bool" where
  "redis_New ping cfg =
     (let opts = redis_options cfg
      in case ping opts of Some err \<Rightarrow> (Inl err, False) | None \<Rightarrow> (Inr opts, True))"

lemma default_is_or_default [go_simps]:
  "defaultDuration v d = or_default v d" "defaultInt v d = or_default v d"
  by (auto simp: defaultDuration_def defaultInt_def or_default_def)

text \<open>
  A client is handed out exactly when the server answered the health check, it is
  closed again otherwise, and the options it was built with have positive timeouts, pool sizes,
  retry counts and backoffs whatever the configuration says, and TLS exactly on request.
\<close>

theorem redis_New_checked:
  "(case redis_New ping cfg of
      (Inr opts, live) \<Rightarrow> ping opts = None \<and> live
    | (Inl err, live) \<Rightarrow> ping (redis_options cfg) = Some err \<and> \<not> live) \<and>
   0 < ro_DialTimeout (redis_options cfg) \<and> 0 < ro_ReadTimeout (redis_options cfg) \<and>
   0 < ro_WriteTimeout (redis_options cfg) \<and> 0 < ro_PoolSize (redis_options cfg) \<and>
   0 < ro_MinIdleConns (redis_options cfg) \<and> 0 < ro_MaxRetries (redis_options cfg) \<and>
   0 < ro_MinRetryBackoff (redis_options cfg) \<and> 0 < ro_MaxRetryBackoff (redis_options cfg) \<and>
   (ro_TLSConfig (redis_options cfg) \<noteq> None) = rc_UseTLS cfg"
  by (simp add: redis_New_def redis_options_def go_simps Let_def split: option.split)

end
