(* ===== verification/Config.thy ===== *)
theory Config
  imports Errors
begin

text \<open>
  The configuration of the three services (\<open>services/*/configs/config.go\<close>) with
  \<open>ParseStructEnv\<close> and \<open>FormatConfigErrors\<close> of \<open>pkg/utils/utils.go\<close>. A configuration is a
  record, its \<open>mapstructure\<close> tags are the list of environment names that are bound, its
  \<open>validate\<close> tags a predicate. viper and the validator are third-party packages: what viper
  unmarshals from a setup (prefix, defaults, file) and what the validator answers are arguments;
  that the validator answers nil exactly when the tags hold is the hypothesis \<open>validates\<close>. The
  field widths are kept by viper's decoding: an \<open>int32\<close> that does not fit is its error.
\<close>

datatype gin_mode = DebugMode | ReleaseMode | TestMode

record Viper =
  vp_EnvPrefix :: string
  vp_Defaults :: "(string \<times> string) list"
  vp_ConfigName :: string
  vp_ConfigType :: string
  vp_ConfigPath :: string

definition config_name :: "gin_mode \<Rightarrow> string" where
  "config_name mode = (if mode = ReleaseMode then ''config.prod'' else if mode = TestMode then ''config.test'' else ''config.dev'')"

text \<open>The loop of \<open>ParseStructEnv\<close> binds the tags in order and stops at the first error.\<close>

fun bind_all :: "(string \<Rightarrow> go_error option) \<Rightarrow> string list \<Rightarrow> go_error option" where
  "bind_all bind [] = None"
| "bind_all bind (tag # tags) = (case bind tag of Some err \<Rightarrow> Some err | None \<Rightarrow> bind_all bind tags)"

definition ParseStructEnv ::
  "(string \<Rightarrow> go_error option) \<Rightarrow> (Viper \<Rightarrow> 'c result) \<Rightarrow> string list \<Rightarrow> Viper \<Rightarrow> 'c result" where
  "ParseStructEnv bind unmarshal tags viper =
     (case bind_all bind tags of Some err \<Rightarrow> Inl err | None \<Rightarrow> unmarshal viper)"

record FieldError =
  fe_Field :: string
  fe_Tag :: string
  fe_Param :: string

datatype validate_error = ValidationErrors "FieldError list" | OtherValidateError go_error

definition field_message :: "FieldError \<Rightarrow> string" where
  "field_message fe =
     (let field = fe_Field fe; tag = fe_Tag fe; param = fe_Param fe in
      if tag = ''required'' then field @ '' is required''
      else if tag = ''min'' then field @ '' must be at least '' @ param
      else if tag = ''max'' then field @ '' must be at most '' @ param
      else if param \<noteq> [] then field @ '' failed validation '' @ tag @ ''='' @ param
      else field @ '' failed validation '' @ tag)"

fun join :: "string \<Rightarrow> string list \<Rightarrow> string" where
  "join sep [] = []"
| "join sep [s] = s"
| "join sep (s # ss) = s @ sep @ join sep ss"

fun FormatConfigErrors :: "validate_error \<Rightarrow> go_error" where
  "FormatConfigErrors (ValidationErrors fes) =
     ErrorString (''invalid configuration: '' @ join ''; '' (map field_message fes))"
| "FormatConfigErrors (OtherValidateError err) = err"

subsection \<open>The payment worker\<close>

record WorkerConfig =
  wc_MetricsAddr :: string
  wc_KafkaBrokers :: string
  wc_PrimaryDbAddr :: string
  wc_ReadDbAddr :: string
  wc_MaxDbCons :: int
  wc_MinDbCons :: int
  wc_KafkaPartition :: int
  wc_KafkaOrderTopic :: string
  wc_KafkaDLQTopic :: string
  wc_KafkaDLQRetention :: duration
  wc_KafkaOrderConsumerGroup :: string
  wc_KafkaRetryConsumerGroup :: string
  wc_KafkaRetryTopic :: string
  wc_KafkaRetryDLQTopic :: string
  wc_KafkaRetryRetention :: duration
  wc_KafkaRetryDLQRetention :: duration
  wc_RetryBaseBackoff :: duration
  wc_MaxRetryBackoff :: duration
  wc_MaxRetryCount :: int
  wc_AesKey :: string
  wc_RedisAddr :: string
  wc_MaxReplicaRateLimit :: int
  wc_MaxOrdersPlacedConcurrentJobs :: int
  wc_MaxOrdersRetryConcurrentJobs :: int
  wc_FraudMLServiceAddr :: string
  wc_MlRateLimitPerSec :: int
  wc_MlRequestBurst :: int
  wc_MlRequestMaxThrottleWait :: duration

definition WorkerConfig_env :: "string list" where
  "WorkerConfig_env = [''METRICS_ADDR'', ''KAFKA_BROKERS'', ''PRIMARY_DB_ADDR'', ''READ_DB_ADDR'',
     ''MAX_DB_CONNECTIONS'', ''MIN_DB_CONNECTIONS'', ''KAFKA_PARTITION'', ''KAFKA_ORDER_TOPIC'',
     ''KAFKA_DLQ_TOPIC'', ''KAFKA_DLQ_RETENTION'', ''KAFKA_ORDER_CONSUMER_GROUP'',
     ''KAFKA_RETRY_CONSUMER_GROUP'', ''KAFKA_RETRY_TOPIC'', ''KAFKA_RETRY_DLQ_TOPIC'',
     ''KAFKA_RETRY_RETENTION'', ''KAFKA_RETRY_DLQ_RETENTION'', ''RETRY_BASE_BACKOFF'',
     ''MAX_RETRY_BACKOFF'', ''MAX_RETRY_COUNT'', ''AES_KEY'', ''REDIS_ADDR'',
     ''MAX_REPLICA_RATE_LIMIT'', ''MAX_ORDERS_PLACED_CONCURRENT_JOBS'',
     ''MAX_ORDERS_RETRY_CONCURRENT_JOBS'', ''FRAUD_ML_SERVICE_ADDR'', ''ML_RATE_LIMIT_PER_SEC'',
     ''ML_REQUEST_BURST'', ''ML_REQUEST_MAX_THROTTLE_WAIT'']"

definition WorkerConfig_tags :: "WorkerConfig \<Rightarrow> bool" where
  "WorkerConfig_tags c \<longleftrightarrow>
     wc_MetricsAddr c \<noteq> [] \<and> wc_KafkaBrokers c \<noteq> [] \<and> wc_PrimaryDbAddr c \<noteq> [] \<and>
     1 \<le> wc_MaxDbCons c \<and> 1 \<le> wc_MinDbCons c \<and> 1 \<le> wc_KafkaPartition c \<and>
     wc_KafkaOrderTopic c \<noteq> [] \<and> wc_KafkaDLQTopic c \<noteq> [] \<and> wc_KafkaDLQRetention c \<noteq> 0 \<and>
     wc_KafkaOrderConsumerGroup c \<noteq> [] \<and> wc_KafkaRetryConsumerGroup c \<noteq> [] \<and> wc_KafkaRetryTopic c \<noteq> [] \<and>
     wc_KafkaRetryDLQTopic c \<noteq> [] \<and> wc_KafkaRetryRetention c \<noteq> 0 \<and> wc_KafkaRetryDLQRetention c \<noteq> 0 \<and>
     wc_RetryBaseBackoff c \<noteq> 0 \<and> wc_MaxRetryBackoff c \<noteq> 0 \<and> 1 \<le> wc_MaxRetryCount c \<and>
     wc_MaxRetryCount c \<le> 5 \<and> wc_AesKey c \<noteq> [] \<and> wc_RedisAddr c \<noteq> [] \<and>
     1 \<le> wc_MaxReplicaRateLimit c \<and> 1 \<le> wc_MaxOrdersPlacedConcurrentJobs c \<and> 1 \<le> wc_MaxOrdersRetryConcurrentJobs c \<and>
     1 \<le> wc_MlRateLimitPerSec c \<and> 1 \<le> wc_MlRequestBurst c \<and> wc_MlRequestMaxThrottleWait c \<noteq> 0"

definition WorkerConfig_viper :: "gin_mode \<Rightarrow> Viper" where
  "WorkerConfig_viper mode = \<lparr>vp_EnvPrefix = ''app'',
     vp_Defaults = [(''KAFKA_RETRY'', ''3''), (''KAFKA_PARTITION'', ''4''),
       (''MAX_REPLICA_RATE_LIMIT'', ''10''), (''ORDER_RETRY_THRESHOLD'', ''1'')],
     vp_ConfigName = config_name mode, vp_ConfigType = ''yaml'',
     vp_ConfigPath = ''./services/payment-worker/configs''\<rparr>"

definition WorkerConfig_Load ::
  "gin_mode \<Rightarrow> (string \<Rightarrow> go_error option) \<Rightarrow> (Viper \<Rightarrow> WorkerConfig result) \<Rightarrow>
   (WorkerConfig \<Rightarrow> validate_error option) \<Rightarrow> WorkerConfig result" where
  "WorkerConfig_Load mode bind unmarshal validate =
     (case ParseStructEnv bind unmarshal WorkerConfig_env (WorkerConfig_viper mode) of
        Inl err \<Rightarrow> Inl err
      | Inr cfg \<Rightarrow> (case validate cfg of Some err \<Rightarrow> Inl (FormatConfigErrors err) | None \<Rightarrow> Inr cfg))"

subsection \<open>The order API\<close>

record OrderApiConfig =
  oc_Port :: string
  oc_KafkaBrokers :: string
  oc_PrimaryDbAddr :: string
  oc_ReadDbAddr :: string
  oc_MaxDbCons :: int
  oc_MinDbCons :: int
  oc_KafkaPartition :: int
  oc_KafkaOrderTopic :: string
  oc_KafkaOrderRetention :: duration
  oc_AesKey :: string

definition OrderApiConfig_env :: "string list" where
  "OrderApiConfig_env = [''PORT'', ''KAFKA_BROKERS'', ''PRIMARY_DB_ADDR'', ''READ_DB_ADDR'', ''MAX_DB_CONNECTIONS'',
     ''MIN_DB_CONNECTIONS'', ''KAFKA_PARTITION'', ''KAFKA_ORDER_TOPIC'',
     ''KAFKA_ORDER_RETENTION'', ''AES_KEY'']"

definition OrderApiConfig_tags :: "OrderApiConfig \<Rightarrow> bool" where
  "OrderApiConfig_tags c \<longleftrightarrow>
     oc_Port c \<noteq> [] \<and> oc_KafkaBrokers c \<noteq> [] \<and> oc_PrimaryDbAddr c \<noteq> [] \<and>
     1 \<le> oc_MaxDbCons c \<and> 1 \<le> oc_MinDbCons c \<and> 1 \<le> oc_KafkaPartition c \<and>
     oc_KafkaOrderTopic c \<noteq> [] \<and> oc_KafkaOrderRetention c \<noteq> 0 \<and> oc_AesKey c \<noteq> []"

definition OrderApiConfig_viper :: "gin_mode \<Rightarrow> Viper" where
  "OrderApiConfig_viper mode = \<lparr>vp_EnvPrefix = ''app'',
     vp_Defaults = [(''PORT'', ''8080''), (''MAX_DB_CONNECTIONS'', ''10''), (''MIN_DB_CONNECTIONS'', ''2''),
       (''KAFKA_RETRY'', ''3''), (''KAFKA_PARTITION'', ''4'')],
     vp_ConfigName = config_name mode, vp_ConfigType = ''yaml'',
     vp_ConfigPath = ''./services/order-api/configs''\<rparr>"

definition OrderApiConfig_Load ::
  "gin_mode \<Rightarrow> (string \<Rightarrow> go_error option) \<Rightarrow> (Viper \<Rightarrow> OrderApiConfig result) \<Rightarrow>
   (OrderApiConfig \<Rightarrow> validate_error option) \<Rightarrow> OrderApiConfig result" where
  "OrderApiConfig_Load mode bind unmarshal validate =
     (case ParseStructEnv bind unmarshal OrderApiConfig_env (OrderApiConfig_viper mode) of
        Inl err \<Rightarrow> Inl err
      | Inr cfg \<Rightarrow> (case validate cfg of Some err \<Rightarrow> Inl (FormatConfigErrors err) | None \<Rightarrow> Inr cfg))"

subsection \<open>The user seeder\<close>

record UserApiConfig =
  uc_PrimaryDbAddr :: string
  uc_ReadDbAddr :: string
  uc_MaxDbCons :: int
  uc_MinDbCons :: int
  uc_AesKey :: string

definition UserApiConfig_env :: "string list" where
  "UserApiConfig_env = [''PRIMARY_DB_ADDR'', ''READ_DB_ADDR'', ''MAX_DB_CONNECTIONS'', ''MIN_DB_CONNECTIONS'',
     ''AES_KEY'']"

definition UserApiConfig_tags :: "UserApiConfig \<Rightarrow> bool" where
  "UserApiConfig_tags c \<longleftrightarrow>
     uc_PrimaryDbAddr c \<noteq> [] \<and> 1 \<le> uc_MaxDbCons c \<and> 1 \<le> uc_MinDbCons c \<and>
     uc_AesKey c \<noteq> []"

definition UserApiConfig_viper :: "gin_mode \<Rightarrow> Viper" where
  "UserApiConfig_viper mode = \<lparr>vp_EnvPrefix = ''app'', vp_Defaults = [],
     vp_ConfigName = config_name mode, vp_ConfigType = ''yaml'',
     vp_ConfigPath = ''./services/user-api/configs''\<rparr>"

definition UserApiConfig_Load ::
  "gin_mode \<Rightarrow> (string \<Rightarrow> go_error option) \<Rightarrow> (Viper \<Rightarrow> UserApiConfig result) \<Rightarrow>
   (UserApiConfig \<Rightarrow> validate_error option) \<Rightarrow> UserApiConfig result" where
  "UserApiConfig_Load mode bind unmarshal validate =
     (case ParseStructEnv bind unmarshal UserApiConfig_env (UserApiConfig_viper mode) of
        Inl err \<Rightarrow> Inl err
      | Inr cfg \<Rightarrow> (case validate cfg of Some err \<Rightarrow> Inl (FormatConfigErrors err) | None \<Rightarrow> Inr cfg))"

subsection \<open>What the services may rely on\<close>

definition validates :: "('c \<Rightarrow> validate_error option) \<Rightarrow> ('c \<Rightarrow> bool) \<Rightarrow> bool" where
  "validates validate tags \<longleftrightarrow> (\<forall>c. validate c = None \<longleftrightarrow> tags c)"

text \<open>The contract of a loader: it answers with what viper decoded, if everything went well.\<close>

locale config_loader =
  fixes load :: "gin_mode \<Rightarrow> (string \<Rightarrow> go_error option) \<Rightarrow> (Viper \<Rightarrow> 'c result) \<Rightarrow>
      ('c \<Rightarrow> validate_error option) \<Rightarrow> 'c result"
    and tags :: "'c \<Rightarrow> bool" and env :: "string list" and viper :: "gin_mode \<Rightarrow> Viper"
  assumes load_iff: "load mode bind unmarshal validate = Inr c \<longleftrightarrow>
      bind_all bind env = None \<and> unmarshal (viper mode) = Inr c \<and> validate c = None"
    and load_invalid: "bind_all bind env = None \<Longrightarrow> unmarshal (viper mode) = Inr c \<Longrightarrow>
      validate c = Some err \<Longrightarrow> load mode bind unmarshal validate = Inl (FormatConfigErrors err)"
begin

lemma loaded_exactly_valid:
  assumes "validates validate tags"
  shows "load mode bind unmarshal validate = Inr c \<longleftrightarrow>
    bind_all bind env = None \<and> unmarshal (viper mode) = Inr c \<and> tags c"
  using assms by (simp add: load_iff validates_def)

lemma invalid_is_reported:
  assumes "validates validate tags" "bind_all bind env = None" "unmarshal (viper mode) = Inr c" "\<not> tags c"
  shows "\<exists>err. validate c = Some err \<and> load mode bind unmarshal validate = Inl (FormatConfigErrors err)"
proof -
  obtain err where "validate c = Some err"
    using assms(1,4) by (cases "validate c") (auto simp: validates_def)
  then show ?thesis using load_invalid assms(2,3) by blast
qed

end

lemma bind_all_None: "bind_all bind tags = None \<longleftrightarrow> (\<forall>t \<in> set tags. bind t = None)"
  by (induction tags) (auto split: option.split)

lemma join_member:
  "m \<in> set ms \<Longrightarrow> \<exists>p s. join sep ms = p @ m @ s"
proof (induction sep ms rule: join.induct)
  case (3 sep s t ts)
  show ?case
  proof (cases "m = s")
    case True
    then have "join sep (s # t # ts) = [] @ m @ (sep @ join sep (t # ts))" by simp
    then show ?thesis by blast
  next
    case False
    with 3 obtain p q where "join sep (t # ts) = p @ m @ q" by auto
    then have "join sep (s # t # ts) = (s @ sep @ p) @ m @ q" by simp
    then show ?thesis by blast
  qed
qed (auto intro: exI [of _ "[]"])

interpretation worker: config_loader WorkerConfig_Load WorkerConfig_tags WorkerConfig_env WorkerConfig_viper
  by unfold_locales (auto simp: WorkerConfig_Load_def ParseStructEnv_def split: option.splits sum.splits)

interpretation order_api: config_loader OrderApiConfig_Load OrderApiConfig_tags OrderApiConfig_env OrderApiConfig_viper
  by unfold_locales (auto simp: OrderApiConfig_Load_def ParseStructEnv_def split: option.splits sum.splits)

interpretation user_api: config_loader UserApiConfig_Load UserApiConfig_tags UserApiConfig_env UserApiConfig_viper
  by unfold_locales (auto simp: UserApiConfig_Load_def ParseStructEnv_def split: option.splits sum.splits)

text \<open>
  A worker starts with a configuration exactly when every environment name could be
  bound, viper decoded it from the setup of the running mode, and all its validation tags hold;
  in particular a started worker has between 1 and 5 retries and at least one worker slot and
  one partition. A configuration that breaks a tag is refused with an error whose text lists a
  message for every field error of the validator.
\<close>

theorem worker_config_exactly_valid:
  assumes "validates validate WorkerConfig_tags"
  shows "(WorkerConfig_Load mode bind unmarshal validate = Inr c \<longleftrightarrow>
      (\<forall>t \<in> set WorkerConfig_env. bind t = None) \<and> unmarshal (WorkerConfig_viper mode) = Inr c \<and> WorkerConfig_tags c) \<and>
    (WorkerConfig_tags c \<longrightarrow>
      1 \<le> wc_MaxRetryCount c \<and> wc_MaxRetryCount c \<le> 5 \<and> 1 \<le> wc_MaxOrdersPlacedConcurrentJobs c \<and>
      1 \<le> wc_MaxOrdersRetryConcurrentJobs c \<and> 1 \<le> wc_KafkaPartition c) \<and>
    ((\<forall>t \<in> set WorkerConfig_env. bind t = None) \<and> unmarshal (WorkerConfig_viper mode) = Inr c \<and>
      validate c = Some (ValidationErrors fes) \<and> fe \<in> set fes \<longrightarrow>
      (\<exists>p s. WorkerConfig_Load mode bind unmarshal validate = Inl (ErrorString (p @ field_message fe @ s))))"
proof (intro conjI impI)
  show "WorkerConfig_Load mode bind unmarshal validate = Inr c \<longleftrightarrow>
      (\<forall>t \<in> set WorkerConfig_env. bind t = None) \<and> unmarshal (WorkerConfig_viper mode) = Inr c \<and> WorkerConfig_tags c"
    using worker.loaded_exactly_valid [OF assms] by (simp add: bind_all_None)
next
  assume *: "(\<forall>t \<in> set WorkerConfig_env. bind t = None) \<and> unmarshal (WorkerConfig_viper mode) = Inr c \<and>
      validate c = Some (ValidationErrors fes) \<and> fe \<in> set fes"
  have "\<exists>p s. join ''; '' (map field_message fes) = p @ field_message fe @ s"
    by (rule join_member) (use * in simp)
  then obtain p s where "join ''; '' (map field_message fes) = p @ field_message fe @ s" by blast
  moreover have "WorkerConfig_Load mode bind unmarshal validate = Inl (FormatConfigErrors (ValidationErrors fes))"
    using worker.load_invalid * by (simp add: bind_all_None)
  ultimately have "WorkerConfig_Load mode bind unmarshal validate =
      Inl (ErrorString ((''invalid configuration: '' @ p) @ field_message fe @ s))" by simp
  then show "\<exists>p s. WorkerConfig_Load mode bind unmarshal validate = Inl (ErrorString (p @ field_message fe @ s))"
    by blast
qed (simp_all add: WorkerConfig_tags_def)

definition worker_config_example :: WorkerConfig where
  "worker_config_example = \<lparr>wc_MetricsAddr = '':9090'', wc_KafkaBrokers = ''kafka:9092'',
     wc_PrimaryDbAddr = ''db'', wc_ReadDbAddr = [], wc_MaxDbCons = 10, wc_MinDbCons = 2,
     wc_KafkaPartition = 4, wc_KafkaOrderTopic = ''orders'', wc_KafkaDLQTopic = ''orders-dlq'',
     wc_KafkaDLQRetention = 10, wc_KafkaOrderConsumerGroup = ''g'', wc_KafkaRetryConsumerGroup = ''r'',
     wc_KafkaRetryTopic = ''retry'', wc_KafkaRetryDLQTopic = ''retry-dlq'', wc_KafkaRetryRetention = 10,
     wc_KafkaRetryDLQRetention = 10, wc_RetryBaseBackoff = 1000, wc_MaxRetryBackoff = 60000,
     wc_MaxRetryCount = 3, wc_AesKey = ''k'', wc_RedisAddr = ''redis'', wc_MaxReplicaRateLimit = 10,
     wc_MaxOrdersPlacedConcurrentJobs = 8, wc_MaxOrdersRetryConcurrentJobs = 4,
     wc_FraudMLServiceAddr = ''http://ml'', wc_MlRateLimitPerSec = 20, wc_MlRequestBurst = 20,
     wc_MlRequestMaxThrottleWait = 100\<rparr>"

definition validate_example :: "WorkerConfig \<Rightarrow> validate_error option" where
  "validate_example c = (if WorkerConfig_tags c then None
     else Some (ValidationErrors [\<lparr>fe_Field = ''MaxRetryCount'', fe_Tag = ''max'', fe_Param = ''5''\<rparr>]))"

lemma validate_example_ok: "validates validate_example WorkerConfig_tags"
  by (simp add: validates_def validate_example_def)

lemma worker_config_example_tags:
  "WorkerConfig_tags worker_config_example" "\<not> WorkerConfig_tags (worker_config_example\<lparr>wc_MaxRetryCount := 9\<rparr>)"
  by (simp_all add: WorkerConfig_tags_def worker_config_example_def)

theorem worker_config_exactly_valid_witness:
  "WorkerConfig_Load TestMode (\<lambda>t. None) (\<lambda>v. Inr worker_config_example) validate_example = Inr worker_config_example \<and>
   wc_MaxRetryCount worker_config_example \<le> 5 \<and>
   (\<exists>p s. WorkerConfig_Load TestMode (\<lambda>t. None) (\<lambda>v. Inr (worker_config_example\<lparr>wc_MaxRetryCount := 9\<rparr>)) validate_example =
      Inl (ErrorString (p @ ''MaxRetryCount must be at most 5'' @ s)))"
proof -
  let ?fe = "\<lparr>fe_Field = ''MaxRetryCount'', fe_Tag = ''max'', fe_Param = ''5''\<rparr>"
  have m: "field_message ?fe = ''MaxRetryCount must be at most 5''"
    by (simp add: field_message_def Let_def)
  have v: "validate_example (worker_config_example\<lparr>wc_MaxRetryCount := 9\<rparr>) = Some (ValidationErrors [?fe])"
    by (simp add: validate_example_def worker_config_example_tags)
  show ?thesis
    using worker_config_exactly_valid [OF validate_example_ok, of TestMode "\<lambda>t. None" "\<lambda>v. Inr worker_config_example"
        worker_config_example "[?fe]" ?fe]
      worker_config_exactly_valid [OF validate_example_ok, of TestMode "\<lambda>t. None" "\<lambda>v. Inr (worker_config_example\<lparr>wc_MaxRetryCount := 9\<rparr>)"
        "worker_config_example\<lparr>wc_MaxRetryCount := 9\<rparr>" "[?fe]" ?fe]
    by (simp add: worker_config_example_tags v m)
qed

end
