(* ===== verification/Fraud.thy ===== *)
theory Fraud
  imports Config Http_Client Security Repositories
begin

text \<open>
  \<open>services/payment-worker/internal/services/fraud_detection_service.go\<close>. The answers of
  everything outside the process during one \<open>Analyze\<close> are the fields of \<open>FraudEnv\<close>: whether
  the context is done, Redis, the database reader, the token bucket, the HTTP exchange, the JSON
  decoding of the answer. \<open>Analyze\<close> yields the status it puts on the channel and the trace of
  its effects in order. The request body is represented by the request itself; encoding it
  fails exactly on a float without a JSON form.
\<close>

datatype FraudFlag = FraudFlagClean | FraudFlagSuspicious | FraudFlagUnknown

record FraudStatus =
  fs_FraudFlag :: FraudFlag
  fs_IsEligibleForRetry :: bool
  fs_Reason :: string
  fs_Score :: float64

record PredictRequest =
  pr_Amount :: float64
  pr_TransactionVelocity :: int
  pr_AmountDeviation :: float64

record PredictResponse =
  ps_Score :: float64
  ps_IsFraud :: bool
  ps_Threshold :: float64

record HttpResponse =
  hr_StatusCode :: int
  hr_Body :: string

record FraudDetector =
  fd_EncryptionKey :: "byte list"
  fd_MlRequestMaxThrottleWait :: duration
  fd_fraudMLAddr :: string
  fd_httpClient :: HttpClient
  fd_rateLimiter :: "int \<times> int"

definition NewFraudDetectionService :: "byte list \<Rightarrow> WorkerConfig \<Rightarrow> FraudDetector" where
  "NewFraudDetectionService key cfg = \<lparr>
     fd_EncryptionKey = key,
     fd_MlRequestMaxThrottleWait = wc_MlRequestMaxThrottleWait cfg,
     fd_fraudMLAddr = wc_FraudMLServiceAddr cfg @ ''/api/v1/fraud-ml/predict'',
     fd_httpClient = NewHTTPClient [WithClientTimeout (2 * Second), WithResponseHeaderTimeout (1 * Second),
        WithMaxConnsPerHost 128, WithProxy (Some ProxyFromEnvironment), WithForceAttemptHTTP2 True],
     fd_rateLimiter = (wc_MlRateLimitPerSec cfg, wc_MaxReplicaRateLimit cfg)\<rparr>"

definition ErrMLThrottled :: go_error where
  "ErrMLThrottled = ErrorString ''ml request throttled''"

record FraudEnv =
  en_ctx_done :: bool
  en_incr :: "int result"
  en_cache_get :: "string result"
  en_reader :: Tables
  en_find_fault :: "go_error option"
  en_reserve :: "duration option"
  en_wait_cancelled :: "go_error option"
  en_new_request :: "go_error option"
  en_do :: "PredictRequest \<Rightarrow> HttpResponse result"
  en_decode :: "string \<Rightarrow> PredictResponse result"
  en_uuid_string :: "uuid \<Rightarrow> string"
  en_quote :: "string \<Rightarrow> string"

datatype fraud_event =
    RedisIncrExpire string duration
  | RedisSet string string duration
  | Reserve
  | CancelReservation
  | HttpPost string PredictRequest

definition Hour :: duration where
  "Hour = 3600 * Second"

definition VelocityWindow :: duration where
  "VelocityWindow = 1 * Hour"

definition DeviationCacheTTL :: duration where
  "DeviationCacheTTL = 1 * Hour"

definition GetDeviationRedisKey :: "(uuid \<Rightarrow> string) \<Rightarrow> uuid \<Rightarrow> string" where
  "GetDeviationRedisKey uuid_string accountID = ''fraud:avg_avg_amount:'' @ uuid_string accountID"

text \<open>\<open>errors.Is(err, redis.Nil)\<close>.\<close>

fun is_redis_nil :: "go_error \<Rightarrow> bool" where
  "is_redis_nil RedisNil = True"
| "is_redis_nil (WrapError p e) = is_redis_nil e"
| "is_redis_nil (AppError c m (Some e)) = is_redis_nil e"
| "is_redis_nil _ = False"

definition computeVelocity :: "FraudEnv \<Rightarrow> uuid \<Rightarrow> int result \<times> fraud_event list" where
  "computeVelocity env accountId =
     (let velocityKey = ''fraud:velocity:'' @ en_uuid_string env accountId
      in (en_incr env, [RedisIncrExpire velocityKey VelocityWindow]))"

definition relative_deviation :: "float64 \<Rightarrow> float64 \<Rightarrow> float64" where
  "relative_deviation amount avg = (if f64_lt f64_zero avg then ComputeDeviation amount avg else f64_zero)"

definition computeDeviation ::
  "FraudDetector \<Rightarrow> FraudEnv \<Rightarrow> uuid \<Rightarrow> float64 \<Rightarrow> float64 result \<times> fraud_event list" where
  "computeDeviation f env accountID amount =
     (let cacheKey = GetDeviationRedisKey (en_uuid_string env) accountID
      in case en_cache_get env of
        Inl err \<Rightarrow>
          if is_redis_nil err
          then (case FindByID (en_uuid_string env) (en_find_fault env) accountID (en_reader env) of
              Inl err \<Rightarrow> (Inl err, [])
            | Inr account \<Rightarrow>
                (case DecryptToFloat64 (ac_AvgOrderAmount account) (fd_EncryptionKey f) of
                   Inl err \<Rightarrow> (Inl err, [])
                 | Inr avgOrderAmount \<Rightarrow>
                     (Inr (relative_deviation amount avgOrderAmount),
                      [RedisSet cacheKey (fmt_f 6 avgOrderAmount) DeviationCacheTTL])))
          else (Inl err, [])
      | Inr avgOrderAmountStr \<Rightarrow>
          (case ToFloat64 avgOrderAmountStr of
             Inl err \<Rightarrow> (Inl err, [])
           | Inr avgOrderAmount \<Rightarrow> (Inr (relative_deviation amount avgOrderAmount), [])))"

text \<open>\<open>json.Marshal\<close> refuses NaN and the infinities.\<close>

fun json_float_ok :: "float64 \<Rightarrow> bool" where
  "json_float_ok (Fin s m) = True"
| "json_float_ok _ = False"

definition ErrJsonValue :: go_error where
  "ErrJsonValue = LibError ''json: unsupported value''"

definition marshal_request :: "PredictRequest \<Rightarrow> PredictRequest result" where
  "marshal_request r =
     (if json_float_ok (pr_Amount r) \<and> json_float_ok (pr_AmountDeviation r) then Inr r else Inl ErrJsonValue)"

text \<open>The part of \<open>getFraudReport\<close> after the throttle: request, exchange, status code, decoding.\<close>

definition ml_exchange ::
  "FraudDetector \<Rightarrow> FraudEnv \<Rightarrow> PredictRequest \<Rightarrow> PredictResponse result \<times> fraud_event list" where
  "ml_exchange f env request =
     (case marshal_request request of
        Inl err \<Rightarrow> (Inl err, [])
      | Inr body \<Rightarrow>
          (case en_new_request env of
             Some err \<Rightarrow> (Inl err, [])
           | None \<Rightarrow>
               (case en_do env body of
                  Inl err \<Rightarrow> (Inl err, [HttpPost (fd_fraudMLAddr f) body])
                | Inr resp \<Rightarrow>
                    (if hr_StatusCode resp \<noteq> 200
                     then (Inl (ErrorString (''ml_request_failed_status: '' @ show_int (hr_StatusCode resp))),
                           [HttpPost (fd_fraudMLAddr f) body])
                     else (en_decode env (hr_Body resp), [HttpPost (fd_fraudMLAddr f) body])))))"

definition getFraudReport ::
  "FraudDetector \<Rightarrow> FraudEnv \<Rightarrow> PredictRequest \<Rightarrow> PredictResponse result \<times> fraud_event list" where
  "getFraudReport f env request =
     (case en_reserve env of
        None \<Rightarrow> (Inl ErrMLThrottled, [Reserve])
      | Some delay \<Rightarrow>
          if delay > fd_MlRequestMaxThrottleWait f
          then (Inl ErrMLThrottled, [Reserve, CancelReservation])
          else case (if delay > 0 then en_wait_cancelled env else None) of
            Some err \<Rightarrow> (Inl err, [Reserve, CancelReservation])
          | None \<Rightarrow> map_prod id (\<lambda>evs. Reserve # evs) (ml_exchange f env request))"

definition Analyze ::
  "FraudDetector \<Rightarrow> FraudEnv \<Rightarrow> float64 \<Rightarrow> PaymentJob \<Rightarrow> FraudStatus \<times> fraud_event list" where
  "Analyze f env amount job =
     (if en_ctx_done env
      then (\<lparr>fs_FraudFlag = FraudFlagUnknown, fs_IsEligibleForRetry = True, fs_Reason = ''context cancelled'',
             fs_Score = f64_of_int 10\<rparr>, [])
      else
        (let (v, ev1) = computeVelocity env (pj_AccountID job);
             velocity = (case v of Inl err \<Rightarrow> 1 | Inr n \<Rightarrow> n);
             (d, ev2) = computeDeviation f env (pj_AccountID job) amount;
             deviation = (case d of Inl err \<Rightarrow> f64_zero | Inr x \<Rightarrow> x);
             (r, ev3) = getFraudReport f env
               \<lparr>pr_Amount = amount, pr_TransactionVelocity = velocity, pr_AmountDeviation = deviation\<rparr>;
             status = (case r of
                 Inl err \<Rightarrow> \<lparr>fs_FraudFlag = FraudFlagUnknown, fs_IsEligibleForRetry = True,
                              fs_Reason = error_text (en_quote env) err, fs_Score = f64_zero\<rparr>
               | Inr result \<Rightarrow>
                   if ps_IsFraud result
                   then \<lparr>fs_FraudFlag = FraudFlagSuspicious, fs_IsEligibleForRetry = False,
                         fs_Reason = ''suspicious transaction'', fs_Score = ps_Score result\<rparr>
                   else \<lparr>fs_FraudFlag = FraudFlagClean, fs_IsEligibleForRetry = False,
                         fs_Reason = ''regular transaction'', fs_Score = ps_Score result\<rparr>)
         in (status, ev1 @ ev2 @ ev3)))"

subsection \<open>What the verdict means\<close>

definition fraud_request :: "FraudDetector \<Rightarrow> FraudEnv \<Rightarrow> float64 \<Rightarrow> PaymentJob \<Rightarrow> PredictRequest" where
  "fraud_request f env amount job = \<lparr>pr_Amount = amount,
     pr_TransactionVelocity = (case fst (computeVelocity env (pj_AccountID job)) of Inl err \<Rightarrow> 1 | Inr n \<Rightarrow> n),
     pr_AmountDeviation = (case fst (computeDeviation f env (pj_AccountID job) amount) of Inl err \<Rightarrow> f64_zero | Inr x \<Rightarrow> x)\<rparr>"

definition is_post :: "fraud_event \<Rightarrow> bool" where
  "is_post e = (case e of HttpPost u r \<Rightarrow> True | _ \<Rightarrow> False)"

lemma is_post_simps [simp]:
  "is_post (HttpPost u r)" "\<not> is_post Reserve" "\<not> is_post CancelReservation"
  "\<not> is_post (RedisIncrExpire k d)" "\<not> is_post (RedisSet k v d)"
  by (simp_all add: is_post_def)

text \<open>The answer the scoring service gave to a request, if it gave a usable one.\<close>

definition ml_answer :: "FraudEnv \<Rightarrow> PredictRequest \<Rightarrow> PredictResponse option" where
  "ml_answer env req =
     (case en_do env req of
        Inl err \<Rightarrow> None
      | Inr resp \<Rightarrow> if hr_StatusCode resp = 200
          then (case en_decode env (hr_Body resp) of Inl err \<Rightarrow> None | Inr r \<Rightarrow> Some r) else None)"

lemma Analyze_cancelled:
  "en_ctx_done env \<Longrightarrow> Analyze f env amount job =
     (\<lparr>fs_FraudFlag = FraudFlagUnknown, fs_IsEligibleForRetry = True, fs_Reason = ''context cancelled'',
       fs_Score = f64_of_int 10\<rparr>, [])"
  by (simp add: Analyze_def)

lemma Analyze_status:
  "\<not> en_ctx_done env \<Longrightarrow> fst (Analyze f env amount job) =
     (case fst (getFraudReport f env (fraud_request f env amount job)) of
        Inl err \<Rightarrow> \<lparr>fs_FraudFlag = FraudFlagUnknown, fs_IsEligibleForRetry = True,
                     fs_Reason = error_text (en_quote env) err, fs_Score = f64_zero\<rparr>
      | Inr r \<Rightarrow> if ps_IsFraud r
          then \<lparr>fs_FraudFlag = FraudFlagSuspicious, fs_IsEligibleForRetry = False,
                fs_Reason = ''suspicious transaction'', fs_Score = ps_Score r\<rparr>
          else \<lparr>fs_FraudFlag = FraudFlagClean, fs_IsEligibleForRetry = False,
                fs_Reason = ''regular transaction'', fs_Score = ps_Score r\<rparr>)"
  by (simp add: Analyze_def fraud_request_def Let_def split: prod.split)

lemma Analyze_events:
  "\<not> en_ctx_done env \<Longrightarrow> snd (Analyze f env amount job) =
     snd (computeVelocity env (pj_AccountID job)) @ snd (computeDeviation f env (pj_AccountID job) amount) @
     snd (getFraudReport f env (fraud_request f env amount job))"
  by (simp add: Analyze_def fraud_request_def Let_def split: prod.split)

lemma velocity_events: "snd (computeVelocity env a) = [RedisIncrExpire (''fraud:velocity:'' @ en_uuid_string env a) VelocityWindow]"
  by (simp add: computeVelocity_def Let_def)

lemma deviation_events:
  "e \<in> set (snd (computeDeviation f env a amount)) \<Longrightarrow> \<exists>k v. e = RedisSet k v DeviationCacheTTL"
  by (auto simp: computeDeviation_def Let_def split: sum.splits if_splits)

lemma ml_exchange_Inr:
  "fst (ml_exchange f env req) = Inr r \<Longrightarrow> ml_answer env req = Some r \<and> HttpPost (fd_fraudMLAddr f) req \<in> set (snd (ml_exchange f env req))"
  by (auto simp: ml_exchange_def ml_answer_def marshal_request_def split: sum.splits option.splits if_splits)

lemma ml_exchange_events: "snd (ml_exchange f env req) \<in> {[], [HttpPost (fd_fraudMLAddr f) req]}"
  by (auto simp: ml_exchange_def marshal_request_def split: sum.splits option.splits)

lemma report_Inr:
  "fst (getFraudReport f env req) = Inr r \<Longrightarrow> ml_answer env req = Some r \<and>
     HttpPost (fd_fraudMLAddr f) req \<in> set (snd (getFraudReport f env req))"
  by (auto simp: getFraudReport_def dest: ml_exchange_Inr split: option.splits if_splits)

lemma report_events:
  "snd (getFraudReport f env req) \<in> {[Reserve], [Reserve, CancelReservation], [Reserve, HttpPost (fd_fraudMLAddr f) req]}"
  using ml_exchange_events [of f env req] by (auto simp: getFraudReport_def split: option.splits if_splits)

lemma Analyze_retry_iff_unknown:
  "fs_IsEligibleForRetry (fst (Analyze f env amount job)) \<longleftrightarrow> fs_FraudFlag (fst (Analyze f env amount job)) = FraudFlagUnknown"
  by (cases "en_ctx_done env") (auto simp: Analyze_cancelled Analyze_status split: sum.split)

lemma Analyze_verdict:
  assumes "fs_FraudFlag (fst (Analyze f env amount job)) \<noteq> FraudFlagUnknown"
  shows "\<exists>r. ml_answer env (fraud_request f env amount job) = Some r \<and>
     HttpPost (fd_fraudMLAddr f) (fraud_request f env amount job) \<in> set (snd (Analyze f env amount job)) \<and>
     ps_IsFraud r = (fs_FraudFlag (fst (Analyze f env amount job)) = FraudFlagSuspicious)"
proof -
  have nc: "\<not> en_ctx_done env" using assms by (auto simp: Analyze_cancelled)
  obtain r where r: "fst (getFraudReport f env (fraud_request f env amount job)) = Inr r"
    using assms by (cases "fst (getFraudReport f env (fraud_request f env amount job))") (auto simp: Analyze_status nc)
  show ?thesis using report_Inr [OF r] by (auto simp: Analyze_status Analyze_events nc r)
qed

text \<open>
  Property C31. The detector fails closed. It reports a payment clean or suspicious only when the
  scoring service was asked about exactly this amount, answered with status 200 and a body that
  decodes, and said so; in every other case (cancelled context, throttling, transport error,
  another status, an undecodable body, an unencodable feature) the verdict is unknown, and
  unknown is the verdict that is eligible for a retry, no other.
\<close>

theorem fraud_verdict_from_ml_only:
  "(fs_IsEligibleForRetry (fst (Analyze f env amount job)) \<longleftrightarrow>
      fs_FraudFlag (fst (Analyze f env amount job)) = FraudFlagUnknown) \<and>
   (fs_FraudFlag (fst (Analyze f env amount job)) = FraudFlagUnknown \<or>
    (\<exists>req resp r. HttpPost (fd_fraudMLAddr f) req \<in> set (snd (Analyze f env amount job)) \<and>
       pr_Amount req = amount \<and> en_do env req = Inr resp \<and> hr_StatusCode resp = 200 \<and>
       en_decode env (hr_Body resp) = Inr r \<and>
       fs_FraudFlag (fst (Analyze f env amount job)) = (if ps_IsFraud r then FraudFlagSuspicious else FraudFlagClean)))"
proof (cases "fs_FraudFlag (fst (Analyze f env amount job)) = FraudFlagUnknown")
  case True
  then show ?thesis by (simp add: Analyze_retry_iff_unknown)
next
  case False
  let ?req = "fraud_request f env amount job"
  obtain r where r: "ml_answer env ?req = Some r"
    "HttpPost (fd_fraudMLAddr f) ?req \<in> set (snd (Analyze f env amount job))"
    "ps_IsFraud r = (fs_FraudFlag (fst (Analyze f env amount job)) = FraudFlagSuspicious)"
    using Analyze_verdict [OF False] by blast
  then obtain resp where "en_do env ?req = Inr resp" "hr_StatusCode resp = 200" "en_decode env (hr_Body resp) = Inr r"
    by (auto simp: ml_answer_def split: sum.splits if_splits)
  moreover have "fs_FraudFlag (fst (Analyze f env amount job)) = (if ps_IsFraud r then FraudFlagSuspicious else FraudFlagClean)"
    using r(3) False by (cases "fs_FraudFlag (fst (Analyze f env amount job))") auto
  moreover have "pr_Amount ?req = amount" by (simp add: fraud_request_def)
  ultimately show ?thesis using r(2) by (auto simp: Analyze_retry_iff_unknown)
qed

text \<open>
  One analysis takes at most one token from the rate limiter and sends at most one
  request, the request with the velocity counter (1 when Redis failed) and the relative
  deviation (0 when it could not be computed); when it gives its token back it sends none.
\<close>

theorem fraud_one_request_per_token:
  "length (filter is_post (snd (Analyze f env amount job))) +
     length (filter ((=) CancelReservation) (snd (Analyze f env amount job)))
       \<le> length (filter ((=) Reserve) (snd (Analyze f env amount job))) \<and>
   length (filter ((=) Reserve) (snd (Analyze f env amount job))) \<le> 1 \<and>
   {e \<in> set (snd (Analyze f env amount job)). is_post e} \<subseteq> {HttpPost (fd_fraudMLAddr f)
      \<lparr>pr_Amount = amount,
       pr_TransactionVelocity = (case en_incr env of Inl err \<Rightarrow> 1 | Inr n \<Rightarrow> n),
       pr_AmountDeviation = (case fst (computeDeviation f env (pj_AccountID job) amount) of Inl err \<Rightarrow> f64_zero | Inr x \<Rightarrow> x)\<rparr>}"
proof (cases "en_ctx_done env")
  case True
  then show ?thesis by (simp add: Analyze_cancelled)
next
  case False
  let ?req = "fraud_request f env amount job"
  have dev: "filter is_post (snd (computeDeviation f env (pj_AccountID job) amount)) = []"
    "filter ((=) Reserve) (snd (computeDeviation f env (pj_AccountID job) amount)) = []"
    "filter ((=) CancelReservation) (snd (computeDeviation f env (pj_AccountID job) amount)) = []"
    by (fastforce simp: filter_empty_conv dest: deviation_events)+
  have vel: "?req = \<lparr>pr_Amount = amount, pr_TransactionVelocity = (case en_incr env of Inl err \<Rightarrow> 1 | Inr n \<Rightarrow> n),
       pr_AmountDeviation = (case fst (computeDeviation f env (pj_AccountID job) amount) of Inl err \<Rightarrow> f64_zero | Inr x \<Rightarrow> x)\<rparr>"
    by (simp add: fraud_request_def computeVelocity_def Let_def)
  have dev': "{e \<in> set (snd (computeDeviation f env (pj_AccountID job) amount)). is_post e} = {}"
    by (auto dest: deviation_events)
  consider "snd (getFraudReport f env ?req) = [Reserve]" | "snd (getFraudReport f env ?req) = [Reserve, CancelReservation]"
    | "snd (getFraudReport f env ?req) = [Reserve, HttpPost (fd_fraudMLAddr f) ?req]"
    using report_events [of f env ?req] by blast
  then show ?thesis
    by cases (use dev dev' in \<open>auto simp: Analyze_events False velocity_events simp flip: vel\<close>)
qed

end
