(* ===== verification/Payment.thy ===== *)
theory Payment
  imports Fraud
begin

text \<open>
  \<open>services/payment-worker/internal/services/payment_service.go\<close>. One call of
  \<open>ProcessPayment\<close> runs against the tables of the primary and against \<open>PayEnv\<close>, the answers of
  everything outside: Redis, the database connection, the reader, the context, the random
  source, the clock and (\<open>pe_fraud\<close>) the world of the fraud detector. It returns the error (or
  nil), the tables of the primary afterwards, and the trace of its effects in order.

  \<open>PayState\<close> is the open transaction and the trace. The two deferred calls run last in, first
  out: the lock is deleted before the transaction commits. A send on the unbuffered retry
  channel is taken to be received. The tables of the primary are those at \<open>Begin\<close>: what other
  workers commit meanwhile is the subject of theory \<open>Concurrent_Payments\<close>.
\<close>

datatype pay_event =
    LockSetNX string duration
  | TxBegin
  | StatusUpdate uuid OrderStatus string
  | RetrySend PaymentJob
  | FraudStart float64
  | FraudDone "fraud_event list"
  | BalanceUpdate Account
  | CacheSet string string duration
  | LockDel string
  | TxCommit "go_error option"

record PaymentProcessor =
  pp_FraudDetector :: FraudDetector
  pp_EncryptionKey :: "byte list"

record PayEnv =
  pe_setnx :: "bool result"
  pe_begin :: "go_error option"
  pe_reader :: Tables
  pe_find_fault :: "go_error option"
  pe_fraud :: FraudEnv
  pe_ctx_done :: "go_error option"
  pe_nonce_balance :: "byte list result"
  pe_nonce_avg :: "byte list result"
  pe_update_fault :: "go_error option"
  pe_status_fault :: "go_error option"
  pe_commit :: "go_error option"
  pe_now :: time
  pe_uuid_string :: "uuid \<Rightarrow> string"

record PayState =
  st_tx :: Tx
  st_trace :: "pay_event list"

record TransactionResult =
  tr_EligibleForRetry :: bool
  tr_Error :: "go_error option"

definition ErrInsufficientFunds :: go_error where
  "ErrInsufficientFunds = ErrorString ''insufficient funds''"

definition ErrFraudDetectionFailed :: go_error where
  "ErrFraudDetectionFailed = ErrorString ''fraud detection failed''"

definition ErrSuspiciousTransaction :: go_error where
  "ErrSuspiciousTransaction = ErrorString ''suspicious transaction detected''"

definition emit :: "pay_event \<Rightarrow> PayState \<Rightarrow> PayState" where
  "emit e s = s\<lparr>st_trace := st_trace s @ [e]\<rparr>"

definition updateOrderStatus :: "PayEnv \<Rightarrow> uuid \<Rightarrow> OrderStatus \<Rightarrow> string \<Rightarrow> PayState \<Rightarrow> PayState" where
  "updateOrderStatus env key status message s =
     (let (affectedRows, tx) = tx_Exec (pe_status_fault env) (UpdateStatus (pe_now env) key status message) (st_tx s)
      in emit (StatusUpdate key status message) (s\<lparr>st_tx := tx\<rparr>))"

definition checkAccountBalance ::
  "PaymentProcessor \<Rightarrow> PayEnv \<Rightarrow> PaymentJob \<Rightarrow> float64 \<Rightarrow> PayState \<Rightarrow> (Account \<times> float64) result \<times> PayState" where
  "checkAccountBalance p env job transactionAmount s =
     (case FindByID (pe_uuid_string env) (pe_find_fault env) (pj_AccountID job) (pe_reader env) of
        Inl err \<Rightarrow> (Inl err, updateOrderStatus env (pj_IdempotencyKey job) OrderStatusFailed ''Account not found'' s)
      | Inr account \<Rightarrow>
          (case DecryptToFloat64 (ac_Balance account) (pp_EncryptionKey p) of
             Inl err \<Rightarrow> (Inl err, updateOrderStatus env (pj_IdempotencyKey job) OrderStatusFailed ''Balance decryption failed'' s)
           | Inr balance \<Rightarrow>
               if f64_lt (f64_sub balance transactionAmount) f64_zero
               then (Inl ErrInsufficientFunds,
                     updateOrderStatus env (pj_IdempotencyKey job) OrderStatusFailed ''Insufficient funds'' s)
               else (Inr (account, balance), s)))"

definition handleFraudResult ::
  "PayEnv \<Rightarrow> PaymentJob \<Rightarrow> FraudStatus \<Rightarrow> PayState \<Rightarrow> go_error option \<times> PayState" where
  "handleFraudResult env job fraudStatus s =
     (if fs_FraudFlag fraudStatus = FraudFlagClean then (None, s)
      else if fs_IsEligibleForRetry fraudStatus
      then (Some ErrFraudDetectionFailed,
            emit (RetrySend job) (updateOrderStatus env (pj_IdempotencyKey job) OrderStatusRetrying
              ''Failed due to fraud detection failure'' s))
      else (Some ErrSuspiciousTransaction,
            updateOrderStatus env (pj_IdempotencyKey job) OrderStatusFailed ''Suspicious transaction detected'' s))"

definition processTransaction :: "PayEnv \<Rightarrow> TransactionResult" where
  "processTransaction env =
     (case pe_ctx_done env of
        Some err \<Rightarrow> \<lparr>tr_EligibleForRetry = True, tr_Error = Some err\<rparr>
      | None \<Rightarrow> \<lparr>tr_EligibleForRetry = False, tr_Error = None\<rparr>)"

definition handleTransactionResult ::
  "PayEnv \<Rightarrow> PaymentJob \<Rightarrow> TransactionResult \<Rightarrow> PayState \<Rightarrow> go_error option \<times> PayState" where
  "handleTransactionResult env job result s =
     (case tr_Error result of
        None \<Rightarrow> (None, s)
      | Some err \<Rightarrow>
          if tr_EligibleForRetry result
          then (Some err, updateOrderStatus env (pj_IdempotencyKey job) OrderStatusRetrying
                 ''Retrying due to transient failure'' (emit (RetrySend job) s))
          else (Some err, updateOrderStatus env (pj_IdempotencyKey job) OrderStatusFailed
                 ''Non-retryable failure occurred'' s))"

text \<open>The account row \<open>UpdateBalanceAvgCount\<close> computes, and the new average it caches.\<close>

definition debited_account ::
  "PaymentProcessor \<Rightarrow> PayEnv \<Rightarrow> Account \<Rightarrow> float64 \<Rightarrow> float64 \<Rightarrow> (Account \<times> float64) result" where
  "debited_account p env account accountBalance transactionAmount =
     (let newBalance = f64_sub accountBalance transactionAmount
      in case EncryptAES (pe_nonce_balance env) (Float64ToByte newBalance) (pp_EncryptionKey p) of
        Inl err \<Rightarrow> Inl (WrapError ''failed to encrypt new balance'' err)
      | Inr encryptedBalance \<Rightarrow>
          (let count = wrap64 (ac_OrderCount account + 1)
           in case DecryptToFloat64 (ac_AvgOrderAmount account) (pp_EncryptionKey p) of
             Inl err \<Rightarrow> Inl (WrapError ''failed to decrypt avg order amount'' err)
           | Inr avgOrderAmount \<Rightarrow>
               (let newAvg = f64_div (f64_add (f64_mul avgOrderAmount (f64_of_int (ac_OrderCount account))) transactionAmount)
                               (f64_of_int count)
                in case EncryptAES (pe_nonce_avg env) (Float64ToByte newAvg) (pp_EncryptionKey p) of
                  Inl err \<Rightarrow> Inl (WrapError ''failed to encrypt new avg order amount'' err)
                | Inr newAvgEnc \<Rightarrow>
                    Inr (account\<lparr>ac_Balance := encryptedBalance, ac_OrderCount := count, ac_AvgOrderAmount := newAvgEnc\<rparr>, newAvg))))"

definition UpdateBalanceAvgCount ::
  "PaymentProcessor \<Rightarrow> PayEnv \<Rightarrow> Account \<Rightarrow> float64 \<Rightarrow> float64 \<Rightarrow> PayState \<Rightarrow> go_error option \<times> PayState" where
  "UpdateBalanceAvgCount p env account accountBalance transactionAmount s =
     (case debited_account p env account accountBalance transactionAmount of
        Inl err \<Rightarrow> (Some err, s)
      | Inr (account', newAvg) \<Rightarrow>
          (case tx_Exec (pe_update_fault env) (UpdateBalanceCountAvgByAccountID (pe_now env) account') (st_tx s) of
             (Inl err, tx) \<Rightarrow> (Some err, emit (BalanceUpdate account') (s\<lparr>st_tx := tx\<rparr>))
           | (Inr affectedRows, tx) \<Rightarrow>
               (None, emit (CacheSet (GetDeviationRedisKey (pe_uuid_string env) (ac_ID account')) (fmt_f 6 newAvg) DeviationCacheTTL)
                        (emit (BalanceUpdate account') (s\<lparr>st_tx := tx\<rparr>)))))"

text \<open>The part of \<open>ProcessPayment\<close> under the lock, from the decryption of the amount to the end.\<close>

definition process_locked ::
  "PaymentProcessor \<Rightarrow> PayEnv \<Rightarrow> PaymentJob \<Rightarrow> PayState \<Rightarrow> go_error option \<times> PayState" where
  "process_locked p env job s =
     (case DecryptToFloat64 (pj_Amount job) (pp_EncryptionKey p) of
        Inl err \<Rightarrow> (Some err, updateOrderStatus env (pj_IdempotencyKey job) OrderStatusFailed
                      ''Decryption of transaction amount failed'' s)
      | Inr transactionAmount \<Rightarrow>
          (case checkAccountBalance p env job transactionAmount (emit (FraudStart transactionAmount) s) of
             (Inl err, s) \<Rightarrow> (Some err, s)
           | (Inr (account, accountBalance), s) \<Rightarrow>
               (let (fraudStatus, evs) = Analyze (pp_FraudDetector p) (pe_fraud env) transactionAmount job
                in case handleFraudResult env job fraudStatus (emit (FraudDone evs) s) of
                  (Some err, s) \<Rightarrow> (Some err, s)
                | (None, s) \<Rightarrow>
                    (case handleTransactionResult env job (processTransaction env) s of
                       (Some err, s) \<Rightarrow> (Some err, s)
                     | (None, s) \<Rightarrow>
                         (case UpdateBalanceAvgCount p env account accountBalance transactionAmount s of
                            (Some err, s) \<Rightarrow> (Some err, updateOrderStatus env (pj_IdempotencyKey job)
                                OrderStatusFailed ''Balance update failed'' s)
                          | (None, s) \<Rightarrow> (None, updateOrderStatus env (pj_IdempotencyKey job)
                                OrderStatusSuccess ''Payment completed successfully'' s))))))"

definition process_unlocked :: "PayEnv \<Rightarrow> PaymentJob \<Rightarrow> PayState \<Rightarrow> go_error option \<times> PayState" where
  "process_unlocked env job s =
     (Some (ErrorString ''account locked by another process''),
      emit (RetrySend job) (updateOrderStatus env (pj_IdempotencyKey job) OrderStatusRetrying
        ''Account locked by another process'' s))"

definition lock_key :: "PayEnv \<Rightarrow> PaymentJob \<Rightarrow> string" where
  "lock_key env job = ''lock:account:'' @ pe_uuid_string env (pj_AccountID job)"

definition ProcessPayment ::
  "PaymentProcessor \<Rightarrow> PayEnv \<Rightarrow> PaymentJob \<Rightarrow> Tables \<Rightarrow> go_error option \<times> Tables \<times> pay_event list" where
  "ProcessPayment p env job primary =
     (let lockKey = lock_key env job; e1 = LockSetNX lockKey (20 * Second)
      in case pe_setnx env of
        Inl err \<Rightarrow> (Some err, primary, [e1])
      | Inr locked \<Rightarrow>
          (case pe_begin env of
             Some err \<Rightarrow> (Some err, primary, [e1, TxBegin])
           | None \<Rightarrow>
               (let s0 = \<lparr>st_tx = Begin primary, st_trace = [e1, TxBegin]\<rparr>;
                    (err, s) = (if \<not> locked then process_unlocked env job s0
                                else map_prod id (emit (LockDel lockKey)) (process_locked p env job s0));
                    (commitErr, t) = Commit (pe_commit env) (st_tx s) primary
                in (err, t, st_trace s @ [TxCommit commitErr]))))"

subsection \<open>The decision, abstractly\<close>

text \<open>
  What a worker that holds the lock decides about a job, without transaction, trace or faults of
  the database: refuse it with an error and a message, have it retried, or debit the account
  whose new row (and average) is given.
\<close>

datatype decision =
    Reject go_error string
  | Retry go_error string
  | Debit Account float64

definition decide :: "PaymentProcessor \<Rightarrow> PayEnv \<Rightarrow> PaymentJob \<Rightarrow> decision" where
  "decide p env job =
     (case DecryptToFloat64 (pj_Amount job) (pp_EncryptionKey p) of
        Inl err \<Rightarrow> Reject err ''Decryption of transaction amount failed''
      | Inr amount \<Rightarrow>
     (case FindByID (pe_uuid_string env) (pe_find_fault env) (pj_AccountID job) (pe_reader env) of
        Inl err \<Rightarrow> Reject err ''Account not found''
      | Inr account \<Rightarrow>
     (case DecryptToFloat64 (ac_Balance account) (pp_EncryptionKey p) of
        Inl err \<Rightarrow> Reject err ''Balance decryption failed''
      | Inr balance \<Rightarrow>
          if f64_lt (f64_sub balance amount) f64_zero then Reject ErrInsufficientFunds ''Insufficient funds''
          else (case fs_FraudFlag (fst (Analyze (pp_FraudDetector p) (pe_fraud env) amount job)) of
            FraudFlagSuspicious \<Rightarrow> Reject ErrSuspiciousTransaction ''Suspicious transaction detected''
          | FraudFlagUnknown \<Rightarrow> Retry ErrFraudDetectionFailed ''Failed due to fraud detection failure''
          | FraudFlagClean \<Rightarrow>
              (case pe_ctx_done env of
                 Some err \<Rightarrow> Retry err ''Retrying due to transient failure''
               | None \<Rightarrow>
                   (case debited_account p env account balance amount of
                      Inl err \<Rightarrow> Reject err ''Balance update failed''
                    | Inr (account', newAvg) \<Rightarrow> Debit account' newAvg))))))"

text \<open>The events of the fraud analysis: started after decryption, awaited after the balance check.\<close>

definition fraud_trace :: "PaymentProcessor \<Rightarrow> PayEnv \<Rightarrow> PaymentJob \<Rightarrow> pay_event list" where
  "fraud_trace p env job =
     (case DecryptToFloat64 (pj_Amount job) (pp_EncryptionKey p) of
        Inl err \<Rightarrow> []
      | Inr amount \<Rightarrow> FraudStart amount #
          (case fst (checkAccountBalance p env job amount \<lparr>st_tx = Begin (pe_reader env), st_trace = []\<rparr>) of
             Inl err \<Rightarrow> []
           | Inr _ \<Rightarrow> [FraudDone (snd (Analyze (pp_FraudDetector p) (pe_fraud env) amount job))]))"

definition status_tx :: "PayEnv \<Rightarrow> uuid \<Rightarrow> OrderStatus \<Rightarrow> string \<Rightarrow> Tx \<Rightarrow> Tx" where
  "status_tx env key status message tx =
     snd (tx_Exec (pe_status_fault env) (UpdateStatus (pe_now env) key status message) tx)"

lemma updateOrderStatus_simps [simp]:
  "st_tx (updateOrderStatus env key status m s) = status_tx env key status m (st_tx s)"
  "st_trace (updateOrderStatus env key status m s) = st_trace s @ [StatusUpdate key status m]"
  by (simp_all add: updateOrderStatus_def emit_def status_tx_def split: prod.split)

lemma emit_simps [simp]:
  "st_tx (emit e s) = st_tx s" "st_trace (emit e s) = st_trace s @ [e]"
  by (simp_all add: emit_def)

definition debit_locked ::
  "PayEnv \<Rightarrow> PaymentJob \<Rightarrow> Account \<Rightarrow> float64 \<Rightarrow> PayState \<Rightarrow> go_error option \<times> PayState" where
  "debit_locked env job account' newAvg s =
     (case tx_Exec (pe_update_fault env) (UpdateBalanceCountAvgByAccountID (pe_now env) account') (st_tx s) of
        (Inl err, tx) \<Rightarrow> (Some err, updateOrderStatus env (pj_IdempotencyKey job) OrderStatusFailed ''Balance update failed''
            (emit (BalanceUpdate account') (s\<lparr>st_tx := tx\<rparr>)))
      | (Inr n, tx) \<Rightarrow> (None, updateOrderStatus env (pj_IdempotencyKey job) OrderStatusSuccess ''Payment completed successfully''
            (emit (CacheSet (GetDeviationRedisKey (pe_uuid_string env) (ac_ID account')) (fmt_f 6 newAvg) DeviationCacheTTL)
              (emit (BalanceUpdate account') (s\<lparr>st_tx := tx\<rparr>)))))"

text \<open>
  The steps that carry out a decision; a retry because of the fraud detector records the status
  before it sends the job, one because of the context after.
\<close>

fun carry_out :: "PayEnv \<Rightarrow> PaymentJob \<Rightarrow> decision \<Rightarrow> PayState \<Rightarrow> go_error option \<times> PayState" where
  "carry_out env job (Reject err m) s =
     (Some err, updateOrderStatus env (pj_IdempotencyKey job) OrderStatusFailed m s)"
| "carry_out env job (Retry err m) s =
     (Some err,
      if m = ''Failed due to fraud detection failure''
      then emit (RetrySend job) (updateOrderStatus env (pj_IdempotencyKey job) OrderStatusRetrying m s)
      else updateOrderStatus env (pj_IdempotencyKey job) OrderStatusRetrying m (emit (RetrySend job) s))"
| "carry_out env job (Debit acc avg) s = debit_locked env job acc avg s"

lemma checkAccountBalance_fst:
  "fst (checkAccountBalance p env job a s) = fst (checkAccountBalance p env job a s')"
  by (simp add: checkAccountBalance_def split: sum.split)

text \<open>The locked part of the code carries out the decision.\<close>

lemma process_locked_decide:
  "\<exists>s1. st_tx s1 = st_tx s \<and> st_trace s1 = st_trace s @ fraud_trace p env job \<and>
     process_locked p env job s = carry_out env job (decide p env job) s1"
proof (cases "DecryptToFloat64 (pj_Amount job) (pp_EncryptionKey p)")
  case (Inl e)
  then show ?thesis by (intro exI [of _ s]) (simp add: process_locked_def decide_def fraud_trace_def)
next
  case (Inr amount)
  note a = Inr
  let ?s = "emit (FraudStart amount) s"
  show ?thesis
  proof (cases "fst (checkAccountBalance p env job amount ?s)")
    case (Inl e)
    moreover have "fst (checkAccountBalance p env job amount \<lparr>st_tx = Begin (pe_reader env), st_trace = []\<rparr>) = Inl e"
      using Inl checkAccountBalance_fst by metis
    ultimately show ?thesis
      by (intro exI [of _ ?s])
        (auto simp: process_locked_def decide_def fraud_trace_def a checkAccountBalance_def split: sum.splits if_splits)
  next
    case (Inr r)
    then obtain acc bal where r: "r = (acc, bal)"
      and acc: "FindByID (pe_uuid_string env) (pe_find_fault env) (pj_AccountID job) (pe_reader env) = Inr acc"
      and bal: "DecryptToFloat64 (ac_Balance acc) (pp_EncryptionKey p) = Inr bal"
      and suff: "\<not> f64_lt (f64_sub bal amount) f64_zero"
      by (auto simp: checkAccountBalance_def split: sum.splits if_splits)
    let ?A = "Analyze (pp_FraudDetector p) (pe_fraud env) amount job"
    let ?s1 = "emit (FraudDone (snd ?A)) ?s"
    have chk: "checkAccountBalance p env job amount s' = (Inr (acc, bal), s')" for s'
      by (simp add: checkAccountBalance_def acc bal suff)
    obtain fs evs where A: "?A = (fs, evs)" by fastforce
    have retry: "fs_IsEligibleForRetry fs \<longleftrightarrow> fs_FraudFlag fs = FraudFlagUnknown"
      using Analyze_retry_iff_unknown [of "pp_FraudDetector p" "pe_fraud env" amount job] by (simp add: A)
    show ?thesis
      by (intro exI [of _ ?s1], cases "fs_FraudFlag fs"; cases "pe_ctx_done env"; cases "debited_account p env acc bal amount")
        (auto simp: process_locked_def decide_def fraud_trace_def a chk acc bal suff A retry handleFraudResult_def
          processTransaction_def handleTransactionResult_def UpdateBalanceAvgCount_def debit_locked_def
          split: sum.split prod.split)
  qed
qed

subsection \<open>The effect on the tables\<close>

definition set_status :: "time \<Rightarrow> uuid \<Rightarrow> OrderStatus \<Rightarrow> string \<Rightarrow> Tables \<Rightarrow> Tables" where
  "set_status now key status message t =
     t\<lparr>t_orders := map (\<lambda>o'. if or_IdempotencyKey o' = key
        then o'\<lparr>or_Status := status, or_Message := message, or_UpdatedAt := now\<rparr> else o') (t_orders t)\<rparr>"

definition debit_tables :: "time \<Rightarrow> Account \<Rightarrow> Tables \<Rightarrow> Tables" where
  "debit_tables now account t = t\<lparr>t_accounts := map (set_account now account) (t_accounts t)\<rparr>"

fun settle :: "time \<Rightarrow> uuid \<Rightarrow> decision \<Rightarrow> Tables \<Rightarrow> Tables" where
  "settle now key (Reject err m) t = set_status now key OrderStatusFailed m t"
| "settle now key (Retry err m) t = set_status now key OrderStatusRetrying m t"
| "settle now key (Debit acc avg) t =
     set_status now key OrderStatusSuccess ''Payment completed successfully'' (debit_tables now acc t)"

fun decision_error :: "decision \<Rightarrow> go_error option" where
  "decision_error (Reject err m) = Some err"
| "decision_error (Retry err m) = Some err"
| "decision_error (Debit acc avg) = None"

fun is_retry :: "decision \<Rightarrow> bool" where
  "is_retry (Retry err m) = True"
| "is_retry _ = False"

fun is_debit :: "decision \<Rightarrow> bool" where
  "is_debit (Debit acc avg) = True"
| "is_debit _ = False"

lemma set_status_accounts [simp]: "t_accounts (set_status now key st m t) = t_accounts t"
  by (simp add: set_status_def)

lemma debit_tables_orders [simp]: "t_orders (debit_tables now acc t) = t_orders t"
  by (simp add: debit_tables_def)

lemma UpdateStatus_short:
  "length m \<le> 200 \<Longrightarrow> \<exists>n. UpdateStatus now key st m t = Inr (set_status now key st m t, n)"
  by (simp add: UpdateStatus_def set_status_def)

lemma UpdateBalance_debit:
  "int4_ok (ac_OrderCount acc) \<Longrightarrow> \<exists>n. UpdateBalanceCountAvgByAccountID now acc t = Inr (debit_tables now acc t, n)"
  by (simp add: UpdateBalanceCountAvgByAccountID_def debit_tables_def)

text \<open>After a status update the transaction is aborted or has exactly that change added.\<close>

lemma status_tx_view:
  assumes "length m \<le> 200" "\<not> tx_aborted tx"
  shows "pe_status_fault env = None \<Longrightarrow>
      status_tx env key st m tx = tx\<lparr>tx_view := set_status (pe_now env) key st m (tx_view tx)\<rparr>"
    and "pe_status_fault env = Some e \<Longrightarrow> tx_aborted (status_tx env key st m tx)"
proof -
  obtain n where "UpdateStatus (pe_now env) key st m (tx_view tx) = Inr (set_status (pe_now env) key st m (tx_view tx), n)"
    using UpdateStatus_short [OF assms(1)] by blast
  then show "pe_status_fault env = None \<Longrightarrow>
      status_tx env key st m tx = tx\<lparr>tx_view := set_status (pe_now env) key st m (tx_view tx)\<rparr>"
    using assms(2) by (simp add: status_tx_def tx_Exec_def)
  show "pe_status_fault env = Some e \<Longrightarrow> tx_aborted (status_tx env key st m tx)"
    using assms(2) by (simp add: status_tx_def tx_Exec_def)
qed

lemma status_tx_aborted: "tx_aborted tx \<Longrightarrow> status_tx env key st m tx = tx"
  by (simp add: status_tx_def tx_Exec_def)

lemma Commit_status_tx:
  assumes "length m \<le> 200"
  shows "snd (Commit c (status_tx env key st m tx) t) \<in> {t, set_status (pe_now env) key st m (tx_view tx)}"
proof (cases "tx_aborted tx")
  case True
  then show ?thesis by (simp add: status_tx_aborted Commit_def)
next
  case False
  then show ?thesis
    using status_tx_view [OF assms False, where env = env and key = key and st = st]
    by (cases "pe_status_fault env"; cases c) (auto simp: Commit_def)
qed

lemma decide_message:
  "decide p env job = Reject err m \<or> decide p env job = Retry err m \<Longrightarrow> length m \<le> 200"
  by (auto simp: decide_def split: sum.splits if_splits FraudFlag.splits option.splits)

text \<open>The account update either succeeds, aborts the transaction, or is refused by the driver.\<close>

lemma debit_exec_cases:
  assumes "\<not> tx_aborted tx"
  obtains n where "pe_update_fault env = None" "int4_ok (ac_OrderCount acc)"
      "tx_Exec (pe_update_fault env) (UpdateBalanceCountAvgByAccountID (pe_now env) acc) tx =
        (Inr n, tx\<lparr>tx_view := debit_tables (pe_now env) acc (tx_view tx)\<rparr>)"
    | e tx' where "pe_update_fault env \<noteq> None \<or> \<not> int4_ok (ac_OrderCount acc)"
      "tx_Exec (pe_update_fault env) (UpdateBalanceCountAvgByAccountID (pe_now env) acc) tx = (Inl e, tx')"
      "tx_view tx' = tx_view tx"
proof (cases "pe_update_fault env")
  case (Some e)
  then show ?thesis using assms that(2) [of e "tx\<lparr>tx_aborted := True\<rparr>"] by (simp add: tx_Exec_def)
next
  case None
  show ?thesis
  proof (cases "int4_ok (ac_OrderCount acc)")
    case True
    then obtain n where "UpdateBalanceCountAvgByAccountID (pe_now env) acc (tx_view tx) =
        Inr (debit_tables (pe_now env) acc (tx_view tx), n)"
      using UpdateBalance_debit by blast
    then show ?thesis using that(1) None True assms by (simp add: tx_Exec_def)
  next
    case False
    then have "UpdateBalanceCountAvgByAccountID (pe_now env) acc (tx_view tx) = Inl ErrInt4"
      by (simp add: UpdateBalanceCountAvgByAccountID_def)
    then show ?thesis using that(2) None False assms by (simp add: tx_Exec_def)
  qed
qed

text \<open>The three shapes of a call, by what Redis and \<open>Begin\<close> answered.\<close>

lemma ProcessPayment_lock_error:
  "pe_setnx env = Inl err \<Longrightarrow> ProcessPayment p env job t = (Some err, t, [LockSetNX (lock_key env job) (20 * Second)])"
  by (simp add: ProcessPayment_def Let_def)

lemma ProcessPayment_begin_error:
  "pe_setnx env = Inr l \<Longrightarrow> pe_begin env = Some err \<Longrightarrow>
   ProcessPayment p env job t = (Some err, t, [LockSetNX (lock_key env job) (20 * Second), TxBegin])"
  by (simp add: ProcessPayment_def Let_def)

lemma lock_cases:
  obtains (err) e where "pe_setnx env = Inl e" | (beg) l e where "pe_setnx env = Inr l" "pe_begin env = Some e"
    | (unl) "pe_setnx env = Inr False" "pe_begin env = None" | (lck) "pe_setnx env = Inr True" "pe_begin env = None"
  by (cases "pe_setnx env"; cases "pe_begin env") auto

abbreviation pay_start :: "PayEnv \<Rightarrow> PaymentJob \<Rightarrow> Tables \<Rightarrow> PayState" where
  "pay_start env job t \<equiv> \<lparr>st_tx = Begin t, st_trace = [LockSetNX (lock_key env job) (20 * Second), TxBegin]\<rparr>"

lemma ProcessPayment_unlocked:
  "pe_setnx env = Inr False \<Longrightarrow> pe_begin env = None \<Longrightarrow>
   ProcessPayment p env job t =
     (fst (process_unlocked env job (pay_start env job t)),
      snd (Commit (pe_commit env) (st_tx (snd (process_unlocked env job (pay_start env job t)))) t),
      st_trace (snd (process_unlocked env job (pay_start env job t))) @
        [TxCommit (fst (Commit (pe_commit env) (st_tx (snd (process_unlocked env job (pay_start env job t)))) t))])"
  by (simp add: ProcessPayment_def Let_def split: prod.split)

lemma ProcessPayment_locked:
  "pe_setnx env = Inr True \<Longrightarrow> pe_begin env = None \<Longrightarrow>
   ProcessPayment p env job t =
     (fst (process_locked p env job (pay_start env job t)),
      snd (Commit (pe_commit env) (st_tx (snd (process_locked p env job (pay_start env job t)))) t),
      st_trace (snd (process_locked p env job (pay_start env job t))) @ [LockDel (lock_key env job)] @
        [TxCommit (fst (Commit (pe_commit env) (st_tx (snd (process_locked p env job (pay_start env job t)))) t))])"
  by (cases "process_locked p env job (pay_start env job t)") (simp add: ProcessPayment_def Let_def split: prod.split)

subsection \<open>Correctness of the payment flow\<close>

fun is_send :: "pay_event \<Rightarrow> bool" where
  "is_send (RetrySend j) = True"
| "is_send _ = False"

definition count_fits :: "decision \<Rightarrow> bool" where
  "count_fits d = (case d of Debit acc avg \<Rightarrow> int4_ok (ac_OrderCount acc) | _ \<Rightarrow> True)"

lemma fraud_trace_quiet: "filter is_send (fraud_trace p env job) = []"
  by (simp add: fraud_trace_def split: sum.split)

lemma process_locked_sends:
  "filter is_send (st_trace (snd (process_locked p env job s))) =
   filter is_send (st_trace s) @ (if is_retry (decide p env job) then [RetrySend job] else [])"
proof -
  obtain s1 where s1: "st_trace s1 = st_trace s @ fraud_trace p env job"
    and eq: "process_locked p env job s = carry_out env job (decide p env job) s1"
    using process_locked_decide [of s p env job] by blast
  show ?thesis
    by (cases "decide p env job") (auto simp: eq s1 fraud_trace_quiet debit_locked_def split: prod.split sum.split)
qed

text \<open>The transaction a payment under the lock leaves to the commit.\<close>

lemma process_locked_tx:
  assumes "pe_status_fault env = None" "pe_update_fault env = None" "count_fits (decide p env job)"
  shows "fst (process_locked p env job (pay_start env job t)) = decision_error (decide p env job)"
    and "st_tx (snd (process_locked p env job (pay_start env job t))) =
      \<lparr>tx_view = settle (pe_now env) (pj_IdempotencyKey job) (decide p env job) t, tx_aborted = False\<rparr>"
proof -
  obtain s1 where s1: "st_tx s1 = Begin t"
    and eq: "process_locked p env job (pay_start env job t) = carry_out env job (decide p env job) s1"
    using process_locked_decide [of "pay_start env job t" p env job] by auto
  have na: "\<not> tx_aborted (Begin t)" by (simp add: Begin_def)
  have both: "fst (process_locked p env job (pay_start env job t)) = decision_error (decide p env job) \<and>
    st_tx (snd (process_locked p env job (pay_start env job t))) =
      \<lparr>tx_view = settle (pe_now env) (pj_IdempotencyKey job) (decide p env job) t, tx_aborted = False\<rparr>"
  proof (cases "decide p env job")
    case (Reject err m)
    then have "length m \<le> 200" using decide_message by blast
    then show ?thesis using status_tx_view(1) [OF _ na assms(1)] by (simp add: eq Reject s1) (simp add: Begin_def)
  next
    case (Retry err m)
    then have "length m \<le> 200" using decide_message by blast
    then show ?thesis using status_tx_view(1) [OF _ na assms(1)] by (simp add: eq Retry s1) (simp add: Begin_def)
  next
    case (Debit acc avg)
    then have i4: "int4_ok (ac_OrderCount acc)" using assms(3) by (simp add: count_fits_def)
    show ?thesis
    proof (rule debit_exec_cases [OF na, of env acc])
      fix n assume "tx_Exec (pe_update_fault env) (UpdateBalanceCountAvgByAccountID (pe_now env) acc) (Begin t) =
        (Inr n, (Begin t)\<lparr>tx_view := debit_tables (pe_now env) acc (tx_view (Begin t))\<rparr>)"
      then show ?thesis
        using status_tx_view(1) [where m = "''Payment completed successfully''" and tx = "(Begin t)\<lparr>tx_view := debit_tables (pe_now env) acc t\<rparr>", OF _ _ assms(1)]
        by (simp add: eq Debit debit_locked_def s1) (simp add: Begin_def)
    qed (use assms(2) i4 in auto)
  qed
  show "fst (process_locked p env job (pay_start env job t)) = decision_error (decide p env job)" using both by blast
  show "st_tx (snd (process_locked p env job (pay_start env job t))) =
      \<lparr>tx_view = settle (pe_now env) (pj_IdempotencyKey job) (decide p env job) t, tx_aborted = False\<rparr>" using both by blast
qed

lemma payment_carries_out_decision:
  assumes "pe_setnx env = Inr True" "pe_begin env = None" "pe_update_fault env = None"
    and "pe_status_fault env = None" "pe_commit env = None" "count_fits (decide p env job)"
  shows "fst (ProcessPayment p env job t) = decision_error (decide p env job) \<and>
    fst (snd (ProcessPayment p env job t)) = settle (pe_now env) (pj_IdempotencyKey job) (decide p env job) t"
  using process_locked_tx [OF assms(4,3,6), of t]
  by (simp add: ProcessPayment_locked [OF assms(1,2)] Commit_def assms(5))

text \<open>Nothing outside fails, the lock is free and the context stays open.\<close>

definition undisturbed :: "PayEnv \<Rightarrow> bool" where
  "undisturbed env \<longleftrightarrow> pe_setnx env = Inr True \<and> pe_begin env = None \<and> pe_find_fault env = None \<and>
     pe_ctx_done env = None \<and> pe_update_fault env = None \<and> pe_status_fault env = None \<and> pe_commit env = None"

text \<open>The random source delivers nonces of the 12 bytes the code asks for.\<close>

definition random_ok :: "PayEnv \<Rightarrow> bool" where
  "random_ok env \<longleftrightarrow> (case pe_nonce_balance env of Inl _ \<Rightarrow> False | Inr n \<Rightarrow> length n = 12) \<and>
     (case pe_nonce_avg env of Inl _ \<Rightarrow> False | Inr n \<Rightarrow> length n = 12)"

text \<open>The amount \<open>c\<close>, in cents, that a stored text holds.\<close>

definition holds_cents :: "byte list \<Rightarrow> string \<Rightarrow> nat \<Rightarrow> bool" where
  "holds_cents key text c \<longleftrightarrow> cents_ok c \<and> DecryptToFloat64 text key = Inr (dollars c)"

text \<open>A stored average that can be read back: finite, not negative, at most \<open>2 ^ 44\<close> dollars.\<close>

definition holds_average :: "byte list \<Rightarrow> string \<Rightarrow> bool" where
  "holds_average key text \<longleftrightarrow> (case DecryptToFloat64 text key of Inl err \<Rightarrow> False | Inr x \<Rightarrow> at_most 1 x)"

lemma stored_average:
  assumes "EncryptAES (Inr nonce) (Float64ToByte x) key = Inr c" "length nonce = 12" "at_most 1 x"
  shows "holds_average key c"
  by (rule at_most_text [OF assms(3)]) (simp add: holds_average_def DecryptToFloat64_encrypted [OF assms(1,2)] ToFloat64_def)

lemma debited_account_dollars:
  assumes "length (pp_EncryptionKey p) = 32" "random_ok env" "cents_ok a" "cents_ok b" "a \<le> b"
    and avg: "DecryptToFloat64 (ac_AvgOrderAmount acc) (pp_EncryptionKey p) = Inr v"
  obtains acc' newAvg where "debited_account p env acc (dollars b) (dollars a) = Inr (acc', newAvg)"
    "holds_cents (pp_EncryptionKey p) (ac_Balance acc') (b - a)"
    "ac_OrderCount acc' = wrap64 (ac_OrderCount acc + 1)" "ac_ID acc' = ac_ID acc"
    "0 \<le> ac_OrderCount acc \<Longrightarrow> ac_OrderCount acc + 1 < 2 ^ 31 \<Longrightarrow> at_most 1 v \<Longrightarrow>
       holds_average (pp_EncryptionKey p) (ac_AvgOrderAmount acc')"
proof -
  let ?k = "pp_EncryptionKey p"
  obtain n1 n2 where n: "pe_nonce_balance env = Inr n1" "pe_nonce_avg env = Inr n2" "length n1 = 12" "length n2 = 12"
    using assms(2) by (auto simp: random_ok_def split: sum.splits)
  obtain c1 where c1: "EncryptAES (Inr n1) (Float64ToByte (f64_sub (dollars b) (dollars a))) ?k = Inr c1"
    using aes_store.store_total [OF assms(1)] by blast
  have "DecryptToFloat64 c1 ?k = Inr (dollars (b - a))"
    by (rule aes_store.load_difference [OF n(3) c1 assms(3-5)])
  moreover have "cents_ok (b - a)" using assms(4) by (simp add: cents_ok_def)
  ultimately have h: "holds_cents ?k c1 (b - a)" by (simp add: holds_cents_def)
  have tot: "\<exists>c. EncryptAES (Inr n2) (Float64ToByte x) ?k = Inr c" for x
    using aes_store.store_total [OF assms(1)] by blast
  obtain c2 where c2: "EncryptAES (Inr n2) (Float64ToByte (f64_div (f64_add (f64_mul v (f64_of_int (ac_OrderCount acc))) (dollars a))
      (f64_of_int (wrap64 (ac_OrderCount acc + 1))))) ?k = Inr c2" using tot by blast
  have "holds_average ?k c2" if "0 \<le> ac_OrderCount acc" "ac_OrderCount acc + 1 < 2 ^ 31" "at_most 1 v"
    using stored_average [OF c2 n(4)] at_most_arith [OF that(3) dollars_at_most [OF assms(3)] that(1)] that
    by (simp add: wrap64_id int64_ok_def)
  then show ?thesis
    using that h c2 by (simp add: debited_account_def n c1 avg Let_def)
qed

text \<open>What the decision is when amount and balance are known in cents.\<close>

lemma decide_known:
  assumes "holds_cents (pp_EncryptionKey p) (pj_Amount job) a" "pe_find_fault env = None"
    and "FindByID (pe_uuid_string env) None (pj_AccountID job) (pe_reader env) = Inr acc"
    and "holds_cents (pp_EncryptionKey p) (ac_Balance acc) b"
  shows "decide p env job =
     (if b < a then Reject ErrInsufficientFunds ''Insufficient funds''
      else (case fs_FraudFlag (fst (Analyze (pp_FraudDetector p) (pe_fraud env) (dollars a) job)) of
            FraudFlagSuspicious \<Rightarrow> Reject ErrSuspiciousTransaction ''Suspicious transaction detected''
          | FraudFlagUnknown \<Rightarrow> Retry ErrFraudDetectionFailed ''Failed due to fraud detection failure''
          | FraudFlagClean \<Rightarrow>
              (case pe_ctx_done env of
                 Some err \<Rightarrow> Retry err ''Retrying due to transient failure''
               | None \<Rightarrow>
                   (case debited_account p env acc (dollars b) (dollars a) of
                      Inl err \<Rightarrow> Reject err ''Balance update failed''
                    | Inr (account', newAvg) \<Rightarrow> Debit account' newAvg))))"
  using assms dollars_sub_lt_zero [of a b] by (simp add: decide_def holds_cents_def)

lemma settle_debit_lookup:
  assumes "FindByID us None i t = Inr acc" "ac_ID acc' = ac_ID acc"
  shows "FindByID us None i (settle now key (Debit acc' avg) t) = Inr (set_account now acc' acc)"
    and "j \<noteq> i \<Longrightarrow> FindByID us None j (settle now key (Debit acc' avg) t) = FindByID us None j t"
proof -
  have i: "ac_ID acc = i" using FindByID_SomeD [OF assms(1)] by simp
  have acc: "t_accounts (debit_tables now acc' t) = map (set_account now acc') (t_accounts t)"
    by (simp add: debit_tables_def)
  show "FindByID us None i (settle now key (Debit acc' avg) t) = Inr (set_account now acc' acc)"
    using assms(1) by (auto simp: FindByID_def acc filter_set_account split: if_splits list.splits)
  have "map (set_account now acc') (filter (\<lambda>a. ac_ID a = j) xs) = filter (\<lambda>a. ac_ID a = j) xs" if "j \<noteq> i" for xs
    using that i assms(2) by (induction xs) (auto simp: set_account_def)
  then show "FindByID us None j (settle now key (Debit acc' avg) t) = FindByID us None j t" if "j \<noteq> i"
    using that by (simp add: FindByID_def acc filter_set_account)
qed

lemma set_status_row:
  assumes "o' \<in> set (t_orders (set_status now key st m t))" "or_IdempotencyKey o' = key"
  shows "or_Status o' = st"
proof -
  obtain x where "o' = (if or_IdempotencyKey x = key
      then x\<lparr>or_Status := st, or_Message := m, or_UpdatedAt := now\<rparr> else x)"
    using assms(1) by (force simp: set_status_def)
  then show ?thesis using assms(2) by (cases "or_IdempotencyKey x = key") simp_all
qed

lemma settle_statuses:
  "o' \<in> set (t_orders (settle now key d t)) \<Longrightarrow> or_IdempotencyKey o' = key \<Longrightarrow>
   or_Status o' = (case d of Reject err m \<Rightarrow> OrderStatusFailed | Retry err m \<Rightarrow> OrderStatusRetrying | Debit acc avg \<Rightarrow> OrderStatusSuccess)"
  by (cases d) (auto dest: set_status_row)

text \<open>The debit starts from the row that was read, whatever the primary holds by the time of the commit.\<close>

lemma payment_debits_read:
  assumes "undisturbed env" "random_ok env" "length (pp_EncryptionKey p) = 32"
    and "FindByID (pe_uuid_string env) None (pj_AccountID job) t = Inr row"
    and "holds_cents (pp_EncryptionKey p) (pj_Amount job) a"
    and "FindByID (pe_uuid_string env) None (pj_AccountID job) (pe_reader env) = Inr acc"
    and "holds_cents (pp_EncryptionKey p) (ac_Balance acc) b" "a \<le> b"
    and "DecryptToFloat64 (ac_AvgOrderAmount acc) (pp_EncryptionKey p) = Inr v"
    and "0 \<le> ac_OrderCount acc" "ac_OrderCount acc + 1 < 2 ^ 31"
    and "fs_FraudFlag (fst (Analyze (pp_FraudDetector p) (pe_fraud env) (dollars a) job)) = FraudFlagClean"
  shows "\<exists>t' tr acc'. ProcessPayment p env job t = (None, t', tr) \<and>
     FindByID (pe_uuid_string env) None (pj_AccountID job) t' = Inr acc' \<and>
     holds_cents (pp_EncryptionKey p) (ac_Balance acc') (b - a) \<and>
     ac_OrderCount acc' = ac_OrderCount acc + 1 \<and>
     (\<forall>i. i \<noteq> pj_AccountID job \<longrightarrow> FindByID (pe_uuid_string env) None i t' = FindByID (pe_uuid_string env) None i t) \<and>
     t_orders t' = t_orders (set_status (pe_now env) (pj_IdempotencyKey job) OrderStatusSuccess ''Payment completed successfully'' t) \<and>
     filter is_send tr = [] \<and> (at_most 1 v \<longrightarrow> holds_average (pp_EncryptionKey p) (ac_AvgOrderAmount acc'))"
proof -
  have u: "pe_setnx env = Inr True" "pe_begin env = None" "pe_update_fault env = None" "pe_status_fault env = None"
    "pe_commit env = None" "pe_find_fault env = None" "pe_ctx_done env = None"
    using assms(1) by (simp_all add: undisturbed_def)
  have c: "cents_ok a" "cents_ok b" using assms(5,7) by (simp_all add: holds_cents_def)
  obtain acc' avg where d: "debited_account p env acc (dollars b) (dollars a) = Inr (acc', avg)"
    and h: "holds_cents (pp_EncryptionKey p) (ac_Balance acc') (b - a)"
    and n: "ac_OrderCount acc' = wrap64 (ac_OrderCount acc + 1)" "ac_ID acc' = ac_ID acc"
    and av: "at_most 1 v \<Longrightarrow> holds_average (pp_EncryptionKey p) (ac_AvgOrderAmount acc')"
    by (rule debited_account_dollars [OF assms(3,2) c assms(8,9)]) (use assms(10,11) in blast)
  have n': "ac_OrderCount acc' = ac_OrderCount acc + 1" using n(1) assms(10,11) by (simp add: wrap64_id int64_ok_def)
  have dec: "decide p env job = Debit acc' avg"
    using decide_known [of p job a env acc b] assms(5-8,12) u by (simp add: d)
  have fits: "count_fits (decide p env job)" using n' assms(10,11) by (simp add: dec count_fits_def int4_ok_def)
  have res: "fst (ProcessPayment p env job t) = None"
    "fst (snd (ProcessPayment p env job t)) = settle (pe_now env) (pj_IdempotencyKey job) (Debit acc' avg) t"
    using payment_carries_out_decision [OF u(1,2,3,4,5) fits, of t] by (simp_all add: dec)
  have send: "filter is_send (snd (snd (ProcessPayment p env job t))) = []"
    by (simp add: ProcessPayment_locked [OF u(1,2)] process_locked_sends dec)
  let ?t = "settle (pe_now env) (pj_IdempotencyKey job) (Debit acc' avg) t"
  have same: "ac_ID acc' = ac_ID row" using FindByID_SomeD [OF assms(6)] FindByID_SomeD [OF assms(4)] n(2) by simp
  then have row: "ac_Balance (set_account (pe_now env) acc' row) = ac_Balance acc'"
    "ac_OrderCount (set_account (pe_now env) acc' row) = ac_OrderCount acc'"
    "ac_AvgOrderAmount (set_account (pe_now env) acc' row) = ac_AvgOrderAmount acc'" by (simp_all add: set_account_def)
  have "ProcessPayment p env job t = (None, ?t, snd (snd (ProcessPayment p env job t)))"
    using res by (simp add: prod_eq_iff)
  moreover note settle_debit_lookup [OF assms(4) same, where now = "pe_now env" and key = "pj_IdempotencyKey job" and avg = avg]
  moreover have "t_orders ?t = t_orders (set_status (pe_now env) (pj_IdempotencyKey job) OrderStatusSuccess ''Payment completed successfully'' t)"
    by (simp add: set_status_def)
  ultimately show ?thesis using h row n' send av by metis
qed

lemma payment_debits:
  assumes "undisturbed env" "random_ok env" "length (pp_EncryptionKey p) = 32" "pe_reader env = t"
    and "holds_cents (pp_EncryptionKey p) (pj_Amount job) a"
    and "FindByID (pe_uuid_string env) None (pj_AccountID job) t = Inr acc"
    and "holds_cents (pp_EncryptionKey p) (ac_Balance acc) b" "a \<le> b"
    and "DecryptToFloat64 (ac_AvgOrderAmount acc) (pp_EncryptionKey p) = Inr v"
    and "0 \<le> ac_OrderCount acc" "ac_OrderCount acc + 1 < 2 ^ 31"
    and "fs_FraudFlag (fst (Analyze (pp_FraudDetector p) (pe_fraud env) (dollars a) job)) = FraudFlagClean"
  shows "\<exists>t' tr acc'. ProcessPayment p env job t = (None, t', tr) \<and>
     FindByID (pe_uuid_string env) None (pj_AccountID job) t' = Inr acc' \<and>
     holds_cents (pp_EncryptionKey p) (ac_Balance acc') (b - a) \<and>
     ac_OrderCount acc' = ac_OrderCount acc + 1 \<and>
     (\<forall>i. i \<noteq> pj_AccountID job \<longrightarrow> FindByID (pe_uuid_string env) None i t' = FindByID (pe_uuid_string env) None i t) \<and>
     t_orders t' = t_orders (set_status (pe_now env) (pj_IdempotencyKey job) OrderStatusSuccess ''Payment completed successfully'' t) \<and>
     filter is_send tr = []"
  using payment_debits_read [OF assms(1-3) _ assms(5) _ assms(7-12), of t acc] assms(4,6) by blast

text \<open>
  Property C3. A payment of \<open>a\<close> cents from an account that holds \<open>b \<ge> a\<close> cents, judged clean and
  not disturbed from outside, completes: \<open>ProcessPayment\<close> returns nil, the stored (encrypted)
  balance afterwards holds exactly \<open>b - a\<close> cents, the order count is one higher, no other
  account's row changes, of the order rows exactly those of the job are marked successful, and
  no retry is sent.
\<close>

theorem payment_debits_exactly:
  assumes "undisturbed env" "random_ok env" "length (pp_EncryptionKey p) = 32" "pe_reader env = t"
    and "holds_cents (pp_EncryptionKey p) (pj_Amount job) a"
    and "FindByID (pe_uuid_string env) None (pj_AccountID job) t = Inr acc"
    and "holds_cents (pp_EncryptionKey p) (ac_Balance acc) b" "a \<le> b"
    and "DecryptToFloat64 (ac_AvgOrderAmount acc) (pp_EncryptionKey p) = Inr v"
    and "0 \<le> ac_OrderCount acc" "ac_OrderCount acc + 1 < 2 ^ 31"
    and "fs_FraudFlag (fst (Analyze (pp_FraudDetector p) (pe_fraud env) (dollars a) job)) = FraudFlagClean"
  shows "\<exists>t' tr acc'. ProcessPayment p env job t = (None, t', tr) \<and>
     FindByID (pe_uuid_string env) None (pj_AccountID job) t' = Inr acc' \<and>
     holds_cents (pp_EncryptionKey p) (ac_Balance acc') (b - a) \<and>
     ac_OrderCount acc' = ac_OrderCount acc + 1 \<and>
     (\<forall>i. i \<noteq> pj_AccountID job \<longrightarrow> FindByID (pe_uuid_string env) None i t' = FindByID (pe_uuid_string env) None i t) \<and>
     t_orders t' = t_orders (set_status (pe_now env) (pj_IdempotencyKey job) OrderStatusSuccess ''Payment completed successfully'' t) \<and>
     filter is_send tr = []"
  using assms by (rule payment_debits)

text \<open>A concrete world: one account, one pending order, a scoring service that answers clean.\<close>

definition key_example :: "byte list" where
  "key_example = replicate 32 0"

definition nonce_example :: "byte list" where
  "nonce_example = replicate 12 0"

definition enc_example :: "nat \<Rightarrow> string" where
  "enc_example c = (case EncryptAES (Inr nonce_example) (Float64ToByte (dollars c)) key_example of Inr s \<Rightarrow> s | Inl _ \<Rightarrow> [])"

definition job_example :: "nat \<Rightarrow> PaymentJob" where
  "job_example a = PaymentJob_zero\<lparr>pj_ID := 1, pj_UserID := 8, pj_AccountID := 7, pj_IdempotencyKey := 9,
     pj_Amount := enc_example a, pj_CreatedAt := 0, pj_UpdatedAt := 0\<rparr>"

definition account_example :: "nat \<Rightarrow> Account" where
  "account_example b = Account_zero\<lparr>ac_ID := 7, ac_UserID := 8, ac_Balance := enc_example b, ac_OrderCount := 3\<rparr>"

definition order_example :: Order where
  "order_example = \<lparr>or_ID = 1, or_UserID = 8, or_AccountID = 7, or_IdempotencyKey = 9, or_Amount = [],
     or_Currency = ''CAD'', or_Status = OrderStatusPending, or_Message = [], or_CreatedAt = 0, or_UpdatedAt = 0\<rparr>"

definition tables_example :: "nat \<Rightarrow> Tables" where
  "tables_example b = \<lparr>t_users = [], t_accounts = [account_example b], t_orders = [order_example], t_ai = []\<rparr>"

definition processor_example :: PaymentProcessor where
  "processor_example = \<lparr>pp_FraudDetector = NewFraudDetectionService key_example worker_config_example,
     pp_EncryptionKey = key_example\<rparr>"

definition fraud_env_example :: "Tables \<Rightarrow> bool \<Rightarrow> FraudEnv" where
  "fraud_env_example t fraud = \<lparr>en_ctx_done = False, en_incr = Inr 1, en_cache_get = Inl (LibError ''down''),
     en_reader = t, en_find_fault = None, en_reserve = Some 0, en_wait_cancelled = None, en_new_request = None,
     en_do = (\<lambda>req. Inr \<lparr>hr_StatusCode = 200, hr_Body = ''body''\<rparr>),
     en_decode = (\<lambda>s. Inr \<lparr>ps_Score = f64_zero, ps_IsFraud = fraud, ps_Threshold = f64_zero\<rparr>),
     en_uuid_string = (\<lambda>u. ''uuid''), en_quote = id\<rparr>"

definition env_example :: "Tables \<Rightarrow> PayEnv" where
  "env_example t = \<lparr>pe_setnx = Inr True, pe_begin = None, pe_reader = t, pe_find_fault = None,
     pe_fraud = fraud_env_example t False, pe_ctx_done = None, pe_nonce_balance = Inr nonce_example,
     pe_nonce_avg = Inr nonce_example, pe_update_fault = None, pe_status_fault = None, pe_commit = None,
     pe_now = 5, pe_uuid_string = (\<lambda>u. ''uuid'')\<rparr>"

lemma enc_example_holds: "cents_ok c \<Longrightarrow> holds_cents key_example (enc_example c) c"
proof -
  assume c: "cents_ok c"
  have "length key_example = 32" "length nonce_example = 12" by (simp_all add: key_example_def nonce_example_def)
  then obtain s where "EncryptAES (Inr nonce_example) (Float64ToByte (dollars c)) key_example = Inr s"
    using aes_store.store_total by blast
  then show ?thesis
    using aes_store.load_dollars [OF \<open>length nonce_example = 12\<close> _ c] c by (simp add: enc_example_def holds_cents_def)
qed

lemma enc_example_nonempty: "enc_example c \<noteq> []"
proof -
  have "length key_example = 32" by (simp add: key_example_def)
  then obtain s where "EncryptAES (Inr nonce_example) (Float64ToByte (dollars c)) key_example = Inr s"
    using aes_store.store_total by blast
  then show ?thesis using EncryptAES_nonempty by (simp add: enc_example_def)
qed

lemma json_dollars: "cents_ok c \<Longrightarrow> json_float_ok (dollars c)"
  by (erule dollars_error) simp

lemma fraud_example_verdict:
  "cents_ok a \<Longrightarrow> fs_FraudFlag (fst (Analyze (pp_FraudDetector processor_example) (fraud_env_example t fraud) (dollars a) job)) =
     (if fraud then FraudFlagSuspicious else FraudFlagClean)"
  by (simp add: Analyze_def fraud_env_example_def computeVelocity_def computeDeviation_def getFraudReport_def ml_exchange_def
      marshal_request_def json_dollars processor_example_def NewFraudDetectionService_def worker_config_example_def Let_def)

lemma example_facts:
  "undisturbed (env_example t)" "random_ok (env_example t)" "length (pp_EncryptionKey processor_example) = 32"
  "pe_reader (env_example t) = t" "pe_fraud (env_example t) = fraud_env_example t False"
  "pp_EncryptionKey processor_example = key_example"
  "pj_Amount (job_example a) = enc_example a" "pj_AccountID (job_example a) = 7" "pj_IdempotencyKey (job_example a) = 9"
  "ac_Balance (account_example b) = enc_example b" "ac_OrderCount (account_example b) = 3"
  "DecryptToFloat64 (ac_AvgOrderAmount (account_example b)) k = Inr f64_zero"
  "FindByID us None 7 (tables_example b) = Inr (account_example b)"
  by (simp_all add: undisturbed_def env_example_def random_ok_def nonce_example_def processor_example_def key_example_def
      job_example_def account_example_def tables_example_def FindByID_def DecryptToFloat64_def IsEmpty_def Account_zero_def)

lemma example_premises:
  "FindByID (pe_uuid_string (env_example (tables_example 10000))) None (pj_AccountID (job_example 2500)) (tables_example 10000) =
      Inr (account_example 10000)"
  "holds_cents (pp_EncryptionKey processor_example) (pj_Amount (job_example 2500)) 2500"
  "holds_cents (pp_EncryptionKey processor_example) (ac_Balance (account_example 10000)) 10000"
  "(2500 :: nat) \<le> 10000" "0 \<le> ac_OrderCount (account_example 10000)"
  "ac_OrderCount (account_example 10000) + 1 < 2 ^ 31"
  "fs_FraudFlag (fst (Analyze (pp_FraudDetector processor_example)
      (pe_fraud (env_example (tables_example 10000))) (dollars 2500) (job_example 2500))) = FraudFlagClean"
proof -
  have c: "cents_ok 10000" "cents_ok 2500" by (simp_all add: cents_ok_def)
  show "holds_cents (pp_EncryptionKey processor_example) (pj_Amount (job_example 2500)) 2500"
    "holds_cents (pp_EncryptionKey processor_example) (ac_Balance (account_example 10000)) 10000"
    "fs_FraudFlag (fst (Analyze (pp_FraudDetector processor_example)
      (pe_fraud (env_example (tables_example 10000))) (dollars 2500) (job_example 2500))) = FraudFlagClean"
    using enc_example_holds [OF c(1)] enc_example_holds [OF c(2)] fraud_example_verdict [OF c(2)]
    by (simp_all add: example_facts)
qed (simp_all add: example_facts)

theorem payment_debits_exactly_witness:
  "\<exists>t' tr acc'. ProcessPayment processor_example (env_example (tables_example 10000)) (job_example 2500) (tables_example 10000) =
      (None, t', tr) \<and>
     FindByID (\<lambda>u. ''uuid'') None 7 t' = Inr acc' \<and> holds_cents key_example (ac_Balance acc') 7500 \<and> ac_OrderCount acc' = 4"
proof -
  have us: "pe_uuid_string (env_example (tables_example 10000)) = (\<lambda>u. ''uuid'')" by (simp add: env_example_def)
  obtain t' tr acc' where
    "ProcessPayment processor_example (env_example (tables_example 10000)) (job_example 2500) (tables_example 10000) = (None, t', tr)"
    "FindByID (pe_uuid_string (env_example (tables_example 10000))) None (pj_AccountID (job_example 2500)) t' = Inr acc'"
    "holds_cents (pp_EncryptionKey processor_example) (ac_Balance acc') (10000 - 2500)"
    "ac_OrderCount acc' = ac_OrderCount (account_example 10000) + 1"
    using payment_debits_exactly [OF example_facts(1,2,3,4) example_premises(2,1,3,4) example_facts(12) example_premises(5,6,7)] by blast
  then show ?thesis by (simp add: example_facts us)
qed

text \<open>
  Property C13. A payment of more than the account holds, in a call that nothing outside disturbs (the lock is
  free, reads and writes succeed), is refused, whatever the fraud detector says: \<open>ProcessPayment\<close> returns \<open>ErrInsufficientFunds\<close>, no account row changes, the order is
  marked failed and no retry is sent.
\<close>

theorem payment_refuses_overdraft:
  assumes "undisturbed env" "pe_reader env = t"
    and "holds_cents (pp_EncryptionKey p) (pj_Amount job) a"
    and "FindByID (pe_uuid_string env) None (pj_AccountID job) t = Inr acc"
    and "holds_cents (pp_EncryptionKey p) (ac_Balance acc) b" "b < a"
  shows "fst (ProcessPayment p env job t) = Some ErrInsufficientFunds \<and>
     fst (snd (ProcessPayment p env job t)) =
       set_status (pe_now env) (pj_IdempotencyKey job) OrderStatusFailed ''Insufficient funds'' t \<and>
     filter is_send (snd (snd (ProcessPayment p env job t))) = []"
proof -
  have u: "pe_setnx env = Inr True" "pe_begin env = None" "pe_update_fault env = None" "pe_status_fault env = None"
    "pe_commit env = None" "pe_find_fault env = None" using assms(1) by (simp_all add: undisturbed_def)
  have dec: "decide p env job = Reject ErrInsufficientFunds ''Insufficient funds''"
    using decide_known [of p job a env acc b] assms u by simp
  show ?thesis
    using payment_carries_out_decision [OF u(1-5), of p job t]
    by (simp add: dec count_fits_def ProcessPayment_locked [OF u(1,2)] process_locked_sends)
qed

theorem payment_refuses_overdraft_witness:
  "fst (ProcessPayment processor_example (env_example (tables_example 100)) (job_example 101) (tables_example 100)) =
     Some ErrInsufficientFunds"
proof -
  have c: "cents_ok 100" "cents_ok 101" by (simp_all add: cents_ok_def)
  show ?thesis
    using payment_refuses_overdraft [of "env_example (tables_example 100)" "tables_example 100" processor_example
        "job_example 101" 101 "account_example 100" 100]
      enc_example_holds [OF c(1)] enc_example_holds [OF c(2)] by (simp add: example_facts)
qed

subsection \<open>Atomicity, retries and the lock, whatever fails\<close>

lemma decide_DebitD:
  assumes "decide p env job = Debit acc' avg"
  obtains amount acc balance where "DecryptToFloat64 (pj_Amount job) (pp_EncryptionKey p) = Inr amount"
    "FindByID (pe_uuid_string env) (pe_find_fault env) (pj_AccountID job) (pe_reader env) = Inr acc"
    "DecryptToFloat64 (ac_Balance acc) (pp_EncryptionKey p) = Inr balance"
    "\<not> f64_lt (f64_sub balance amount) f64_zero"
    "fs_FraudFlag (fst (Analyze (pp_FraudDetector p) (pe_fraud env) amount job)) = FraudFlagClean"
    "debited_account p env acc balance amount = Inr (acc', avg)"
  using assms that by (auto simp: decide_def split: sum.splits if_splits FraudFlag.splits option.splits)

text \<open>What any call can leave in the tables.\<close>

lemma ProcessPayment_tables:
  assumes "t' = fst (snd (ProcessPayment p env job t))"
  obtains "t_accounts t' = t_accounts t"
    | acc avg where "pe_setnx env = Inr True" "pe_begin env = None" "decide p env job = Debit acc avg"
        "fst (ProcessPayment p env job t) = None"
        "t' = settle (pe_now env) (pj_IdempotencyKey job) (Debit acc avg) t"
proof -
  have na: "\<not> tx_aborted (Begin t)" and view: "tx_view (Begin t) = t" by (simp_all add: Begin_def)
  show ?thesis
  proof (cases env rule: lock_cases)
    case err
    then show ?thesis using that(1) assms by (simp add: ProcessPayment_lock_error)
  next
    case beg
    then show ?thesis using that(1) assms by (simp add: ProcessPayment_begin_error)
  next
    case unl
    have "t' \<in> {t, set_status (pe_now env) (pj_IdempotencyKey job) OrderStatusRetrying ''Account locked by another process'' t}"
      using Commit_status_tx [of "''Account locked by another process''" "pe_commit env" env "pj_IdempotencyKey job" OrderStatusRetrying "Begin t" t]
      by (simp add: assms ProcessPayment_unlocked [OF unl] process_unlocked_def view)
    then show ?thesis using that(1) by auto
  next
    case lck
    obtain s1 where s1: "st_tx s1 = Begin t"
      and eq: "process_locked p env job (pay_start env job t) = carry_out env job (decide p env job) s1"
      using process_locked_decide [of "pay_start env job t" p env job] by auto
    note pp = ProcessPayment_locked [OF lck, of p job t, unfolded eq]
    show ?thesis
    proof (cases "decide p env job")
      case (Reject e m)
      have "length m \<le> 200" using Reject decide_message by blast
      then show ?thesis
        using that(1) Commit_status_tx [of m "pe_commit env" env "pj_IdempotencyKey job" OrderStatusFailed "Begin t" t]
        by (auto simp: assms pp Reject s1 view)
    next
      case (Retry e m)
      have "length m \<le> 200" using Retry decide_message by blast
      moreover have "st_tx (snd (carry_out env job (decide p env job) s1)) = status_tx env (pj_IdempotencyKey job) OrderStatusRetrying m (Begin t)"
        by (simp add: Retry s1)
      ultimately show ?thesis
        using that(1) Commit_status_tx [of m "pe_commit env" env "pj_IdempotencyKey job" OrderStatusRetrying "Begin t" t]
        by (auto simp: assms pp view)
    next
      case (Debit acc avg)
      show ?thesis
      proof (rule debit_exec_cases [OF na, of env acc])
        fix n assume x: "tx_Exec (pe_update_fault env) (UpdateBalanceCountAvgByAccountID (pe_now env) acc) (Begin t) =
          (Inr n, (Begin t)\<lparr>tx_view := debit_tables (pe_now env) acc (tx_view (Begin t))\<rparr>)"
        have "t' \<in> {t, settle (pe_now env) (pj_IdempotencyKey job) (Debit acc avg) t}"
          using Commit_status_tx [of "''Payment completed successfully''" "pe_commit env" env "pj_IdempotencyKey job" OrderStatusSuccess
            "(Begin t)\<lparr>tx_view := debit_tables (pe_now env) acc t\<rparr>" t]
          by (simp add: assms pp Debit debit_locked_def s1 x view)
        moreover have "fst (ProcessPayment p env job t) = None" by (simp add: pp Debit debit_locked_def s1 x)
        ultimately show ?thesis using that lck Debit by auto
      next
        fix e tx' assume "tx_Exec (pe_update_fault env) (UpdateBalanceCountAvgByAccountID (pe_now env) acc) (Begin t) = (Inl e, tx')"
          and "tx_view tx' = tx_view (Begin t)"
        then show ?thesis
          using that(1) Commit_status_tx [of "''Balance update failed''" "pe_commit env" env "pj_IdempotencyKey job" OrderStatusFailed tx' t]
          by (auto simp: assms pp Debit debit_locked_def s1 view)
      qed
    qed
  qed
qed

text \<open>
  Property C2. No call ever debits by halves, whatever fails: if an account row differs
  afterwards, the call held the lock and returned nil, the detector's verdict was clean, the
  balance that was read covers the amount, and the tables are exactly those with the account
  row and the success status both written. Every refused, retried, failed or cancelled payment
  leaves all account rows as they were.
\<close>

theorem payment_all_or_nothing:
  assumes "t_accounts (fst (snd (ProcessPayment p env job t))) \<noteq> t_accounts t"
  shows "fst (ProcessPayment p env job t) = None \<and> pe_setnx env = Inr True \<and>
    (\<exists>amount acc balance acc' avg.
       DecryptToFloat64 (pj_Amount job) (pp_EncryptionKey p) = Inr amount \<and>
       FindByID (pe_uuid_string env) (pe_find_fault env) (pj_AccountID job) (pe_reader env) = Inr acc \<and>
       DecryptToFloat64 (ac_Balance acc) (pp_EncryptionKey p) = Inr balance \<and>
       \<not> f64_lt (f64_sub balance amount) f64_zero \<and>
       fs_FraudFlag (fst (Analyze (pp_FraudDetector p) (pe_fraud env) amount job)) = FraudFlagClean \<and>
       debited_account p env acc balance amount = Inr (acc', avg) \<and>
       fst (snd (ProcessPayment p env job t)) =
         set_status (pe_now env) (pj_IdempotencyKey job) OrderStatusSuccess ''Payment completed successfully''
           (debit_tables (pe_now env) acc' t))"
proof (rule ProcessPayment_tables [OF refl, of p env job t])
  fix acc' avg
  assume a: "pe_setnx env = Inr True" "decide p env job = Debit acc' avg" "fst (ProcessPayment p env job t) = None"
    "fst (snd (ProcessPayment p env job t)) = settle (pe_now env) (pj_IdempotencyKey job) (Debit acc' avg) t"
  show ?thesis
    by (rule decide_DebitD [OF a(2)]) (use a in \<open>auto simp del: split_paired_Ex\<close>)
qed (use assms in simp)

theorem payment_all_or_nothing_witness:
  "fst (ProcessPayment processor_example (env_example (tables_example 10000)) (job_example 2500) (tables_example 10000)) = None"
proof -
  obtain t' tr acc' where
    "ProcessPayment processor_example (env_example (tables_example 10000)) (job_example 2500) (tables_example 10000) = (None, t', tr)"
    "FindByID (pe_uuid_string (env_example (tables_example 10000))) None (pj_AccountID (job_example 2500)) t' = Inr acc'"
    "ac_OrderCount acc' = ac_OrderCount (account_example 10000) + 1"
    using payment_debits [OF example_facts(1,2,3,4) example_premises(2,1,3,4) example_facts(12) example_premises(5,6,7)] by blast
  then have "t_accounts (fst (snd (ProcessPayment processor_example (env_example (tables_example 10000)) (job_example 2500)
      (tables_example 10000)))) \<noteq> t_accounts (tables_example 10000)"
    using example_premises(1) FindByID_cong [of t' "tables_example 10000"] by auto
  from payment_all_or_nothing [OF this] show ?thesis by blast
qed

lemma retry_is_error:
  "set (filter is_send (snd (snd (ProcessPayment p env job t)))) \<subseteq> {RetrySend job} \<and>
   (filter is_send (snd (snd (ProcessPayment p env job t))) = [] \<or> fst (ProcessPayment p env job t) \<noteq> None)"
proof (cases env rule: lock_cases)
  case lck
  obtain s1 where "process_locked p env job (pay_start env job t) = carry_out env job (decide p env job) s1"
    using process_locked_decide [of "pay_start env job t" p env job] by auto
  then have "is_retry (decide p env job) \<Longrightarrow> fst (process_locked p env job (pay_start env job t)) \<noteq> None"
    by (cases "decide p env job") auto
  then show ?thesis by (auto simp: ProcessPayment_locked [OF lck] process_locked_sends)
qed (simp_all add: ProcessPayment_lock_error ProcessPayment_begin_error ProcessPayment_unlocked process_unlocked_def)

text \<open>
  Property C22. Once its transaction has begun, a job goes to the retry channel exactly when the account is
  locked by another worker, or, with the lock held, amount and balance read and the balance sufficient, the
  fraud analysis was inconclusive or the context was cancelled; it goes there once and unchanged, and the
  call reports an error then. Every other call sends nothing.
\<close>

theorem payment_retries_exactly:
  "if pe_begin env = None \<and> (pe_setnx env = Inr False \<or> pe_setnx env = Inr True \<and> is_retry (decide p env job))
   then filter is_send (snd (snd (ProcessPayment p env job t))) = [RetrySend job] \<and> fst (ProcessPayment p env job t) \<noteq> None
   else filter is_send (snd (snd (ProcessPayment p env job t))) = []"
  using retry_is_error [of p env job t]
  by (cases env rule: lock_cases; cases "is_retry (decide p env job)")
    (simp_all add: ProcessPayment_locked process_locked_sends ProcessPayment_lock_error ProcessPayment_begin_error
      ProcessPayment_unlocked process_unlocked_def)

fun is_unlock :: "pay_event \<Rightarrow> bool" where
  "is_unlock (LockDel k) = True"
| "is_unlock _ = False"

fun is_commit :: "pay_event \<Rightarrow> bool" where
  "is_commit (TxCommit e) = True"
| "is_commit _ = False"

lemma process_locked_no_unlock:
  "\<exists>mid. st_trace (snd (process_locked p env job s)) = st_trace s @ mid \<and> filter is_unlock mid = [] \<and> filter is_commit mid = []"
proof -
  obtain s1 where "st_trace s1 = st_trace s @ fraud_trace p env job"
    and "process_locked p env job s = carry_out env job (decide p env job) s1"
    using process_locked_decide [of s p env job] by blast
  moreover have "filter is_unlock (fraud_trace p env job) = []" "filter is_commit (fraud_trace p env job) = []"
    by (simp_all add: fraud_trace_def split: sum.split)
  ultimately show ?thesis
    by (cases "decide p env job") (auto simp: debit_locked_def split: prod.split sum.split)
qed

text \<open>
  A worker releases the lock exactly when it acquired it and its transaction was
  opened (a failed \<open>Begin\<close> leaves the lock to its expiry), it never releases a lock another
  worker holds, and the release comes last but one: it precedes the commit.
\<close>

theorem payment_releases_before_commit:
  "if pe_setnx env = Inr True \<and> pe_begin env = None
   then \<exists>mid c. snd (snd (ProcessPayment p env job t)) =
          [LockSetNX (lock_key env job) (20 * Second), TxBegin] @ mid @ [LockDel (lock_key env job), TxCommit c] \<and>
          filter is_unlock mid = [] \<and> filter is_commit mid = []
   else filter is_unlock (snd (snd (ProcessPayment p env job t))) = []"
proof -
  show ?thesis
  proof (cases env rule: lock_cases)
    case lck
    obtain mid where "st_trace (snd (process_locked p env job (pay_start env job t))) = st_trace (pay_start env job t) @ mid"
      "filter is_unlock mid = []" "filter is_commit mid = []"
      using process_locked_no_unlock [of p env job "pay_start env job t"] by blast
    then show ?thesis by (auto simp: ProcessPayment_locked [OF lck] lck)
  qed (simp_all add: ProcessPayment_lock_error ProcessPayment_begin_error ProcessPayment_unlocked process_unlocked_def)
qed

lemma steps_commit_independent:
  "updateOrderStatus (env\<lparr>pe_commit := c\<rparr>) = updateOrderStatus env"
  "checkAccountBalance p (env\<lparr>pe_commit := c\<rparr>) = checkAccountBalance p env"
  "handleFraudResult (env\<lparr>pe_commit := c\<rparr>) = handleFraudResult env"
  "handleTransactionResult (env\<lparr>pe_commit := c\<rparr>) = handleTransactionResult env"
  "processTransaction (env\<lparr>pe_commit := c\<rparr>) = processTransaction env"
  "debited_account p (env\<lparr>pe_commit := c\<rparr>) = debited_account p env"
proof -
  show u: "updateOrderStatus (env\<lparr>pe_commit := c\<rparr>) = updateOrderStatus env"
    by (intro ext) (simp add: updateOrderStatus_def)
  show "checkAccountBalance p (env\<lparr>pe_commit := c\<rparr>) = checkAccountBalance p env"
    by (intro ext) (simp add: checkAccountBalance_def u split: sum.split)
  show "handleFraudResult (env\<lparr>pe_commit := c\<rparr>) = handleFraudResult env"
    by (intro ext) (simp add: handleFraudResult_def u)
  show "handleTransactionResult (env\<lparr>pe_commit := c\<rparr>) = handleTransactionResult env"
    by (intro ext) (simp add: handleTransactionResult_def u split: option.split)
  show "processTransaction (env\<lparr>pe_commit := c\<rparr>) = processTransaction env"
    by (simp add: processTransaction_def)
  show "debited_account p (env\<lparr>pe_commit := c\<rparr>) = debited_account p env"
    by (intro ext) (simp add: debited_account_def Let_def split: sum.split)
qed

lemma process_commit_independent:
  "process_locked p (env\<lparr>pe_commit := c\<rparr>) job s = process_locked p env job s"
  "process_unlocked (env\<lparr>pe_commit := c\<rparr>) job s = process_unlocked env job s"
  "lock_key (env\<lparr>pe_commit := c\<rparr>) job = lock_key env job"
proof -
  have u: "UpdateBalanceAvgCount p (env\<lparr>pe_commit := c\<rparr>) = UpdateBalanceAvgCount p env"
    by (intro ext) (simp add: UpdateBalanceAvgCount_def steps_commit_independent split: sum.split prod.split)
  have f: "pe_fraud (env\<lparr>pe_commit := c\<rparr>) = pe_fraud env" by simp
  show "process_locked p (env\<lparr>pe_commit := c\<rparr>) job s = process_locked p env job s"
    unfolding process_locked_def steps_commit_independent u f by (rule refl)
qed (simp_all add: process_unlocked_def lock_key_def steps_commit_independent)

text \<open>
  Property C14. A failed commit is silent: the call returns what it would have returned had the
  commit succeeded (nil after a debit included), while the tables are left as they were.
\<close>

theorem payment_commit_failure_silent:
  "fst (ProcessPayment p (env\<lparr>pe_commit := Some err\<rparr>) job t) = fst (ProcessPayment p env job t) \<and>
   fst (snd (ProcessPayment p (env\<lparr>pe_commit := Some err\<rparr>) job t)) = t"
  by (simp add: ProcessPayment_def process_commit_independent Commit_def Let_def split: sum.split option.split prod.split)

subsection \<open>Runs of payments\<close>

text \<open>Consecutive calls of \<open>ProcessPayment\<close> by workers whose reader is the primary.\<close>

fun pay_all :: "PaymentProcessor \<Rightarrow> (PayEnv \<times> PaymentJob) list \<Rightarrow> Tables \<Rightarrow> go_error option list \<times> Tables" where
  "pay_all p [] t = ([], t)"
| "pay_all p ((env, job) # calls) t =
     (let (err, t', tr) = ProcessPayment p (env\<lparr>pe_reader := t\<rparr>) job t;
          (errs, t'') = pay_all p calls t'
      in (err # errs, t''))"

text \<open>
  Status update and commit of a call went through (a failure of either rolls its transaction back, without
  the call returning an error), and the random source delivered as many bytes as the cipher asks for.
\<close>

definition landed :: "PayEnv \<Rightarrow> bool" where
  "landed env \<longleftrightarrow> pe_status_fault env = None \<and> pe_commit env = None"

definition nonce_ok :: "PayEnv \<Rightarrow> bool" where
  "nonce_ok env \<longleftrightarrow> (case pe_nonce_balance env of Inl _ \<Rightarrow> True | Inr n \<Rightarrow> length n = 12)"

text \<open>The cents taken from an account by the calls that returned nil and whose transaction landed.\<close>

fun debited_cents :: "uuid \<Rightarrow> (PaymentJob \<Rightarrow> nat) \<Rightarrow> (PayEnv \<times> PaymentJob) list \<Rightarrow> go_error option list \<Rightarrow> nat" where
  "debited_cents i cents ((env, job) # calls) (err # errs) =
     (if err = None \<and> landed env \<and> pj_AccountID job = i then cents job else 0) + debited_cents i cents calls errs"
| "debited_cents i cents _ _ = 0"

lemma returned_nil:
  assumes "fst (ProcessPayment p env job t) = None"
  obtains acc avg where "decide p env job = Debit acc avg"
    "fst (snd (ProcessPayment p env job t)) =
       (if landed env then settle (pe_now env) (pj_IdempotencyKey job) (Debit acc avg) t else t)"
proof -
  have lck: "pe_setnx env = Inr True" "pe_begin env = None"
    using assms(1) by (cases "pe_setnx env"; cases "pe_begin env"; cases "projr (pe_setnx env)";
        simp add: ProcessPayment_lock_error ProcessPayment_begin_error ProcessPayment_unlocked process_unlocked_def)+
  obtain s1 where s1: "st_tx s1 = Begin t"
    and eq: "process_locked p env job (pay_start env job t) = carry_out env job (decide p env job) s1"
    using process_locked_decide [of "pay_start env job t" p env job] by auto
  have nil: "fst (carry_out env job (decide p env job) s1) = None"
    using assms(1) by (simp add: ProcessPayment_locked [OF lck] eq)
  then obtain acc avg where d: "decide p env job = Debit acc avg" by (cases "decide p env job") auto
  have na: "\<not> tx_aborted (Begin t)" by (simp add: Begin_def)
  then have fits: "pe_update_fault env = None \<and> count_fits (decide p env job)"
    by (rule debit_exec_cases [of _ env acc]) (use nil in \<open>auto simp: d count_fits_def debit_locked_def s1\<close>)
  consider (good) "landed env" | (commit) e where "pe_commit env = Some e" | (status) e where "pe_status_fault env = Some e"
    by (cases "pe_commit env"; cases "pe_status_fault env") (auto simp: landed_def)
  then have "fst (snd (ProcessPayment p env job t)) =
      (if landed env then settle (pe_now env) (pj_IdempotencyKey job) (decide p env job) t else t)"
  proof cases
    case good
    then show ?thesis using fits payment_carries_out_decision [OF lck, of p job t] by (simp add: landed_def)
  next
    case commit
    then show ?thesis by (simp add: ProcessPayment_locked [OF lck] Commit_def landed_def)
  next
    case status
    have "tx_aborted (st_tx (snd (carry_out env job (Debit acc avg) s1)))"
    proof (rule debit_exec_cases [OF na, of env acc])
      fix n assume "tx_Exec (pe_update_fault env) (UpdateBalanceCountAvgByAccountID (pe_now env) acc) (Begin t) =
        (Inr n, (Begin t)\<lparr>tx_view := debit_tables (pe_now env) acc (tx_view (Begin t))\<rparr>)"
      then show ?thesis
        using na status_tx_view(2) [OF _ _ status, of "''Payment completed successfully''"] by (simp add: debit_locked_def s1)
    qed (use fits d in \<open>simp_all add: count_fits_def\<close>)
    then show ?thesis using status by (simp add: ProcessPayment_locked [OF lck] eq d Commit_def landed_def)
  qed
  then show ?thesis using that d by simp
qed

lemma Debit_balance:
  assumes "decide p env job = Debit acc' avg" "nonce_ok env" "pe_reader env = t"
    and "FindByID us None (pj_AccountID job) t = Inr acc"
    and "holds_cents (pp_EncryptionKey p) (pj_Amount job) a" "holds_cents (pp_EncryptionKey p) (ac_Balance acc) b"
  shows "a \<le> b" "ac_ID acc' = ac_ID acc" "holds_cents (pp_EncryptionKey p) (ac_Balance acc') (b - a)"
proof -
  have c: "cents_ok a" "cents_ok b" using assms(5,6) by (simp_all add: holds_cents_def)
  obtain x y where f: "FindByID (pe_uuid_string env) (pe_find_fault env) (pj_AccountID job) t = Inr x"
    and y: "DecryptToFloat64 (ac_Balance x) (pp_EncryptionKey p) = Inr y"
    and nlt: "\<not> f64_lt (f64_sub y (dollars a)) f64_zero" and d: "debited_account p env x y (dollars a) = Inr (acc', avg)"
    by (rule decide_DebitD [OF assms(1)]) (use assms(3,5) in \<open>auto simp: holds_cents_def\<close>)
  have "x = acc" using f assms(4) by (auto simp: FindByID_def split: if_splits option.splits list.splits)
  then have "y = dollars b" using y assms(6) by (simp add: holds_cents_def)
  then show le: "a \<le> b" using nlt dollars_sub_lt_zero [OF c] by simp
  obtain n where n: "pe_nonce_balance env = Inr n"
    "EncryptAES (Inr n) (Float64ToByte (f64_sub (dollars b) (dollars a))) (pp_EncryptionKey p) = Inr (ac_Balance acc')"
    and id: "ac_ID acc' = ac_ID acc"
    using d \<open>x = acc\<close> \<open>y = dollars b\<close>
    by (cases "pe_nonce_balance env") (auto simp: debited_account_def Let_def EncryptAES_def split: sum.splits option.splits)
  show "ac_ID acc' = ac_ID acc" by (rule id)
  have "length n = 12" using assms(2) n(1) by (simp add: nonce_ok_def)
  from aes_store.load_difference [OF this n(2) c le] c(2)
  show "holds_cents (pp_EncryptionKey p) (ac_Balance acc') (b - a)" by (simp add: holds_cents_def cents_ok_def)
qed

lemma pay_step:
  assumes "nonce_ok env" "FindByID us None i t = Inr acc" "holds_cents (pp_EncryptionKey p) (ac_Balance acc) b"
    and "holds_cents (pp_EncryptionKey p) (pj_Amount job) a"
    and res: "ProcessPayment p (env\<lparr>pe_reader := t\<rparr>) job t = (err, t', tr)"
  defines "d \<equiv> (if err = None \<and> landed env \<and> pj_AccountID job = i then a else 0)"
  obtains acc' where "FindByID us None i t' = Inr acc'" "d \<le> b" "holds_cents (pp_EncryptionKey p) (ac_Balance acc') (b - d)"
proof (cases "err = None \<and> landed env")
  case False
  have "landed (env\<lparr>pe_reader := t\<rparr>) = landed env" by (simp add: landed_def)
  then have "t_accounts t' = t_accounts t" if "err = None"
    using that False res returned_nil [of p "env\<lparr>pe_reader := t\<rparr>" job t] by auto
  moreover have "t_accounts t' = t_accounts t" if "err \<noteq> None"
    by (rule ProcessPayment_tables [of t' p "env\<lparr>pe_reader := t\<rparr>" job t]) (use res that in auto)
  ultimately have "FindByID us None i t' = Inr acc" using assms(2) FindByID_cong by metis
  moreover have "d = 0" using False by (auto simp: d_def)
  ultimately show ?thesis using that assms(3) by simp
next
  case True
  have dur: "nonce_ok (env\<lparr>pe_reader := t\<rparr>)" "landed (env\<lparr>pe_reader := t\<rparr>)"
    using assms(1) True by (simp_all add: nonce_ok_def landed_def)
  obtain new avg where dec: "decide p (env\<lparr>pe_reader := t\<rparr>) job = Debit new avg"
    and t': "t' = settle (pe_now env) (pj_IdempotencyKey job) (Debit new avg) t"
    by (rule returned_nil [of p "env\<lparr>pe_reader := t\<rparr>" job t]) (use res True dur(2) in auto)
  obtain x where x: "FindByID (pe_uuid_string env) (pe_find_fault env) (pj_AccountID job) t = Inr x" and "ac_ID new = ac_ID x"
    by (rule decide_DebitD [OF dec]) (auto simp: debited_account_def Let_def split: sum.splits)
  have x': "FindByID us None (pj_AccountID job) t = Inr x"
    using x by (auto simp: FindByID_def split: if_splits option.splits)
  note look = settle_debit_lookup [OF x' \<open>ac_ID new = ac_ID x\<close>, where now = "pe_now env" and key = "pj_IdempotencyKey job" and avg = avg]
  show ?thesis
  proof (cases "pj_AccountID job = i")
    case False
    then have "FindByID us None i t' = Inr acc" using look(2) [of i] assms(2) by (simp add: t')
    then show ?thesis using that assms(3) False by (simp add: d_def)
  next
    case same: True
    then have "x = acc" using x' assms(2) by simp
    have f: "FindByID us None (pj_AccountID job) t = Inr acc" using assms(2) same by simp
    note bal = Debit_balance [OF dec dur(1) _ f assms(4,3)]
    have "ac_Balance (set_account (pe_now env) new acc) = ac_Balance new"
      using bal(2) by (simp add: set_account_def)
    then show ?thesis
      using that [of "set_account (pe_now env) new acc"] look(1) bal same True \<open>x = acc\<close> by (simp add: t' d_def)
  qed
qed

lemma pay_all_conserves:
  assumes "\<forall>(env, job) \<in> set calls. nonce_ok env \<and> holds_cents (pp_EncryptionKey p) (pj_Amount job) (cents job)"
    and "FindByID us None i t = Inr acc" "holds_cents (pp_EncryptionKey p) (ac_Balance acc) b"
  shows "\<exists>acc'. FindByID us None i (snd (pay_all p calls t)) = Inr acc' \<and>
     debited_cents i cents calls (fst (pay_all p calls t)) \<le> b \<and>
     holds_cents (pp_EncryptionKey p) (ac_Balance acc') (b - debited_cents i cents calls (fst (pay_all p calls t)))"
  using assms
proof (induction calls arbitrary: t acc b)
  case Nil
  then show ?case by auto
next
  case (Cons c calls)
  obtain env job where c: "c = (env, job)" by fastforce
  obtain err t' tr where r: "ProcessPayment p (env\<lparr>pe_reader := t\<rparr>) job t = (err, t', tr)" using prod_cases3 by blast
  obtain errs t'' where rest: "pay_all p calls t' = (errs, t'')" by fastforce
  let ?d = "if err = None \<and> landed env \<and> pj_AccountID job = i then cents job else 0"
  obtain acc1 where acc1: "FindByID us None i t' = Inr acc1" "?d \<le> b" "holds_cents (pp_EncryptionKey p) (ac_Balance acc1) (b - ?d)"
    by (rule pay_step [OF _ Cons.prems(2,3) _ r, of "cents job"]) (use Cons.prems(1) c in auto)
  obtain acc' where "FindByID us None i t'' = Inr acc'" "debited_cents i cents calls errs \<le> b - ?d"
    "holds_cents (pp_EncryptionKey p) (ac_Balance acc') (b - ?d - debited_cents i cents calls errs)"
    using Cons.IH [OF _ acc1(1,3)] Cons.prems(1) rest by auto
  then show ?case using acc1(2) by (simp add: c r rest)
qed

text \<open>
  Property C1. Money is conserved over any run of consecutive calls that read the current rows, whatever
  failures they meet (lock taken, database down, undecryptable amounts, fraud, cancellation, overdraft,
  failed statements and commits): the balance of an account drops by exactly the sum of the amounts
  of those calls for it that returned nil and whose status update and commit went through, and never below
  zero. A call that returns nil although its commit failed therefore takes nothing, and a job that is
  processed twice debits twice: the worker has no check against redelivery.
\<close>

theorem payments_conserve_money:
  assumes "\<forall>(env, job) \<in> set calls. nonce_ok env \<and> holds_cents (pp_EncryptionKey p) (pj_Amount job) (cents job)"
    and "FindByID us None i t = Inr acc" "holds_cents (pp_EncryptionKey p) (ac_Balance acc) b"
  shows "\<exists>acc'. FindByID us None i (snd (pay_all p calls t)) = Inr acc' \<and>
     debited_cents i cents calls (fst (pay_all p calls t)) \<le> b \<and>
     holds_cents (pp_EncryptionKey p) (ac_Balance acc') (b - debited_cents i cents calls (fst (pay_all p calls t)))"
  using assms by (rule pay_all_conserves)

definition calls_example :: "(PayEnv \<times> PaymentJob) list" where
  "calls_example = [(env_example (tables_example 10000), job_example 2500), (env_example (tables_example 10000), job_example 2500)]"

theorem payments_conserve_money_witness:
  "\<exists>acc'. FindByID (\<lambda>u. ''uuid'') None 7 (snd (pay_all processor_example calls_example (tables_example 10000))) = Inr acc' \<and>
     holds_cents key_example (ac_Balance acc')
       (10000 - debited_cents 7 (\<lambda>j. 2500) calls_example (fst (pay_all processor_example calls_example (tables_example 10000))))"
proof -
  have "nonce_ok (env_example t)" for t by (simp add: nonce_ok_def env_example_def nonce_example_def)
  then have "\<forall>(env, job) \<in> set calls_example. nonce_ok env \<and> holds_cents (pp_EncryptionKey processor_example) (pj_Amount job) 2500"
    using example_premises(2) by (simp add: calls_example_def)
  moreover have "FindByID (\<lambda>u. ''uuid'') None 7 (tables_example 10000) = Inr (account_example 10000)" by (simp add: example_facts)
  ultimately show ?thesis
    using payments_conserve_money [of calls_example processor_example "\<lambda>j. 2500" "\<lambda>u. ''uuid''" 7 "tables_example 10000" "account_example 10000" 10000]
      example_premises(3) by (auto simp: example_facts)
qed

text \<open>A call that nothing outside disturbs and the detector finds clean, for \<open>cents job\<close> of account \<open>i\<close>.\<close>

definition clean_call :: "PaymentProcessor \<Rightarrow> (uuid \<Rightarrow> string) \<Rightarrow> uuid \<Rightarrow> (PaymentJob \<Rightarrow> nat) \<Rightarrow> PayEnv \<Rightarrow> PaymentJob \<Rightarrow> bool" where
  "clean_call p us i cents env job \<longleftrightarrow> undisturbed env \<and> random_ok env \<and> pe_uuid_string env = us \<and> pj_AccountID job = i \<and>
     holds_cents (pp_EncryptionKey p) (pj_Amount job) (cents job) \<and>
     fs_FraudFlag (fst (Analyze (pp_FraudDetector p) (pe_fraud env) (dollars (cents job)) job)) = FraudFlagClean"

lemma clean_payment:
  assumes "clean_call p us i cents env job" "length (pp_EncryptionKey p) = 32" "FindByID us None i t = Inr acc"
    and "holds_cents (pp_EncryptionKey p) (ac_Balance acc) b" "cents job \<le> b"
    and "holds_average (pp_EncryptionKey p) (ac_AvgOrderAmount acc)" "0 \<le> ac_OrderCount acc" "ac_OrderCount acc + 1 < 2 ^ 31"
  obtains t' tr acc' where "ProcessPayment p (env\<lparr>pe_reader := t\<rparr>) job t = (None, t', tr)" "FindByID us None i t' = Inr acc'"
    "holds_cents (pp_EncryptionKey p) (ac_Balance acc') (b - cents job)"
    "holds_average (pp_EncryptionKey p) (ac_AvgOrderAmount acc')" "ac_OrderCount acc' = ac_OrderCount acc + 1"
proof -
  let ?env = "env\<lparr>pe_reader := t\<rparr>"
  have c: "undisturbed ?env" "random_ok ?env" "pe_uuid_string ?env = us" "pj_AccountID job = i"
    "holds_cents (pp_EncryptionKey p) (pj_Amount job) (cents job)"
    "fs_FraudFlag (fst (Analyze (pp_FraudDetector p) (pe_fraud ?env) (dollars (cents job)) job)) = FraudFlagClean"
    using assms(1) by (simp_all add: clean_call_def undisturbed_def random_ok_def)
  obtain v where v: "DecryptToFloat64 (ac_AvgOrderAmount acc) (pp_EncryptionKey p) = Inr v" "at_most 1 v"
    using assms(6) by (auto simp: holds_average_def split: sum.splits)
  have f: "FindByID (pe_uuid_string ?env) None (pj_AccountID job) t = Inr acc"
    "FindByID (pe_uuid_string ?env) None (pj_AccountID job) (pe_reader ?env) = Inr acc" using assms(3) c(3,4) by simp_all
  show ?thesis
    using payment_debits_read [OF c(1,2) assms(2) f(1) c(5) f(2) assms(4,5) v(1) assms(7,8) c(6)] that v(2) unfolding c(3,4) by blast
qed

lemma clean_payments_succeed:
  assumes "\<forall>(env, job) \<in> set calls. clean_call p us i cents env job" "length (pp_EncryptionKey p) = 32"
    and "FindByID us None i t = Inr acc" "holds_cents (pp_EncryptionKey p) (ac_Balance acc) b"
    and "holds_average (pp_EncryptionKey p) (ac_AvgOrderAmount acc)" "0 \<le> ac_OrderCount acc"
    and "ac_OrderCount acc + int (length calls) < 2 ^ 31" "(\<Sum>(env, job) \<leftarrow> calls. cents job) \<le> b"
  shows "fst (pay_all p calls t) = replicate (length calls) None \<and>
    (\<exists>acc'. FindByID us None i (snd (pay_all p calls t)) = Inr acc' \<and>
       holds_cents (pp_EncryptionKey p) (ac_Balance acc') (b - (\<Sum>(env, job) \<leftarrow> calls. cents job)) \<and>
       ac_OrderCount acc' = ac_OrderCount acc + int (length calls))"
  using assms(1,3-8)
proof (induction calls arbitrary: t acc b)
  case Nil
  then show ?case by simp
next
  case (Cons c calls)
  obtain env job where c: "c = (env, job)" by fastforce
  have le: "cents job \<le> b" "(\<Sum>(env, job) \<leftarrow> calls. cents job) \<le> b - cents job" "ac_OrderCount acc + 1 < 2 ^ 31"
    using Cons.prems(5,6,7) by (simp_all add: c)
  have cl: "clean_call p us i cents env job" using Cons.prems(1) c by simp
  obtain t' tr acc' where pay: "ProcessPayment p (env\<lparr>pe_reader := t\<rparr>) job t = (None, t', tr)" "FindByID us None i t' = Inr acc'"
    "holds_cents (pp_EncryptionKey p) (ac_Balance acc') (b - cents job)"
    "holds_average (pp_EncryptionKey p) (ac_AvgOrderAmount acc')" "ac_OrderCount acc' = ac_OrderCount acc + 1"
    by (rule clean_payment [OF cl assms(2) Cons.prems(2,3) le(1) Cons.prems(4,5) le(3)])
  obtain errs t'' where rest: "pay_all p calls t' = (errs, t'')" by fastforce
  show ?case
    using Cons.IH [OF _ pay(2-4) _ _ le(2)] Cons.prems(1,5,6) pay(5) by (simp add: c pay(1) rest add.assoc)
qed

text \<open>
  Property C15. Covered payments go through: any number of consecutive calls for one account that
  nothing outside disturbs, that are judged clean and whose amounts the balance covers together all
  return nil, the balance ends lower by exactly their sum and the order count higher by their number.
  In particular the average the worker stores with each debit can always be read by the next.
\<close>

theorem covered_payments_all_succeed:
  assumes "\<forall>(env, job) \<in> set calls. clean_call p us i cents env job" "length (pp_EncryptionKey p) = 32"
    and "FindByID us None i t = Inr acc" "holds_cents (pp_EncryptionKey p) (ac_Balance acc) b"
    and "holds_average (pp_EncryptionKey p) (ac_AvgOrderAmount acc)" "0 \<le> ac_OrderCount acc"
    and "ac_OrderCount acc + int (length calls) < 2 ^ 31" "(\<Sum>(env, job) \<leftarrow> calls. cents job) \<le> b"
  shows "fst (pay_all p calls t) = replicate (length calls) None \<and>
    (\<exists>acc'. FindByID us None i (snd (pay_all p calls t)) = Inr acc' \<and>
       holds_cents (pp_EncryptionKey p) (ac_Balance acc') (b - (\<Sum>(env, job) \<leftarrow> calls. cents job)) \<and>
       ac_OrderCount acc' = ac_OrderCount acc + int (length calls))"
  using assms by (rule clean_payments_succeed)

lemma clean_call_example: "clean_call processor_example (\<lambda>u. ''uuid'') 7 (\<lambda>j. 2500) (env_example t) (job_example 2500)"
proof -
  have c: "cents_ok 2500" by (simp add: cents_ok_def)
  show ?thesis
    using example_premises(2) fraud_example_verdict [OF c] example_facts(1,2)
    by (simp add: clean_call_def example_facts(5,6,8)) (simp add: env_example_def)
qed

lemma average_example: "holds_average k (ac_AvgOrderAmount (account_example b))"
  by (simp add: holds_average_def example_facts(12))

theorem covered_payments_all_succeed_witness:
  "fst (pay_all processor_example calls_example (tables_example 10000)) = [None, None] \<and>
   (\<exists>acc'. FindByID (\<lambda>u. ''uuid'') None 7 (snd (pay_all processor_example calls_example (tables_example 10000))) = Inr acc' \<and>
      holds_cents key_example (ac_Balance acc') 5000 \<and> ac_OrderCount acc' = 5)"
proof -
  have calls: "\<forall>(env, job) \<in> set calls_example. clean_call processor_example (\<lambda>u. ''uuid'') 7 (\<lambda>j. 2500) env job"
    using clean_call_example by (simp add: calls_example_def)
  have n: "ac_OrderCount (account_example 10000) + int (length calls_example) < 2 ^ 31"
    "(\<Sum>(env, job) \<leftarrow> calls_example. (2500 :: nat)) \<le> 10000" "FindByID (\<lambda>u. ''uuid'') None 7 (tables_example 10000) = Inr (account_example 10000)"
    by (simp_all add: example_facts calls_example_def)
  note r = covered_payments_all_succeed [OF calls example_facts(3) n(3) example_premises(3) average_example example_premises(5) n(1,2)]
  have "length calls_example = 2" "(\<Sum>(env, job) \<leftarrow> calls_example. (2500 :: nat)) = 5000" by (simp_all add: calls_example_def)
  with r show ?thesis by (simp add: example_facts numeral_2_eq_2)
qed

end
