(* ===== verification/Topic_Manager.thy ===== *)
theory Topic_Manager
  imports Errors
begin

text \<open>
  \<open>pkg/kafka/topic_manager.go\<close>: creation of the topics. The admin client is third-party code:
  what it answers to attempt \<open>n\<close> is \<open>create n\<close>, an error or one result per topic. So is the
  retry loop with exponential backoff: \<open>retry\<close>, an argument, runs an operation attempt by
  attempt for up to two minutes; the code relies on its answer being that of one of the
  attempts (\<open>retry_ok\<close>).
\<close>

record TopicConfig =
  tc_Topic :: string
  tc_NumPartitions :: int
  tc_ReplicationFactor :: int
  tc_Config :: "(string \<times> string) list"

record KafkaConfig =
  kc_BootstrapServers :: string
  kc_Topics :: "TopicConfig list"

datatype kafka_code = ErrNoError | ErrTopicAlreadyExists | OtherCode int

record TopicResult =
  tr_Topic :: string
  tr_Code :: kafka_code
  tr_Text :: string

text \<open>The loop over the results: the first that neither succeeded nor existed is the error.\<close>

fun check_results :: "TopicResult list \<Rightarrow> go_error option" where
  "check_results [] = None"
| "check_results (r # rs) =
     (if tr_Code r \<noteq> ErrNoError \<and> tr_Code r \<noteq> ErrTopicAlreadyExists
      then Some (ErrorString (''kafka topic '' @ tr_Topic r @ '' creation failed: '' @ tr_Text r))
      else check_results rs)"

definition create_operation ::
  "(TopicConfig list \<Rightarrow> nat \<Rightarrow> TopicResult list result) \<Rightarrow> TopicConfig list \<Rightarrow> nat \<Rightarrow> go_error option" where
  "create_operation create topics n =
     (case create topics n of
        Inl err \<Rightarrow> Some (WrapError ''failed to create topics'' err)
      | Inr results \<Rightarrow> check_results results)"

text \<open>\<open>topics\<close> copies every \<open>TopicConfig\<close> into a specification with the same fields.\<close>

definition InitKafkaTopics ::
  "go_error option \<Rightarrow> (TopicConfig list \<Rightarrow> nat \<Rightarrow> TopicResult list result) \<Rightarrow>
   ((nat \<Rightarrow> go_error option) \<Rightarrow> go_error option) \<Rightarrow> KafkaConfig \<Rightarrow> go_error option" where
  "InitKafkaTopics admin create retry cnf =
     (case admin of
        Some err \<Rightarrow> Some (WrapError ''failed to create admin client'' err)
      | None \<Rightarrow> retry (create_operation create (kc_Topics cnf)))"

definition retry_ok :: "((nat \<Rightarrow> go_error option) \<Rightarrow> go_error option) \<Rightarrow> bool" where
  "retry_ok retry \<longleftrightarrow> (\<forall>oper. \<exists>n. retry oper = oper n)"

lemma check_results_None:
  "check_results rs = None \<longleftrightarrow> (\<forall>r \<in> set rs. tr_Code r = ErrNoError \<or> tr_Code r = ErrTopicAlreadyExists)"
  by (induction rs) auto

text \<open>
  The topics are reported ready only if the broker, asked for exactly the
  configured topics, answered some attempt with success or "already exists" for every one of
  them, so initialisation is repeatable; an error is that of the admin client or of an attempt.
\<close>

theorem topics_ready_iff:
  assumes "retry_ok retry"
  shows "(InitKafkaTopics admin create retry cnf = None \<longrightarrow>
      admin = None \<and> (\<exists>n results. create (kc_Topics cnf) n = Inr results \<and>
        (\<forall>r \<in> set results. tr_Code r = ErrNoError \<or> tr_Code r = ErrTopicAlreadyExists))) \<and>
    ((\<forall>n. \<exists>results. create (kc_Topics cnf) n = Inr results \<and>
        (\<forall>r \<in> set results. tr_Code r = ErrTopicAlreadyExists)) \<and> admin = None \<longrightarrow>
      InitKafkaTopics admin create retry cnf = None)"
proof -
  obtain n where n: "retry (create_operation create (kc_Topics cnf)) = create_operation create (kc_Topics cnf) n"
    using assms by (auto simp: retry_ok_def)
  show ?thesis
  proof (intro conjI impI)
    assume "(\<forall>n. \<exists>results. create (kc_Topics cnf) n = Inr results \<and>
        (\<forall>r \<in> set results. tr_Code r = ErrTopicAlreadyExists)) \<and> admin = None"
    then obtain results where "create (kc_Topics cnf) n = Inr results" "\<forall>r \<in> set results. tr_Code r = ErrTopicAlreadyExists"
      and "admin = None" by blast
    then show "InitKafkaTopics admin create retry cnf = None"
      by (simp add: InitKafkaTopics_def n create_operation_def check_results_None)
  next
    assume a: "InitKafkaTopics admin create retry cnf = None"
    then show "admin = None" by (cases admin) (simp_all add: InitKafkaTopics_def)
    then have "create_operation create (kc_Topics cnf) n = None" using a n by (simp add: InitKafkaTopics_def)
    then show "\<exists>n results. create (kc_Topics cnf) n = Inr results \<and>
        (\<forall>r \<in> set results. tr_Code r = ErrNoError \<or> tr_Code r = ErrTopicAlreadyExists)"
      by (cases "create (kc_Topics cnf) n") (auto simp: create_operation_def check_results_None)
  qed
qed

definition topics_example :: KafkaConfig where
  "topics_example = \<lparr>kc_BootstrapServers = ''kafka:9092'', kc_Topics =
     [\<lparr>tc_Topic = ''orders'', tc_NumPartitions = 4, tc_ReplicationFactor = 1, tc_Config = [(''retention.ms'', ''1000'')]\<rparr>]\<rparr>"

theorem topics_ready_iff_witness:
  "InitKafkaTopics None (\<lambda>ts n. Inr (map (\<lambda>t. \<lparr>tr_Topic = tc_Topic t, tr_Code = ErrTopicAlreadyExists, tr_Text = []\<rparr>) ts))
     (\<lambda>oper. oper 3) topics_example = None"
proof -
  have "retry_ok (\<lambda>oper. oper 3)" by (auto simp: retry_ok_def)
  from topics_ready_iff [OF this, of None "\<lambda>ts n. Inr (map (\<lambda>t. \<lparr>tr_Topic = tc_Topic t, tr_Code = ErrTopicAlreadyExists, tr_Text = []\<rparr>) ts)"
      topics_example]
  show ?thesis by simp
qed

end
