(* ===== verification/Order_Handler.thy ===== *)
theory Order_Handler
  imports Payment Commit_Manager Topic_Manager "HOL-Library.Multiset"
begin

text \<open>
  \<open>services/payment-worker/internal/services/kafka_order_handler.go\<close>: the consumer of the order
  topic. \<open>processMessage\<close> handles one message against the answers of the outside (\<open>MsgEnv\<close>:
  the context, the decoding of the message by \<open>encoding/json\<close>, the validator, the encoding and
  production of the dead letter, the broker's answer to the commit) and the interface
  \<open>PaymentProcessor\<close>, an argument. Its state is the commit manager and the tables; its effects,
  the Prometheus counters included, are appended to a trace. A decoding that fails leaves
  whatever it had filled of the job, which is what goes to the dead letter topic.

  The loop of \<open>Start\<close> with its semaphore is the step relation \<open>ostep\<close>.
\<close>

record Message =
  msg_tp :: tp
  msg_offset :: int
  msg_Value :: string

record DlqPayload =
  dlq_job :: PaymentJob
  dlq_failureReason :: string
  dlq_error :: string
  dlq_failedAt :: time

datatype msg_event =
    CountReceived string
  | CountFailed string string
  | CountProcessed string
  | CountDLQ string string
  | DlqProduced string uuid DlqPayload
  | RetryProduced string uuid PaymentJob
  | PaymentRun PaymentJob "pay_event list"
  | Slept duration
  | OffsetCommit "tp \<times> int"
  | TimerStarted string
  | InflightInc
  | InflightDec
  | DurationObserved string

record MsgState =
  ms_cm :: CommitManager
  ms_tables :: Tables
  ms_trace :: "msg_event list"

record MsgEnv =
  me_ctx_done :: bool
  me_unmarshal :: "string \<Rightarrow> PaymentJob \<times> go_error option"
  me_validate :: "PaymentJob \<Rightarrow> go_error option"
  me_marshal_dlq :: "DlqPayload \<Rightarrow> go_error option"
  me_produce_dlq :: "go_error option"
  me_commit :: "go_error option"
  me_now :: time
  me_quote :: "string \<Rightarrow> string"

type_synonym processor = "PaymentJob \<Rightarrow> Tables \<Rightarrow> go_error option \<times> Tables \<times> pay_event list"

definition note_event :: "msg_event \<Rightarrow> MsgState \<Rightarrow> MsgState" where
  "note_event e s = s\<lparr>ms_trace := ms_trace s @ [e]\<rparr>"

text \<open>The call of \<open>Ack\<close> on a message; the key it is given is only logged.\<close>

definition ack_message :: "MsgEnv \<Rightarrow> Message \<Rightarrow> MsgState \<Rightarrow> MsgState" where
  "ack_message env msg s =
     (case Ack (me_commit env) (msg_tp msg) (msg_offset msg) (ms_cm s) of
        (cm, c) \<Rightarrow> s\<lparr>ms_cm := cm, ms_trace := ms_trace s @ (case c of None \<Rightarrow> [] | Some x \<Rightarrow> [OffsetCommit x])\<rparr>)"

definition sendToDLQ :: "string \<Rightarrow> MsgEnv \<Rightarrow> PaymentJob \<Rightarrow> string \<Rightarrow> string \<Rightarrow> MsgState \<Rightarrow> MsgState" where
  "sendToDLQ dlqTopic env job reason errMsg s =
     (let payload = \<lparr>dlq_job = job, dlq_failureReason = reason, dlq_error = errMsg, dlq_failedAt = me_now env\<rparr>
      in case me_marshal_dlq env payload of
        Some err \<Rightarrow> s
      | None \<Rightarrow>
          (case me_produce_dlq env of
             Some err \<Rightarrow> s
           | None \<Rightarrow> note_event (CountDLQ dlqTopic reason)
                 (note_event (DlqProduced dlqTopic (pj_IdempotencyKey job) payload) s)))"

definition processMessage :: "WorkerConfig \<Rightarrow> processor \<Rightarrow> MsgEnv \<Rightarrow> Message \<Rightarrow> MsgState \<Rightarrow> MsgState" where
  "processMessage cfg process env msg s =
     (let topic = tp_topic (msg_tp msg); dlq = wc_KafkaDLQTopic cfg
      in if me_ctx_done env then s
      else case me_unmarshal env (msg_Value msg) of
        (job, Some err) \<Rightarrow>
          ack_message env msg (sendToDLQ dlq env job ''json_unmarshal_error'' (error_text (me_quote env) err)
            (note_event (CountFailed topic ''decode'') s))
      | (job, None) \<Rightarrow>
          (case me_validate env job of
             Some err \<Rightarrow>
               ack_message env msg (sendToDLQ dlq env job ''validation_error'' (error_text (me_quote env) err)
                 (note_event (CountFailed topic ''validation'') s))
           | None \<Rightarrow>
               (case process job (ms_tables s) of
                  (procErr, t, evs) \<Rightarrow>
                    let s1 = note_event (PaymentRun job evs) (s\<lparr>ms_tables := t\<rparr>)
                    in case procErr of
                      Some err \<Rightarrow>
                        (let text = error_text (me_quote env) err
                         in ack_message env msg (sendToDLQ dlq env job text text (note_event (CountFailed topic text) s1)))
                    | None \<Rightarrow> ack_message env msg (note_event (CountProcessed topic) s1))))"

subsection \<open>Wiring\<close>

record OrderConsumer =
  ow_topics :: KafkaConfig
  ow_consumer :: "(string \<times> string) list"
  ow_dlqProducer :: "(string \<times> string) list"
  ow_orderSem :: int
  ow_commitManager :: CommitManager

text \<open>\<open>fmt.Sprintf("%d", d.Milliseconds())\<close>.\<close>

definition retention_ms :: "duration \<Rightarrow> string" where
  "retention_ms d = show_int (go_div d 1000000)"

definition dlq_topics :: "WorkerConfig \<Rightarrow> KafkaConfig" where
  "dlq_topics cfg = \<lparr>kc_BootstrapServers = wc_KafkaBrokers cfg, kc_Topics =
     [\<lparr>tc_Topic = wc_KafkaDLQTopic cfg, tc_NumPartitions = wc_KafkaPartition cfg, tc_ReplicationFactor = 1,
       tc_Config = [(''retention.ms'', retention_ms (wc_KafkaDLQRetention cfg))]\<rparr>]\<rparr>"

text \<open>An error is where the code logs with \<open>Fatal\<close> and the process exits.\<close>

definition NewKafkaOrderConsumer ::
  "(KafkaConfig \<Rightarrow> go_error option) \<Rightarrow> go_error option \<Rightarrow> go_error option \<Rightarrow> WorkerConfig \<Rightarrow> OrderConsumer result" where
  "NewKafkaOrderConsumer init newConsumer newProducer cfg =
     (case init (dlq_topics cfg) of
        Some err \<Rightarrow> Inl err
      | None \<Rightarrow>
          (case newConsumer of
             Some err \<Rightarrow> Inl err
           | None \<Rightarrow>
               (case newProducer of
                  Some err \<Rightarrow> Inl err
                | None \<Rightarrow>
                    Inr \<lparr>ow_topics = dlq_topics cfg,
                         ow_consumer = [(''bootstrap.servers'', wc_KafkaBrokers cfg),
                           (''group.id'', wc_KafkaOrderConsumerGroup cfg),
                           (''auto.offset.reset'', ''earliest''), (''enable.auto.commit'', ''false'')],
                         ow_dlqProducer = [(''bootstrap.servers'', wc_KafkaBrokers cfg), (''acks'', ''all''),
                           (''enable.idempotence'', ''true'')],
                         ow_orderSem = wc_MaxOrdersPlacedConcurrentJobs cfg,
                         ow_commitManager = NewCommitManager\<rparr>)))"

subsection \<open>What one message causes\<close>

fun is_dlq :: "msg_event \<Rightarrow> bool" where
  "is_dlq (DlqProduced a b c) = True"
| "is_dlq _ = False"

fun is_run_event :: "msg_event \<Rightarrow> bool" where
  "is_run_event (PaymentRun a b) = True"
| "is_run_event _ = False"

definition dlq_available :: "MsgEnv \<Rightarrow> bool" where
  "dlq_available env \<longleftrightarrow> (\<forall>p. me_marshal_dlq env p = None) \<and> me_produce_dlq env = None"

lemma note_event_simps [simp]:
  "ms_cm (note_event e s) = ms_cm s" "ms_tables (note_event e s) = ms_tables s"
  "ms_trace (note_event e s) = ms_trace s @ [e]"
  by (simp_all add: note_event_def)

lemma ack_message_simps [simp]:
  "ms_cm (ack_message env msg s) = fst (Ack (me_commit env) (msg_tp msg) (msg_offset msg) (ms_cm s))"
  "ms_tables (ack_message env msg s) = ms_tables s"
  "filter is_dlq (ms_trace (ack_message env msg s)) = filter is_dlq (ms_trace s)"
  "filter is_run_event (ms_trace (ack_message env msg s)) = filter is_run_event (ms_trace s)"
  by (simp_all add: ack_message_def split: prod.split option.split)

lemma sendToDLQ_simps [simp]:
  "ms_cm (sendToDLQ q env job r e s) = ms_cm s" "ms_tables (sendToDLQ q env job r e s) = ms_tables s"
  "filter is_run_event (ms_trace (sendToDLQ q env job r e s)) = filter is_run_event (ms_trace s)"
  by (simp_all add: sendToDLQ_def Let_def split: option.split)

lemma sendToDLQ_dlq:
  "dlq_available env \<Longrightarrow> filter is_dlq (ms_trace (sendToDLQ q env job r e s)) = filter is_dlq (ms_trace s) @
     [DlqProduced q (pj_IdempotencyKey job) \<lparr>dlq_job = job, dlq_failureReason = r, dlq_error = e, dlq_failedAt = me_now env\<rparr>]"
  by (simp add: sendToDLQ_def Let_def dlq_available_def)

text \<open>
  The job a message stands for, when it decodes and passes validation. A message is \<open>parked\<close> when no
  account has changed and one dead letter was written; with a broken dead letter topic there may be none.
  It is \<open>paid\<close> when its payment ran once, its tables are the tables afterwards, and no dead letter was written.
\<close>

definition message_job :: "MsgEnv \<Rightarrow> Message \<Rightarrow> PaymentJob option" where
  "message_job env msg =
     (case me_unmarshal env (msg_Value msg) of
        (job, Some err) \<Rightarrow> None
      | (job, None) \<Rightarrow> if me_validate env job = None then Some job else None)"

definition parked :: "string \<Rightarrow> MsgEnv \<Rightarrow> MsgState \<Rightarrow> MsgState \<Rightarrow> bool" where
  "parked dlq env s s' \<longleftrightarrow> t_accounts (ms_tables s') = t_accounts (ms_tables s) \<and>
     (\<exists>ds. filter is_dlq (ms_trace s') = filter is_dlq (ms_trace s) @ ds \<and> list_all (\<lambda>d. \<exists>key p. d = DlqProduced dlq key p) ds \<and>
        (if dlq_available env then length ds = 1 else length ds \<le> 1))"

definition paid :: "PaymentJob \<Rightarrow> Tables \<Rightarrow> pay_event list \<Rightarrow> MsgState \<Rightarrow> MsgState \<Rightarrow> bool" where
  "paid job t evs s s' \<longleftrightarrow> ms_tables s' = t \<and> filter is_dlq (ms_trace s') = filter is_dlq (ms_trace s) \<and>
     filter is_run_event (ms_trace s') = filter is_run_event (ms_trace s) @ [PaymentRun job evs]"

definition acknowledged :: "MsgEnv \<Rightarrow> Message \<Rightarrow> MsgState \<Rightarrow> MsgState \<Rightarrow> bool" where
  "acknowledged env msg s s' \<longleftrightarrow> ms_cm s' = fst (Ack (me_commit env) (msg_tp msg) (msg_offset msg) (ms_cm s))"

text \<open>Whatever writes at most one dead letter, and one if it can, on unchanged accounts, parks.\<close>

lemma parkedI:
  assumes "t_accounts (ms_tables s') = t_accounts (ms_tables s)"
    and "filter is_dlq (ms_trace s') = filter is_dlq (ms_trace s) @ [DlqProduced q k p] \<or>
      \<not> dlq_available env \<and> filter is_dlq (ms_trace s') = filter is_dlq (ms_trace s)"
  shows "parked q env s s'"
  using assms(2)
proof
  assume "filter is_dlq (ms_trace s') = filter is_dlq (ms_trace s) @ [DlqProduced q k p]"
  then show ?thesis using assms(1) unfolding parked_def by (intro conjI exI [of _ "[DlqProduced q k p]"]) auto
next
  assume "\<not> dlq_available env \<and> filter is_dlq (ms_trace s') = filter is_dlq (ms_trace s)"
  then show ?thesis using assms(1) unfolding parked_def by (intro conjI exI [of _ "[]"]) auto
qed

lemma sendToDLQ_or_not:
  "filter is_dlq (ms_trace (sendToDLQ q env job r e s)) = filter is_dlq (ms_trace s) @
     [DlqProduced q (pj_IdempotencyKey job) \<lparr>dlq_job = job, dlq_failureReason = r, dlq_error = e, dlq_failedAt = me_now env\<rparr>] \<or>
   \<not> dlq_available env \<and> filter is_dlq (ms_trace (sendToDLQ q env job r e s)) = filter is_dlq (ms_trace s)"
  by (auto simp: sendToDLQ_def Let_def dlq_available_def split: option.split)

lemma parked_sendToDLQ:
  assumes "t_accounts (ms_tables x) = t_accounts (ms_tables s)" "filter is_dlq (ms_trace x) = filter is_dlq (ms_trace s)"
  shows "parked q env s (ack_message env msg (sendToDLQ q env job r e x))"
  by (rule parkedI) (use assms sendToDLQ_or_not [of q env job r e x] in simp_all)

text \<open>
  What the handlers rely on in a \<open>PaymentProcessor\<close>: a call that reports an error has not
  touched any account, and only such a call asks for a retry, of the job it was given.
\<close>

locale payment_processor =
  fixes process :: processor
  assumes error_keeps_accounts: "process job t = (Some err, t', evs) \<Longrightarrow> t_accounts t' = t_accounts t"
    and retry_reports_error: "process job t = (res, t', evs) \<Longrightarrow> RetrySend j \<in> set evs \<Longrightarrow> res \<noteq> None \<and> j = job"
begin

text \<open>The job a message is processed as, when it decodes and passes validation.\<close>

lemma invalid_message:
  assumes "\<not> me_ctx_done env" "dlq_available env"
    and "snd (me_unmarshal env (msg_Value msg)) \<noteq> None \<or> me_validate env (fst (me_unmarshal env (msg_Value msg))) \<noteq> None"
    and s': "s' = processMessage cfg process env msg s"
  shows "ms_tables s' = ms_tables s" "filter is_run_event (ms_trace s') = filter is_run_event (ms_trace s)"
    and "\<exists>p. filter is_dlq (ms_trace s') = filter is_dlq (ms_trace s) @
       [DlqProduced (wc_KafkaDLQTopic cfg) (pj_IdempotencyKey (fst (me_unmarshal env (msg_Value msg)))) p] \<and>
       dlq_job p = fst (me_unmarshal env (msg_Value msg))"
  using assms(1,3) unfolding s'
  by (auto simp: processMessage_def Let_def sendToDLQ_dlq [OF assms(2)] split: prod.splits option.splits)

lemma valid_message:
  assumes "\<not> me_ctx_done env" "dlq_available env"
    and "me_unmarshal env (msg_Value msg) = (job, None)" "me_validate env job = None"
    and "process job (ms_tables s) = (err, t, evs)"
    and s': "s' = processMessage cfg process env msg s"
  shows "ms_tables s' = t" "filter is_run_event (ms_trace s') = filter is_run_event (ms_trace s) @ [PaymentRun job evs]"
    and "\<exists>p. filter is_dlq (ms_trace s') = filter is_dlq (ms_trace s) @
       (if err = None then [] else [DlqProduced (wc_KafkaDLQTopic cfg) (pj_IdempotencyKey job) p]) \<and> dlq_job p = job"
  using assms(1,3-5) unfolding s'
  by (auto simp: processMessage_def Let_def sendToDLQ_dlq [OF assms(2)] split: option.splits intro: exI [of _ "\<lparr>dlq_job = job, dlq_failureReason = r, dlq_error = e, dlq_failedAt = n\<rparr>" for r e n])

lemma handled_message:
  assumes s': "s' = processMessage cfg process env msg s"
  shows "if me_ctx_done env then s' = s
    else acknowledged env msg s s' \<and>
      (case message_job env msg of
         None \<Rightarrow> parked (wc_KafkaDLQTopic cfg) env s s' \<and> ms_tables s' = ms_tables s \<and>
           filter is_run_event (ms_trace s') = filter is_run_event (ms_trace s)
       | Some job \<Rightarrow>
           (case process job (ms_tables s) of
              (None, t, evs) \<Rightarrow> paid job t evs s s'
            | (Some err, t, evs) \<Rightarrow> parked (wc_KafkaDLQTopic cfg) env s s' \<and> ms_tables s' = t \<and>
                filter is_run_event (ms_trace s') = filter is_run_event (ms_trace s) @ [PaymentRun job evs]))"
proof (cases "me_ctx_done env")
  case False
  obtain job derr where u: "me_unmarshal env (msg_Value msg) = (job, derr)" by fastforce
  show ?thesis
  proof (cases "derr = None \<and> me_validate env job = None")
    case True
    obtain err t evs where r: "process job (ms_tables s) = (err, t, evs)" using prod_cases3 by blast
    have job: "message_job env msg = Some job" using True by (simp add: message_job_def u)
    show ?thesis
    proof (cases err)
      case None
      then show ?thesis using False True r by (simp add: s' processMessage_def u job acknowledged_def paid_def Let_def)
    next
      case (Some e)
      have "t_accounts t = t_accounts (ms_tables s)" using error_keeps_accounts r Some by blast
      then have "parked (wc_KafkaDLQTopic cfg) env s s'"
        using False True r Some by (simp add: s' processMessage_def u Let_def parked_sendToDLQ)
      then show ?thesis using False True r Some by (simp add: s' processMessage_def u job acknowledged_def Let_def)
    qed
  next
    case bad: False
    have "message_job env msg = None" using bad by (auto simp: message_job_def u split: option.splits)
    then show ?thesis using False bad by (auto simp: s' processMessage_def u acknowledged_def Let_def parked_sendToDLQ split: option.splits)
  qed
qed (simp add: s' processMessage_def Let_def)

lemma retried_is_parked:
  assumes "\<not> me_ctx_done env" "dlq_available env"
    and "me_unmarshal env (msg_Value msg) = (job, None)" "me_validate env job = None"
    and "process job (ms_tables s) = (err, t, evs)" "RetrySend j \<in> set evs"
  shows "\<exists>p. filter is_dlq (ms_trace (processMessage cfg process env msg s)) = filter is_dlq (ms_trace s) @
     [DlqProduced (wc_KafkaDLQTopic cfg) (pj_IdempotencyKey job) p] \<and> dlq_job p = job"
  using valid_message(3) [OF assms(1-5) refl, of cfg] retry_reports_error [OF assms(5,6)] by auto

end

lemma retry_send_reports:
  assumes "ProcessPayment p env job t = (res, t', evs)" "RetrySend j \<in> set evs"
  shows "res \<noteq> None \<and> j = job"
proof -
  have "RetrySend j \<in> set (filter is_send evs)" using assms(2) by simp
  moreover from this have "filter is_send evs \<noteq> []" by (metis empty_iff empty_set)
  ultimately show ?thesis using retry_is_error [of p env job t] assms(1) by auto
qed

interpretation pay: payment_processor "ProcessPayment p env" for p env
proof
  fix job t err t' evs assume "ProcessPayment p env job t = (Some err, t', evs)"
  then show "t_accounts t' = t_accounts t"
    using ProcessPayment_tables [of t' p env job t] by auto
qed (rule retry_send_reports)

text \<open>
  Property C21. What becomes of a message of the order topic, in every case. After the shutdown has begun
  nothing happens to it, and it is not acknowledged. Otherwise its offset is acknowledged to the commit
  manager, once; if it does not decode or does not pass validation it is parked and no payment runs;
  if it does, \<open>ProcessPayment\<close> runs on it once, and the message is paid (no dead letter) when the call
  returns nil and parked when it returns an error. Parked means that no account row has changed and exactly
  one dead letter is written, none at all being possible only when the dead letter topic fails.
\<close>

theorem order_message_paid_or_parked:
  assumes "s' = processMessage cfg (ProcessPayment p penv) env msg s"
  shows "if me_ctx_done env then s' = s
    else acknowledged env msg s s' \<and>
      (case message_job env msg of
         None \<Rightarrow> parked (wc_KafkaDLQTopic cfg) env s s' \<and> ms_tables s' = ms_tables s \<and>
           filter is_run_event (ms_trace s') = filter is_run_event (ms_trace s)
       | Some job \<Rightarrow>
           (case ProcessPayment p penv job (ms_tables s) of
              (None, t, evs) \<Rightarrow> paid job t evs s s'
            | (Some err, t, evs) \<Rightarrow> parked (wc_KafkaDLQTopic cfg) env s s' \<and> ms_tables s' = t \<and>
                filter is_run_event (ms_trace s') = filter is_run_event (ms_trace s) @ [PaymentRun job evs]))"
  by (rule pay.handled_message [OF assms])

lemma processMessage_paid:
  assumes "\<not> me_ctx_done env" "me_unmarshal env (msg_Value msg) = (job, None)" "me_validate env job = None"
    and "process job (ms_tables s) = (None, t, evs)"
  shows "ms_tables (processMessage cfg process env msg s) = t"
    and "filter is_dlq (ms_trace (processMessage cfg process env msg s)) = filter is_dlq (ms_trace s)"
  using assms by (simp_all add: processMessage_def Let_def)

definition msg_env_example :: MsgEnv where
  "msg_env_example = \<lparr>me_ctx_done = False, me_unmarshal = (\<lambda>v. (job_example 2500, None)), me_validate = (\<lambda>j. None),
     me_marshal_dlq = (\<lambda>p. None), me_produce_dlq = None, me_commit = None, me_now = 0, me_quote = id\<rparr>"

definition message_example :: Message where
  "message_example = \<lparr>msg_tp = tp_example, msg_offset = 1, msg_Value = ''json''\<rparr>"

definition msg_state_example :: MsgState where
  "msg_state_example = \<lparr>ms_cm = NewCommitManager, ms_tables = tables_example 10000, ms_trace = []\<rparr>"

lemma msg_env_example_ok: "\<not> me_ctx_done msg_env_example" "dlq_available msg_env_example"
  by (simp_all add: msg_env_example_def dlq_available_def)

theorem order_message_paid_or_parked_witness:
  "\<exists>s' t evs. s' = processMessage worker_config_example (ProcessPayment processor_example (env_example (tables_example 10000)))
      msg_env_example message_example msg_state_example \<and>
     acknowledged msg_env_example message_example msg_state_example s' \<and> paid (job_example 2500) t evs msg_state_example s'"
proof -
  let ?pay = "ProcessPayment processor_example (env_example (tables_example 10000))"
  obtain t evs where pay: "?pay (job_example 2500) (tables_example 10000) = (None, t, evs)"
    using payment_debits [OF example_facts(1-4) example_premises(2,1,3,4) _ example_premises(5-7)] example_facts(12) by blast
  have job: "message_job msg_env_example message_example = Some (job_example 2500)" "\<not> me_ctx_done msg_env_example"
    "ms_tables msg_state_example = tables_example 10000"
    by (simp_all add: message_job_def msg_env_example_def msg_state_example_def)
  show ?thesis
    using order_message_paid_or_parked [OF refl, of msg_env_example worker_config_example processor_example
        "env_example (tables_example 10000)" message_example msg_state_example] pay job by auto
qed

text \<open>
  A job that a payment attempt handed to the retry channel is also written to the
  dead letter topic by the same message, as the same job: it is retried and parked at once.
\<close>

theorem retried_order_also_parked:
  assumes "\<not> me_ctx_done env" "dlq_available env"
    and "me_unmarshal env (msg_Value msg) = (job, None)" "me_validate env job = None"
    and "ProcessPayment p penv job (ms_tables s) = (err, t, evs)" "RetrySend j \<in> set evs"
  shows "\<exists>d. filter is_dlq (ms_trace (processMessage cfg (ProcessPayment p penv) env msg s)) = filter is_dlq (ms_trace s) @
     [DlqProduced (wc_KafkaDLQTopic cfg) (pj_IdempotencyKey job) d] \<and> dlq_job d = job"
  by (rule pay.retried_is_parked [OF assms])

theorem retried_order_also_parked_witness:
  "\<exists>d. filter is_dlq (ms_trace (processMessage worker_config_example
        (ProcessPayment processor_example ((env_example (tables_example 10000))\<lparr>pe_setnx := Inr False\<rparr>))
        msg_env_example message_example msg_state_example)) =
     [DlqProduced ''orders-dlq'' 9 d] \<and> dlq_job d = job_example 2500"
proof -
  let ?env = "(env_example (tables_example 10000))\<lparr>pe_setnx := Inr False\<rparr>"
  obtain err t evs where r: "ProcessPayment processor_example ?env (job_example 2500) (ms_tables msg_state_example) = (err, t, evs)"
    using prod_cases3 by blast
  have "RetrySend (job_example 2500) \<in> set (snd (snd (ProcessPayment processor_example ?env (job_example 2500) (ms_tables msg_state_example))))"
    by (simp add: ProcessPayment_unlocked env_example_def process_unlocked_def)
  then have "RetrySend (job_example 2500) \<in> set evs" by (simp add: r)
  moreover have "me_unmarshal msg_env_example (msg_Value message_example) = (job_example 2500, None)"
    "me_validate msg_env_example (job_example 2500) = None" by (simp_all add: msg_env_example_def)
  ultimately show ?thesis
    using retried_order_also_parked [OF msg_env_example_ok _ _ r, of message_example "job_example 2500" worker_config_example]
    by (simp add: msg_state_example_def worker_config_example_def example_facts)
qed

subsection \<open>The consumer loop\<close>

text \<open>
  The goroutine of \<open>Start\<close> reads a message, waits for a slot of the semaphore \<open>orderSem\<close> or for
  the end of the context, and hands the message to a goroutine of its own, which frees the slot
  when \<open>processMessage\<close> returns. A step of \<open>ostep\<close> is one of these moves; the moves of the
  goroutines interleave freely, a whole \<open>processMessage\<close> counting as one move. \<open>ok\<close> restricts
  the answers of the outside that a run may meet. \<open>slot_taken\<close> is what the loop does once it has a
  slot, and \<open>run_message\<close> the goroutine of a message with its deferred function.
\<close>

definition slot_taken :: "Message \<Rightarrow> MsgState \<Rightarrow> MsgState" where
  "slot_taken m s = note_event InflightInc (note_event (TimerStarted (tp_topic (msg_tp m))) s)"

definition run_message :: "WorkerConfig \<Rightarrow> processor \<Rightarrow> MsgEnv \<Rightarrow> Message \<Rightarrow> MsgState \<Rightarrow> MsgState" where
  "run_message cfg process env m s =
     note_event (DurationObserved (tp_topic (msg_tp m))) (note_event InflightDec (processMessage cfg process env m s))"

record OrderLoop =
  ol_waiting :: "Message option"
  ol_inflight :: "Message list"
  ol_finished :: "Message list"
  ol_abandoned :: "Message list"
  ol_received :: "Message list"
  ol_cancelled :: bool
  ol_stopped :: bool
  ol_state :: MsgState

definition order_loop_start :: "Tables \<Rightarrow> OrderLoop" where
  "order_loop_start t = \<lparr>ol_waiting = None, ol_inflight = [], ol_finished = [], ol_abandoned = [], ol_received = [],
     ol_cancelled = False, ol_stopped = False,
     ol_state = \<lparr>ms_cm = NewCommitManager, ms_tables = t, ms_trace = []\<rparr>\<rparr>"

inductive ostep :: "WorkerConfig \<Rightarrow> (MsgEnv \<Rightarrow> Message \<Rightarrow> bool) \<Rightarrow> OrderLoop \<Rightarrow> OrderLoop \<Rightarrow> bool"
  for cfg :: WorkerConfig and ok :: "MsgEnv \<Rightarrow> Message \<Rightarrow> bool" where
  Receive: "\<not> ol_stopped s \<Longrightarrow> ol_waiting s = None \<Longrightarrow>
    ostep cfg ok s (s\<lparr>ol_waiting := Some m, ol_received := ol_received s @ [m],
      ol_state := note_event (CountReceived (tp_topic (msg_tp m))) (ol_state s)\<rparr>)"
| Acquire: "ol_waiting s = Some m \<Longrightarrow> int (length (ol_inflight s)) < wc_MaxOrdersPlacedConcurrentJobs cfg \<Longrightarrow>
    ostep cfg ok s (s\<lparr>ol_waiting := None, ol_inflight := m # ol_inflight s, ol_state := slot_taken m (ol_state s)\<rparr>)"
| CancelContext: "ostep cfg ok s (s\<lparr>ol_cancelled := True\<rparr>)"
| Stop: "ol_waiting s = Some m \<Longrightarrow> ol_cancelled s \<Longrightarrow>
    ostep cfg ok s (s\<lparr>ol_waiting := None, ol_abandoned := m # ol_abandoned s, ol_stopped := True\<rparr>)"
| Finish: "m \<in> set (ol_inflight s) \<Longrightarrow> ok env m \<Longrightarrow> \<not> me_ctx_done env \<Longrightarrow>
    ostep cfg ok s (s\<lparr>ol_inflight := remove1 m (ol_inflight s), ol_finished := m # ol_finished s,
      ol_state := run_message cfg process env m (ol_state s)\<rparr>)"
| Drop: "m \<in> set (ol_inflight s) \<Longrightarrow> ok env m \<Longrightarrow> me_ctx_done env \<Longrightarrow> ol_cancelled s \<Longrightarrow>
    ostep cfg ok s (s\<lparr>ol_inflight := remove1 m (ol_inflight s), ol_abandoned := m # ol_abandoned s,
      ol_state := run_message cfg process env m (ol_state s)\<rparr>)"

text \<open>The accounting of a consumer loop with \<open>slots\<close> slots, and the two ways a message leaves its slot.\<close>

definition loop_inv :: "int \<Rightarrow> OrderLoop \<Rightarrow> bool" where
  "loop_inv slots s \<longleftrightarrow>
     int (length (ol_inflight s)) \<le> max 0 slots \<and>
     mset (ol_received s) = mset (case ol_waiting s of None \<Rightarrow> [] | Some m \<Rightarrow> [m]) + mset (ol_inflight s) +
       mset (ol_finished s) + mset (ol_abandoned s) \<and>
     (ol_abandoned s \<noteq> [] \<or> ol_stopped s \<longrightarrow> ol_cancelled s)"

lemma loop_inv_leave:
  assumes "m \<in> set (ol_inflight s)" "loop_inv slots s"
  shows "loop_inv slots (s\<lparr>ol_inflight := remove1 m (ol_inflight s), ol_finished := m # ol_finished s, ol_state := x\<rparr>)"
    and "ol_cancelled s \<Longrightarrow>
      loop_inv slots (s\<lparr>ol_inflight := remove1 m (ol_inflight s), ol_abandoned := m # ol_abandoned s, ol_state := x\<rparr>)"
proof -
  have "length (remove1 m (ol_inflight s)) \<le> length (ol_inflight s)"
    "mset (ol_inflight s) = mset (remove1 m (ol_inflight s)) + {#m#}" using assms(1) by (simp_all add: length_remove1)
  then show "loop_inv slots (s\<lparr>ol_inflight := remove1 m (ol_inflight s), ol_finished := m # ol_finished s, ol_state := x\<rparr>)"
    "ol_cancelled s \<Longrightarrow>
      loop_inv slots (s\<lparr>ol_inflight := remove1 m (ol_inflight s), ol_abandoned := m # ol_abandoned s, ol_state := x\<rparr>)"
    using assms(2) by (simp_all add: loop_inv_def del: mset_remove1)
qed

lemma ostep_inv:
  "ostep cfg ok s s' \<Longrightarrow> loop_inv (wc_MaxOrdersPlacedConcurrentJobs cfg) s \<Longrightarrow> loop_inv (wc_MaxOrdersPlacedConcurrentJobs cfg) s'"
  by (induction rule: ostep.induct) (simp_all add: loop_inv_leave, auto simp: loop_inv_def)

lemma loop_start_inv: "loop_inv slots (order_loop_start t)"
  by (simp add: loop_inv_def order_loop_start_def)

lemma reachable_inv: "(ostep cfg ok)\<^sup>*\<^sup>* (order_loop_start t) s \<Longrightarrow> loop_inv (wc_MaxOrdersPlacedConcurrentJobs cfg) s"
  by (induction rule: rtranclp_induct) (auto intro: loop_start_inv ostep_inv)

text \<open>
  However the goroutines interleave, the worker never has more messages in flight
  than the configured number of slots, and every message it has read is, as often as it was
  read, exactly one of: waiting for a slot, in flight, finished, or abandoned; messages are
  abandoned, and reading stops, only after the context was cancelled.
\<close>

theorem order_loop_bounded_and_lossless:
  assumes "(ostep cfg ok)\<^sup>*\<^sup>* (order_loop_start t) s" "WorkerConfig_tags cfg"
  shows "int (length (ol_inflight s)) \<le> wc_MaxOrdersPlacedConcurrentJobs cfg \<and>
    mset (ol_received s) = mset (case ol_waiting s of None \<Rightarrow> [] | Some m \<Rightarrow> [m]) + mset (ol_inflight s) +
      mset (ol_finished s) + mset (ol_abandoned s) \<and>
    (ol_abandoned s \<noteq> [] \<or> ol_stopped s \<longrightarrow> ol_cancelled s)"
  using reachable_inv [OF assms(1)] assms(2) by (simp add: loop_inv_def WorkerConfig_tags_def)

definition loop_example :: OrderLoop where
  "loop_example = (order_loop_start (tables_example 10000))\<lparr>ol_waiting := Some message_example, ol_received := [message_example],
     ol_state := note_event (CountReceived (tp_topic (msg_tp message_example))) (ol_state (order_loop_start (tables_example 10000)))\<rparr>"

lemma loop_example_reachable: "(ostep cfg ok)\<^sup>*\<^sup>* (order_loop_start (tables_example 10000)) loop_example"
  using ostep.Receive [of "order_loop_start (tables_example 10000)" cfg ok message_example]
  by (auto simp: order_loop_start_def loop_example_def)

theorem order_loop_bounded_and_lossless_witness:
  "int (length (ol_inflight loop_example)) \<le> 8 \<and> mset (ol_received loop_example) = {#message_example#}"
  using order_loop_bounded_and_lossless [OF loop_example_reachable worker_config_example_tags(1)]
  by (simp add: loop_example_def order_loop_start_def worker_config_example_def)

text \<open>The offsets of a partition whose messages have finished.\<close>

definition finished_offsets :: "tp \<Rightarrow> OrderLoop \<Rightarrow> int set" where
  "finished_offsets key s = {msg_offset m | m. m \<in> set (ol_finished s) \<and> msg_tp m = key}"

definition commit_inv :: "OrderLoop \<Rightarrow> bool" where
  "commit_inv s \<longleftrightarrow> (\<forall>key. cm_tracks key (finished_offsets key s) (ms_cm (ol_state s)) \<and>
     (\<forall>c. OffsetCommit (key, c) \<in> set (ms_trace (ol_state s)) \<longrightarrow> 2 \<le> c \<and> {1..<c} \<subseteq> finished_offsets key s))"

definition commits_ok :: "MsgEnv \<Rightarrow> Message \<Rightarrow> bool" where
  "commits_ok env m \<longleftrightarrow> me_commit env = None \<and> offset_ok (msg_offset m)"

lemma ack_message_commits:
  "OffsetCommit x \<in> set (ms_trace (ack_message env m s)) \<Longrightarrow>
   OffsetCommit x \<in> set (ms_trace s) \<or> snd (Ack (me_commit env) (msg_tp m) (msg_offset m) (ms_cm s)) = Some x"
  by (auto simp: ack_message_def split: prod.splits option.splits)

lemma sendToDLQ_commits:
  "OffsetCommit x \<in> set (ms_trace (sendToDLQ q env job r e s)) \<longleftrightarrow> OffsetCommit x \<in> set (ms_trace s)"
  by (simp add: sendToDLQ_def Let_def split: option.split)

lemma processMessage_ack:
  assumes "\<not> me_ctx_done env"
  shows "ms_cm (processMessage cfg process env m s) = fst (Ack (me_commit env) (msg_tp m) (msg_offset m) (ms_cm s))"
    and "OffsetCommit x \<in> set (ms_trace (processMessage cfg process env m s)) \<Longrightarrow>
      OffsetCommit x \<in> set (ms_trace s) \<or> snd (Ack (me_commit env) (msg_tp m) (msg_offset m) (ms_cm s)) = Some x"
  using assms
  by (auto simp: processMessage_def Let_def sendToDLQ_commits split: prod.splits option.splits dest!: ack_message_commits)

lemma single_ack:
  assumes "offset_ok off" "cm_tracks key A m"
  shows "cm_tracks key (if k = key then insert off A else A) (fst (Ack None k off m))"
    and "snd (Ack None k off m) = Some (key, c) \<Longrightarrow> 2 \<le> c \<and> {1..<c} \<subseteq> (if k = key then insert off A else A)"
proof -
  have fine: "acks_fine [(None, k, off)]" using assms by (simp add: acks_fine_def)
  have A: "A \<union> acked key [(None, k, off)] = (if k = key then insert off A else A)" by (simp add: acked_Cons)
  show "cm_tracks key (if k = key then insert off A else A) (fst (Ack None k off m))"
    using acks_tracks [OF fine assms(2)] by (cases "Ack None k off m") (simp add: A)
  show "2 \<le> c \<and> {1..<c} \<subseteq> (if k = key then insert off A else A)" if "snd (Ack None k off m) = Some (key, c)"
    using acks_commits [OF fine assms(2), of c] that assms(2)
    by (cases "Ack None k off m") (simp add: A cm_abs_def is_run_def)
qed

text \<open>
  What a consumer loop relies on in the handler it runs for a message: outside shutdown the
  handler acknowledges exactly this message and commits nothing else, and during shutdown
  (\<open>gone\<close>) it leaves commits and the commit manager alone.
\<close>

locale acking_handler =
  fixes handle :: "'env \<Rightarrow> Message \<Rightarrow> MsgState \<Rightarrow> MsgState"
    and gone :: "'env \<Rightarrow> Message \<Rightarrow> bool"
    and answer :: "'env \<Rightarrow> go_error option"
  assumes acks_message: "\<not> gone env m \<Longrightarrow>
      ms_cm (handle env m s) = fst (Ack (answer env) (msg_tp m) (msg_offset m) (ms_cm s))"
    and commits_message: "\<not> gone env m \<Longrightarrow> OffsetCommit x \<in> set (ms_trace (handle env m s)) \<Longrightarrow>
      OffsetCommit x \<in> set (ms_trace s) \<or> snd (Ack (answer env) (msg_tp m) (msg_offset m) (ms_cm s)) = Some x"
    and gone_keeps: "gone env m \<Longrightarrow> ms_cm (handle env m s) = ms_cm s \<and>
      (OffsetCommit x \<in> set (ms_trace (handle env m s)) \<longrightarrow> OffsetCommit x \<in> set (ms_trace s))"
begin

lemma finish_commits:
  assumes "\<not> gone env m" "answer env = None" "offset_ok (msg_offset m)" "commit_inv s"
  shows "commit_inv (s\<lparr>ol_inflight := inflight, ol_finished := m # ol_finished s, ol_state := handle env m (ol_state s)\<rparr>)"
proof -
  let ?s' = "s\<lparr>ol_inflight := inflight, ol_finished := m # ol_finished s, ol_state := handle env m (ol_state s)\<rparr>"
  have off: "finished_offsets key ?s' =
      (if msg_tp m = key then insert (msg_offset m) (finished_offsets key s) else finished_offsets key s)" for key
    by (auto simp: finished_offsets_def)
  have tr: "cm_tracks key (finished_offsets key s) (ms_cm (ol_state s))" for key
    using assms(4) by (simp add: commit_inv_def)
  have "cm_tracks key (finished_offsets key ?s') (ms_cm (ol_state ?s'))" for key
    using single_ack(1) [OF assms(3) tr] acks_message [OF assms(1)] assms(2) off by simp
  moreover have "2 \<le> c \<and> {1..<c} \<subseteq> finished_offsets key ?s'" if "OffsetCommit (key, c) \<in> set (ms_trace (ol_state ?s'))" for key c
  proof -
    have "OffsetCommit (key, c) \<in> set (ms_trace (ol_state s)) \<or>
        snd (Ack None (msg_tp m) (msg_offset m) (ms_cm (ol_state s))) = Some (key, c)"
      using commits_message [OF assms(1)] that assms(2) by fastforce
    then show ?thesis
    proof
      assume "OffsetCommit (key, c) \<in> set (ms_trace (ol_state s))"
      then have "2 \<le> c \<and> {1..<c} \<subseteq> finished_offsets key s" using assms(4) by (simp add: commit_inv_def)
      then show ?thesis by (auto simp: off)
    qed (use single_ack(2) [OF assms(3) tr] off in simp)
  qed
  ultimately show ?thesis unfolding commit_inv_def by blast
qed

lemma gone_commits:
  assumes "gone env m" "commit_inv s"
  shows "commit_inv (s\<lparr>ol_inflight := inflight, ol_abandoned := abandoned, ol_state := handle env m (ol_state s)\<rparr>)"
proof -
  have "ms_cm (handle env m (ol_state s)) = ms_cm (ol_state s)"
    "OffsetCommit x \<in> set (ms_trace (handle env m (ol_state s))) \<Longrightarrow> OffsetCommit x \<in> set (ms_trace (ol_state s))" for x
    using gone_keeps [OF assms(1)] by auto
  then show ?thesis using assms(2) by (auto simp: commit_inv_def finished_offsets_def)
qed

end

lemma run_message_state [simp]:
  "ms_cm (run_message cfg process env m s) = ms_cm (processMessage cfg process env m s)"
  "OffsetCommit x \<in> set (ms_trace (run_message cfg process env m s)) \<longleftrightarrow>
   OffsetCommit x \<in> set (ms_trace (processMessage cfg process env m s))"
  "ms_cm (slot_taken m s) = ms_cm s"
  "OffsetCommit x \<in> set (ms_trace (slot_taken m s)) \<longleftrightarrow> OffsetCommit x \<in> set (ms_trace s)"
  by (simp_all add: run_message_def slot_taken_def note_event_def)

interpretation order_handler: acking_handler "run_message cfg process" "\<lambda>env m. me_ctx_done env" me_commit for cfg process
proof
  fix env :: MsgEnv and m s x
  show "me_ctx_done env \<Longrightarrow> ms_cm (run_message cfg process env m s) = ms_cm s \<and>
      (OffsetCommit x \<in> set (ms_trace (run_message cfg process env m s)) \<longrightarrow> OffsetCommit x \<in> set (ms_trace s))"
    by (simp add: processMessage_def)
qed (use processMessage_ack in simp_all)

lemma ostep_commit_inv: "ostep cfg commits_ok s s' \<Longrightarrow> commit_inv s \<Longrightarrow> commit_inv s'"
proof (induction rule: ostep.induct)
  case (Finish m s env process)
  then show ?case by (intro order_handler.finish_commits) (simp_all add: commits_ok_def)
next
  case (Drop m s env process)
  then show ?case by (intro order_handler.gone_commits) simp_all
qed (auto simp: commit_inv_def finished_offsets_def)

text \<open>In the first state nothing is committed and nothing is done.\<close>

lemma commit_inv_start: "commit_inv (order_loop_start t)"
  using cm_tracks_new by (simp add: commit_inv_def order_loop_start_def finished_offsets_def)

text \<open>
  Property C20. The order consumer delivers at least once: in every reachable state, whatever the
  interleaving and the outcome of each payment (and provided the broker accepts the commits), a
  position \<open>c\<close> that was committed for a partition lies behind finished messages only: all
  offsets from 1 to \<open>c - 1\<close> belong to messages whose processing is over. A crash can therefore
  skip no message of the partition but the one at offset 0.
\<close>

theorem order_loop_commits_only_finished:
  assumes "(ostep cfg commits_ok)\<^sup>*\<^sup>* (order_loop_start t) s" "OffsetCommit (key, c) \<in> set (ms_trace (ol_state s))"
  shows "{1..<c} \<subseteq> {msg_offset m | m. m \<in> set (ol_finished s) \<and> msg_tp m = key}"
proof -
  have "commit_inv s" using assms(1)
    by (induction rule: rtranclp_induct) (auto intro: commit_inv_start ostep_commit_inv)
  then show ?thesis using assms(2) by (auto simp: commit_inv_def finished_offsets_def)
qed

definition loop_done_example :: OrderLoop where
  "loop_done_example = (let s = loop_example\<lparr>ol_waiting := None, ol_inflight := [message_example], ol_state := slot_taken message_example (ol_state loop_example)\<rparr>
     in s\<lparr>ol_inflight := [], ol_finished := [message_example],
          ol_state := run_message worker_config_example (\<lambda>j t. (None, t, [])) msg_env_example message_example (ol_state s)\<rparr>)"

lemma loop_done_example_reachable:
  "(ostep worker_config_example commits_ok)\<^sup>*\<^sup>* (order_loop_start (tables_example 10000)) loop_done_example"
proof -
  let ?s = "loop_example\<lparr>ol_waiting := None, ol_inflight := [message_example], ol_state := slot_taken message_example (ol_state loop_example)\<rparr>"
  have "ostep worker_config_example commits_ok loop_example ?s"
    using ostep.Acquire [of loop_example message_example worker_config_example commits_ok]
    by (simp add: loop_example_def order_loop_start_def worker_config_example_def)
  moreover have "ostep worker_config_example commits_ok ?s loop_done_example"
    using ostep.Finish [of message_example ?s commits_ok msg_env_example worker_config_example "\<lambda>j t. (None, t, [])"]
    by (simp add: loop_done_example_def loop_example_def order_loop_start_def msg_env_example_def commits_ok_def
        message_example_def offset_ok_def)
  ultimately show ?thesis using loop_example_reachable by (meson rtranclp.rtrancl_into_rtrancl)
qed

theorem order_loop_commits_only_finished_witness:
  "OffsetCommit (tp_example, 2) \<in> set (ms_trace (ol_state loop_done_example)) \<and>
   {1..<2} \<subseteq> {msg_offset m | m. m \<in> set (ol_finished loop_done_example) \<and> msg_tp m = tp_example}"
proof -
  have "OffsetCommit (tp_example, 2) \<in> set (ms_trace (ol_state loop_done_example))"
    by (simp add: loop_done_example_def loop_example_def order_loop_start_def processMessage_def msg_env_example_def
        slot_taken_def message_example_def ack_message_def NewCommitManager_def Ack_def advance_eval offset_ok_def wrap64_def Let_def)
  with order_loop_commits_only_finished [OF loop_done_example_reachable this] show ?thesis by blast
qed

end
