(* ===== verification/Retry_Handler.thy ===== *)
theory Retry_Handler
  imports Order_Handler Backoff
begin

text \<open>
  \<open>services/payment-worker/internal/services/kafka_retry_handler.go\<close>: the goroutine that takes
  jobs from the retry channel and publishes them with a backoff to the retry topic
  (\<open>retry_channel_job\<close>, one iteration of \<open>startRetryChannelHandler\<close>), and the consumer of that
  topic (\<open>processRetryMessage\<close>). State and trace are those of the order handler; \<open>RetryEnv\<close>
  adds the answers only this handler asks for. A panic of the backoff function is \<open>None\<close>.
  \<open>UpdateStatusByIdempotencyID\<close> runs outside a transaction: it changes the tables at once.
\<close>

record RetryEnv =
  re_msg :: MsgEnv
  re_status_fault :: "go_error option"
  re_conv :: int
  re_int63n :: "int \<Rightarrow> int"
  re_marshal :: "PaymentJob \<Rightarrow> go_error option"
  re_produce :: "go_error option"
  re_now_until :: time
  re_ctx_done_after :: bool

definition sendToRetryDLQ :: "WorkerConfig \<Rightarrow> MsgEnv \<Rightarrow> PaymentJob \<Rightarrow> string \<Rightarrow> string \<Rightarrow> MsgState \<Rightarrow> MsgState" where
  "sendToRetryDLQ cfg env job reason errMsg s =
     (let payload = \<lparr>dlq_job = job, dlq_failureReason = reason, dlq_error = errMsg, dlq_failedAt = me_now env\<rparr>
      in case me_marshal_dlq env payload of
        Some err \<Rightarrow> s
      | None \<Rightarrow>
          (case me_produce_dlq env of
             Some err \<Rightarrow> s
           | None \<Rightarrow> note_event (DlqProduced (wc_KafkaRetryDLQTopic cfg) (pj_IdempotencyKey job) payload) s))"

definition UpdateStatusByIdempotencyID ::
  "go_error option \<Rightarrow> time \<Rightarrow> uuid \<Rightarrow> OrderStatus \<Rightarrow> string \<Rightarrow> Tables \<Rightarrow> int result \<times> Tables" where
  "UpdateStatusByIdempotencyID fault now key status message t =
     (case fault of
        Some err \<Rightarrow> (Inl err, t)
      | None \<Rightarrow> (case UpdateStatus now key status message t of Inl err \<Rightarrow> (Inl err, t) | Inr (t', n) \<Rightarrow> (Inr n, t')))"

text \<open>\<open>msg\<close> is nil when the check is made for the channel.\<close>

definition checkIfMaxRetryLimitExceeded ::
  "WorkerConfig \<Rightarrow> RetryEnv \<Rightarrow> PaymentJob \<Rightarrow> Message option \<Rightarrow> MsgState \<Rightarrow> go_error option \<times> MsgState" where
  "checkIfMaxRetryLimitExceeded cfg env job msg s =
     (if pj_RetryCount job > wc_MaxRetryCount cfg
      then
        (let (affectedRows, t) = UpdateStatusByIdempotencyID (re_status_fault env) (me_now (re_msg env)) (pj_IdempotencyKey job)
               OrderStatusFailed (''failed transaction after '' @ show_int (pj_RetryCount job) @ '' retries'') (ms_tables s);
             s1 = sendToRetryDLQ cfg (re_msg env) job ''max retry exceeded''
               (''Max retry count exceeded: '' @ show_int (wc_MaxRetryCount cfg)) (s\<lparr>ms_tables := t\<rparr>);
             s2 = (case msg of None \<Rightarrow> s1 | Some m \<Rightarrow> ack_message (re_msg env) m s1)
         in (Some (ErrorString ''max retry count exceeded''), s2))
      else (None, s))"

definition retry_channel_job :: "WorkerConfig \<Rightarrow> RetryEnv \<Rightarrow> PaymentJob \<Rightarrow> MsgState \<Rightarrow> MsgState option" where
  "retry_channel_job cfg env job s =
     (let job = job\<lparr>pj_RetryCount := wrap64 (pj_RetryCount job + 1)\<rparr>
      in case checkIfMaxRetryLimitExceeded cfg env job None s of
        (Some err, s) \<Rightarrow> Some s
      | (None, s) \<Rightarrow>
          (case CalculateExponentialBackoffWithJitter (re_conv env) (re_int63n env) (pj_RetryCount job)
                  (wc_RetryBaseBackoff cfg) (wc_MaxRetryBackoff cfg) of
             None \<Rightarrow> None
           | Some delay \<Rightarrow>
               (let job = job\<lparr>pj_NextRetryTime := me_now (re_msg env) + delay\<rparr>
                in case re_marshal env job of
                  Some err \<Rightarrow> Some s
                | None \<Rightarrow>
                    (case re_produce env of
                       Some err \<Rightarrow> Some s
                     | None \<Rightarrow> Some (note_event (RetryProduced (wc_KafkaRetryTopic cfg) (pj_IdempotencyKey job) job) s)))))"

definition processRetryMessage :: "WorkerConfig \<Rightarrow> processor \<Rightarrow> RetryEnv \<Rightarrow> Message \<Rightarrow> MsgState \<Rightarrow> MsgState" where
  "processRetryMessage cfg process env msg s =
     (let me = re_msg env; text = error_text (me_quote me)
      in if me_ctx_done me then s
      else case me_unmarshal me (msg_Value msg) of
        (job, Some err) \<Rightarrow> ack_message me msg (sendToRetryDLQ cfg me job ''Json unmarshal error'' (text err) s)
      | (job, None) \<Rightarrow>
          (case me_validate me job of
             Some err \<Rightarrow> ack_message me msg (sendToRetryDLQ cfg me job ''Validate Error'' (text err) s)
           | None \<Rightarrow>
               (case checkIfMaxRetryLimitExceeded cfg env job (Some msg) s of
                  (Some err, s) \<Rightarrow> s
                | (None, s) \<Rightarrow>
                    (let s1 = (if me_now me < pj_NextRetryTime job
                               then note_event (Slept (pj_NextRetryTime job - re_now_until env)) s else s)
                     in if re_ctx_done_after env then s1
                        else (case process job (ms_tables s1) of
                          (procErr, t, evs) \<Rightarrow>
                            let s2 = note_event (PaymentRun job evs) (s1\<lparr>ms_tables := t\<rparr>)
                            in case procErr of
                              Some err \<Rightarrow> ack_message me msg (sendToRetryDLQ cfg me job ''Process payment error'' (text err) s2)
                            | None \<Rightarrow> ack_message me msg s2)))))"

subsection \<open>The retry budget\<close>

fun is_retry_msg :: "msg_event \<Rightarrow> bool" where
  "is_retry_msg (RetryProduced a b c) = True"
| "is_retry_msg _ = False"

lemma sendToRetryDLQ_simps [simp]:
  "ms_cm (sendToRetryDLQ cfg env job r e s) = ms_cm s" "ms_tables (sendToRetryDLQ cfg env job r e s) = ms_tables s"
  "filter is_run_event (ms_trace (sendToRetryDLQ cfg env job r e s)) = filter is_run_event (ms_trace s)"
  "filter is_retry_msg (ms_trace (sendToRetryDLQ cfg env job r e s)) = filter is_retry_msg (ms_trace s)"
  by (simp_all add: sendToRetryDLQ_def Let_def split: option.split)

lemma sendToRetryDLQ_dlq:
  "dlq_available env \<Longrightarrow> filter is_dlq (ms_trace (sendToRetryDLQ cfg env job r e s)) = filter is_dlq (ms_trace s) @
     [DlqProduced (wc_KafkaRetryDLQTopic cfg) (pj_IdempotencyKey job)
        \<lparr>dlq_job = job, dlq_failureReason = r, dlq_error = e, dlq_failedAt = me_now env\<rparr>]"
  by (simp add: sendToRetryDLQ_def Let_def dlq_available_def)

lemma parked_sendToRetryDLQ:
  assumes "t_accounts (ms_tables x) = t_accounts (ms_tables s)" "filter is_dlq (ms_trace x) = filter is_dlq (ms_trace s)"
  shows "parked (wc_KafkaRetryDLQTopic cfg) env s (sendToRetryDLQ cfg env job r e x)"
    "parked (wc_KafkaRetryDLQTopic cfg) env s (ack_message env msg (sendToRetryDLQ cfg env job r e x))"
proof -
  have "filter is_dlq (ms_trace (sendToRetryDLQ cfg env job r e x)) = filter is_dlq (ms_trace x) @
      [DlqProduced (wc_KafkaRetryDLQTopic cfg) (pj_IdempotencyKey job)
        \<lparr>dlq_job = job, dlq_failureReason = r, dlq_error = e, dlq_failedAt = me_now env\<rparr>] \<or>
    \<not> dlq_available env \<and> filter is_dlq (ms_trace (sendToRetryDLQ cfg env job r e x)) = filter is_dlq (ms_trace x)"
    by (auto simp: sendToRetryDLQ_def Let_def dlq_available_def split: option.split)
  then show "parked (wc_KafkaRetryDLQTopic cfg) env s (sendToRetryDLQ cfg env job r e x)"
    "parked (wc_KafkaRetryDLQTopic cfg) env s (ack_message env msg (sendToRetryDLQ cfg env job r e x))"
    by (auto intro!: parkedI simp: assms)
qed

lemma check_within: "pj_RetryCount job \<le> wc_MaxRetryCount cfg \<Longrightarrow> checkIfMaxRetryLimitExceeded cfg env job msg s = (None, s)"
  by (simp add: checkIfMaxRetryLimitExceeded_def)

text \<open>The job the channel handler publishes for \<open>job\<close>, if it publishes one.\<close>

definition requeued :: "WorkerConfig \<Rightarrow> RetryEnv \<Rightarrow> PaymentJob \<Rightarrow> PaymentJob \<Rightarrow> bool" where
  "requeued cfg env job job' \<longleftrightarrow> (\<exists>s s'. retry_channel_job cfg env job s = Some s' \<and>
     filter is_retry_msg (ms_trace s') = filter is_retry_msg (ms_trace s) @
       [RetryProduced (wc_KafkaRetryTopic cfg) (pj_IdempotencyKey job') job'])"

lemma retry_channel_job_trace:
  assumes "retry_channel_job cfg env job s = Some s'"
  shows "filter is_retry_msg (ms_trace s') = filter is_retry_msg (ms_trace s) \<or>
    (\<exists>delay. CalculateExponentialBackoffWithJitter (re_conv env) (re_int63n env) (wrap64 (pj_RetryCount job + 1))
        (wc_RetryBaseBackoff cfg) (wc_MaxRetryBackoff cfg) = Some delay \<and>
      wrap64 (pj_RetryCount job + 1) \<le> wc_MaxRetryCount cfg \<and>
      filter is_retry_msg (ms_trace s') = filter is_retry_msg (ms_trace s) @
        [RetryProduced (wc_KafkaRetryTopic cfg) (pj_IdempotencyKey job)
          (job\<lparr>pj_RetryCount := wrap64 (pj_RetryCount job + 1), pj_NextRetryTime := me_now (re_msg env) + delay\<rparr>)])"
proof (cases "wrap64 (pj_RetryCount job + 1) \<le> wc_MaxRetryCount cfg")
  case True
  then show ?thesis
    using assms by (auto simp: retry_channel_job_def check_within Let_def split: option.splits)
next
  case False
  then have "filter is_retry_msg (ms_trace s') = filter is_retry_msg (ms_trace s)"
    using assms by (auto simp: retry_channel_job_def checkIfMaxRetryLimitExceeded_def Let_def split: prod.splits)
  then show ?thesis by simp
qed

lemma requeuedE:
  assumes "requeued cfg env job job'"
  obtains delay where "CalculateExponentialBackoffWithJitter (re_conv env) (re_int63n env) (wrap64 (pj_RetryCount job + 1))
      (wc_RetryBaseBackoff cfg) (wc_MaxRetryBackoff cfg) = Some delay"
    "wrap64 (pj_RetryCount job + 1) \<le> wc_MaxRetryCount cfg"
    "job' = job\<lparr>pj_RetryCount := wrap64 (pj_RetryCount job + 1), pj_NextRetryTime := me_now (re_msg env) + delay\<rparr>"
proof -
  obtain s s' where r: "retry_channel_job cfg env job s = Some s'" and tr: "filter is_retry_msg (ms_trace s') =
      filter is_retry_msg (ms_trace s) @ [RetryProduced (wc_KafkaRetryTopic cfg) (pj_IdempotencyKey job') job']"
    using assms unfolding requeued_def by blast
  from retry_channel_job_trace [OF r] show ?thesis
  proof
    assume "filter is_retry_msg (ms_trace s') = filter is_retry_msg (ms_trace s)"
    with tr show ?thesis by simp
  next
    assume "\<exists>delay. CalculateExponentialBackoffWithJitter (re_conv env) (re_int63n env) (wrap64 (pj_RetryCount job + 1))
        (wc_RetryBaseBackoff cfg) (wc_MaxRetryBackoff cfg) = Some delay \<and>
      wrap64 (pj_RetryCount job + 1) \<le> wc_MaxRetryCount cfg \<and>
      filter is_retry_msg (ms_trace s') = filter is_retry_msg (ms_trace s) @
        [RetryProduced (wc_KafkaRetryTopic cfg) (pj_IdempotencyKey job)
          (job\<lparr>pj_RetryCount := wrap64 (pj_RetryCount job + 1), pj_NextRetryTime := me_now (re_msg env) + delay\<rparr>)]"
    then show ?thesis using tr that by auto
  qed
qed

lemma requeuedD:
  assumes "requeued cfg env job job'"
  shows "pj_RetryCount job' = wrap64 (pj_RetryCount job + 1)" "pj_RetryCount job' \<le> wc_MaxRetryCount cfg"
  by (rule requeuedE [OF assms], simp)+

text \<open>A chain of publications of one job, each made for the job published before.\<close>

inductive requeue_chain :: "WorkerConfig \<Rightarrow> PaymentJob \<Rightarrow> nat \<Rightarrow> PaymentJob \<Rightarrow> bool" for cfg :: WorkerConfig where
  start: "requeue_chain cfg job 0 job"
| again: "requeue_chain cfg job n job' \<Longrightarrow> requeued cfg env job' job'' \<Longrightarrow> requeue_chain cfg job (Suc n) job''"

lemma requeue_chain_count:
  assumes "requeue_chain cfg job n job'" "pj_RetryCount job = 0" "wc_MaxRetryCount cfg < 2 ^ 62"
  shows "pj_RetryCount job' = int n \<and> (n = 0 \<or> int n \<le> wc_MaxRetryCount cfg)"
  using assms
proof (induction rule: requeue_chain.induct)
  case (again job n job' env job'')
  then have "pj_RetryCount job' = int n" "n = 0 \<or> int n < 2 ^ 62" by auto
  then have "wrap64 (pj_RetryCount job' + 1) = int (Suc n)" by (auto simp: int64_ok_def)
  then show ?case using requeuedD [OF again.hyps(2)] by simp
qed simp

text \<open>
  Property C18. A job is retried at most \<open>MaxRetryCount\<close> times (so at most five times in a worker
  whose configuration is valid): along every chain of publications to the retry topic that
  starts with a fresh job, the number of publications never exceeds the limit, and the job
  always carries the number of its publications as its retry count.
\<close>

theorem retries_bounded:
  assumes "requeue_chain cfg job n job'" "pj_RetryCount job = 0" "WorkerConfig_tags cfg"
  shows "int n \<le> wc_MaxRetryCount cfg \<and> n \<le> 5 \<and> pj_RetryCount job' = int n"
  using requeue_chain_count [OF assms(1,2)] assms(3) by (auto simp: WorkerConfig_tags_def)

definition retry_env_example :: RetryEnv where
  "retry_env_example = \<lparr>re_msg = msg_env_example, re_status_fault = None, re_conv = 0, re_int63n = (\<lambda>n. 0),
     re_marshal = (\<lambda>j. None), re_produce = None, re_now_until = 0, re_ctx_done_after = False\<rparr>"

text \<open>The delay of a retry that is within the budget of a valid configuration.\<close>

lemma retry_delay:
  assumes "WorkerConfig_tags cfg" "int63n_ok f" "4 \<le> wc_RetryBaseBackoff cfg" "wc_RetryBaseBackoff cfg < 2 ^ 58"
    and "0 < n" "n \<le> wc_MaxRetryCount cfg" "0 \<le> wc_MaxRetryBackoff cfg"
  obtains d where "CalculateExponentialBackoffWithJitter conv f n (wc_RetryBaseBackoff cfg) (wc_MaxRetryBackoff cfg) = Some d"
    "0 \<le> d" "d \<le> wc_MaxRetryBackoff cfg"
proof -
  let ?b = "wc_RetryBaseBackoff cfg" let ?d = "exact_delay n ?b"
  have n: "n \<le> 5" using assms(1,6) by (simp add: WorkerConfig_tags_def)
  have e: "(2 :: int) ^ nat (n - 1) \<le> 2 ^ 4" by (rule power_increasing) (use n in simp_all)
  have "?d \<le> ?b * 2 ^ 4" unfolding exact_delay_def using e assms(3) by (intro mult_left_mono) simp_all
  then have up: "?d < 2 ^ 62" using assms(4) by simp
  have "?b * 1 \<le> ?d" unfolding exact_delay_def using assms(3) by (intro mult_left_mono) simp_all
  then have lo: "4 \<le> ?d" using assms(3) by linarith
  have r: "0 \<le> f (?d div 4)" using assms(2) lo by (simp add: int63n_ok_def)
  have "0 \<le> ?d + f (?d div 4) - ?d div 8" using lo r by linarith
  then show ?thesis
    using that backoff_eq [OF assms(2) _ _ _ lo up, of conv "wc_MaxRetryBackoff cfg"] n assms(3,5,7) by simp
qed

lemma retry_publishes:
  assumes "WorkerConfig_tags cfg" "int63n_ok (re_int63n env)"
    and "4 \<le> wc_RetryBaseBackoff cfg" "wc_RetryBaseBackoff cfg < 2 ^ 58" "0 \<le> wc_MaxRetryBackoff cfg"
    and "0 \<le> pj_RetryCount job" "pj_RetryCount job < wc_MaxRetryCount cfg"
    and "\<forall>j. re_marshal env j = None" "re_produce env = None"
  shows "\<exists>next. retry_channel_job cfg env job s =
      Some (note_event (RetryProduced (wc_KafkaRetryTopic cfg) (pj_IdempotencyKey job)
        (job\<lparr>pj_RetryCount := pj_RetryCount job + 1, pj_NextRetryTime := next\<rparr>)) s) \<and>
    me_now (re_msg env) \<le> next \<and> next \<le> me_now (re_msg env) + wc_MaxRetryBackoff cfg"
proof -
  have "wc_MaxRetryCount cfg \<le> 5" using assms(1) by (simp add: WorkerConfig_tags_def)
  then have w: "wrap64 (pj_RetryCount job + 1) = pj_RetryCount job + 1" using assms(6,7) by (simp add: int64_ok_def)
  obtain d where "CalculateExponentialBackoffWithJitter (re_conv env) (re_int63n env) (pj_RetryCount job + 1)
      (wc_RetryBaseBackoff cfg) (wc_MaxRetryBackoff cfg) = Some d" "0 \<le> d" "d \<le> wc_MaxRetryBackoff cfg"
    by (rule retry_delay [OF assms(1-4) _ _ assms(5), of "pj_RetryCount job + 1"]) (use assms(6,7) in auto)
  then show ?thesis
    using assms(7-9) by (intro exI [of _ "me_now (re_msg env) + d"]) (simp add: retry_channel_job_def w check_within Let_def)
qed

text \<open>
  A job within its budget is published again: with a valid configuration, a base
  backoff between 4 ns and 2^58 ns and a working producer, the handler does not panic and
  publishes the same job with its retry count increased by one, under its idempotency key, and a
  next retry time between now and now plus the maximal backoff; tables and offsets stay.
\<close>

theorem retry_published_with_backoff:
  assumes "WorkerConfig_tags cfg" "int63n_ok (re_int63n env)"
    and "4 \<le> wc_RetryBaseBackoff cfg" "wc_RetryBaseBackoff cfg < 2 ^ 58" "0 \<le> wc_MaxRetryBackoff cfg"
    and "0 \<le> pj_RetryCount job" "pj_RetryCount job < wc_MaxRetryCount cfg"
    and "\<forall>j. re_marshal env j = None" "re_produce env = None"
  shows "\<exists>next. retry_channel_job cfg env job s =
      Some (note_event (RetryProduced (wc_KafkaRetryTopic cfg) (pj_IdempotencyKey job)
        (job\<lparr>pj_RetryCount := pj_RetryCount job + 1, pj_NextRetryTime := next\<rparr>)) s) \<and>
    me_now (re_msg env) \<le> next \<and> next \<le> me_now (re_msg env) + wc_MaxRetryBackoff cfg"
  using assms by (rule retry_publishes)

lemma example_backoff: "int63n_ok (\<lambda>n. 0)"
  by (simp add: int63n_ok_def)

theorem retry_published_with_backoff_witness:
  "\<exists>next. retry_channel_job worker_config_example retry_env_example (job_example 2500) msg_state_example =
      Some (note_event (RetryProduced ''retry'' 9
        ((job_example 2500)\<lparr>pj_RetryCount := 1, pj_NextRetryTime := next\<rparr>)) msg_state_example) \<and> 0 \<le> next \<and> next \<le> 60000"
proof -
  have "pj_RetryCount (job_example 2500) = 0" by (simp add: job_example_def PaymentJob_zero_def)
  then show ?thesis
    using retry_published_with_backoff [OF worker_config_example_tags(1), of retry_env_example "job_example 2500" msg_state_example]
      example_backoff
    by (simp add: retry_env_example_def msg_env_example_def worker_config_example_def example_facts)
qed

theorem retries_bounded_witness:
  "\<exists>job'. requeue_chain worker_config_example (job_example 2500) 1 job' \<and> pj_RetryCount job' = 1"
proof -
  have c: "pj_RetryCount (job_example 2500) = 0" by (simp add: job_example_def PaymentJob_zero_def)
  obtain d where d: "CalculateExponentialBackoffWithJitter 0 (\<lambda>n. 0) 1 (wc_RetryBaseBackoff worker_config_example)
      (wc_MaxRetryBackoff worker_config_example) = Some d"
    by (rule retry_delay [OF worker_config_example_tags(1) example_backoff, of 1])
      (simp_all add: worker_config_example_def)
  let ?j = "(job_example 2500)\<lparr>pj_RetryCount := 1, pj_NextRetryTime := d\<rparr>"
  have "retry_channel_job worker_config_example retry_env_example (job_example 2500) msg_state_example =
      Some (note_event (RetryProduced (wc_KafkaRetryTopic worker_config_example) (pj_IdempotencyKey ?j) ?j) msg_state_example)"
  proof -
    have w: "wrap64 1 = 1" by (simp add: int64_ok_def)
    have lim: "checkIfMaxRetryLimitExceeded worker_config_example retry_env_example ((job_example 2500)\<lparr>pj_RetryCount := 1\<rparr>) None
        msg_state_example = (None, msg_state_example)"
      by (rule check_within) (simp add: worker_config_example_def)
    have env: "re_conv retry_env_example = 0" "re_int63n retry_env_example = (\<lambda>n. 0)" "re_marshal retry_env_example = (\<lambda>j. None)"
      "re_produce retry_env_example = None" "me_now (re_msg retry_env_example) = 0"
      by (simp_all add: retry_env_example_def msg_env_example_def)
    show ?thesis by (simp add: retry_channel_job_def c w lim env d Let_def)
  qed
  then have "requeued worker_config_example retry_env_example (job_example 2500) ?j"
    unfolding requeued_def by (intro exI conjI) (assumption, simp)
  then have chain: "requeue_chain worker_config_example (job_example 2500) 1 ?j"
    using requeue_chain.again [OF requeue_chain.start] by fastforce
  show ?thesis using retries_bounded [OF chain c worker_config_example_tags(1)] chain by auto
qed

subsection \<open>Exhausted retries and the retry topic\<close>

text \<open>The status update of the limit check never touches accounts.\<close>

lemma UpdateStatusByID_accounts: "t_accounts (snd (UpdateStatusByIdempotencyID f now key st m t)) = t_accounts t"
  by (auto simp: UpdateStatusByIdempotencyID_def dest: UpdateStatus_frame split: option.split sum.split)

lemma check_exceeded:
  assumes "wc_MaxRetryCount cfg < pj_RetryCount job"
  shows "fst (checkIfMaxRetryLimitExceeded cfg env job msg s) = Some (ErrorString ''max retry count exceeded'')"
    and "ms_cm (snd (checkIfMaxRetryLimitExceeded cfg env job msg s)) =
      (case msg of None \<Rightarrow> ms_cm s | Some m \<Rightarrow> fst (Ack (me_commit (re_msg env)) (msg_tp m) (msg_offset m) (ms_cm s)))"
    and "t_accounts (ms_tables (snd (checkIfMaxRetryLimitExceeded cfg env job msg s))) = t_accounts (ms_tables s)"
    and "filter is_run_event (ms_trace (snd (checkIfMaxRetryLimitExceeded cfg env job msg s))) = filter is_run_event (ms_trace s)"
    and "dlq_available (re_msg env) \<Longrightarrow> \<exists>d. filter is_dlq (ms_trace (snd (checkIfMaxRetryLimitExceeded cfg env job msg s))) =
      filter is_dlq (ms_trace s) @ [DlqProduced (wc_KafkaRetryDLQTopic cfg) (pj_IdempotencyKey job) d]"
  using assms UpdateStatusByID_accounts [of "re_status_fault env" "me_now (re_msg env)" "pj_IdempotencyKey job" OrderStatusFailed
      "''failed transaction after '' @ show_int (pj_RetryCount job) @ '' retries''" "ms_tables s"]
  by (auto simp: checkIfMaxRetryLimitExceeded_def Let_def sendToRetryDLQ_dlq split: prod.split option.split)

context payment_processor
begin

lemma handled_retry_message:
  assumes s': "s' = processRetryMessage cfg process env msg s"
  shows "if me_ctx_done (re_msg env) then s' = s
    else case message_job (re_msg env) msg of
      None \<Rightarrow> acknowledged (re_msg env) msg s s' \<and> parked (wc_KafkaRetryDLQTopic cfg) (re_msg env) s s' \<and> ms_tables s' = ms_tables s \<and>
        filter is_run_event (ms_trace s') = filter is_run_event (ms_trace s)
    | Some job \<Rightarrow>
        if wc_MaxRetryCount cfg < pj_RetryCount job
        then acknowledged (re_msg env) msg s s' \<and> parked (wc_KafkaRetryDLQTopic cfg) (re_msg env) s s' \<and>
          filter is_run_event (ms_trace s') = filter is_run_event (ms_trace s)
        else if re_ctx_done_after env
        then ms_cm s' = ms_cm s \<and> ms_tables s' = ms_tables s \<and> filter is_dlq (ms_trace s') = filter is_dlq (ms_trace s) \<and>
          filter is_run_event (ms_trace s') = filter is_run_event (ms_trace s)
        else acknowledged (re_msg env) msg s s' \<and>
          (case process job (ms_tables s) of
             (None, t, evs) \<Rightarrow> paid job t evs s s'
           | (Some err, t, evs) \<Rightarrow> parked (wc_KafkaRetryDLQTopic cfg) (re_msg env) s s' \<and> ms_tables s' = t \<and>
               filter is_run_event (ms_trace s') = filter is_run_event (ms_trace s) @ [PaymentRun job evs])"
proof (cases "me_ctx_done (re_msg env)")
  case False
  let ?me = "re_msg env"
  obtain job derr where u: "me_unmarshal ?me (msg_Value msg) = (job, derr)" by fastforce
  show ?thesis
  proof (cases "derr = None \<and> me_validate ?me job = None")
    case valid: True
    have job: "message_job ?me msg = Some job" using valid by (simp add: message_job_def u)
    consider (over) "wc_MaxRetryCount cfg < pj_RetryCount job" | (stopped) "pj_RetryCount job \<le> wc_MaxRetryCount cfg" "re_ctx_done_after env"
      | (run) "pj_RetryCount job \<le> wc_MaxRetryCount cfg" "\<not> re_ctx_done_after env" by linarith
    then show ?thesis
    proof cases
      case over
      let ?s = "snd (checkIfMaxRetryLimitExceeded cfg env job (Some msg) s)"
      have "s' = ?s"
        using False valid check_exceeded(1) [OF over, of env "Some msg" s]
        by (cases "checkIfMaxRetryLimitExceeded cfg env job (Some msg) s") (simp add: s' processRetryMessage_def Let_def u)
      moreover have "parked (wc_KafkaRetryDLQTopic cfg) ?me s ?s"
        using over UpdateStatusByID_accounts
        by (auto simp: checkIfMaxRetryLimitExceeded_def Let_def split: prod.split intro!: parked_sendToRetryDLQ) (metis snd_conv)
      ultimately show ?thesis using False over check_exceeded(2,4) [OF over, of env "Some msg" s] by (simp add: job acknowledged_def)
    next
      case stopped
      then show ?thesis using False valid by (simp add: s' processRetryMessage_def Let_def u job check_within not_less)
    next
      case run
      obtain err t evs where r: "process job (ms_tables s) = (err, t, evs)" using prod_cases3 by blast
      have "err \<noteq> None \<Longrightarrow> t_accounts t = t_accounts (ms_tables s)"
        using error_keeps_accounts r by (cases err) auto
      then show ?thesis
        using False valid run r
        by (cases err) (auto simp: s' processRetryMessage_def Let_def u job check_within not_less acknowledged_def paid_def intro!: parked_sendToRetryDLQ)
    qed
  next
    case bad: False
    have "message_job ?me msg = None" using bad by (auto simp: message_job_def u split: option.splits)
    then show ?thesis
      using False bad by (auto simp: s' processRetryMessage_def u acknowledged_def Let_def parked_sendToRetryDLQ split: option.splits)
  qed
qed (simp add: s' processRetryMessage_def Let_def)

end

text \<open>
  Property C34. What becomes of a message of the retry topic, in every case. After the shutdown has begun
  nothing happens to it, and it is not acknowledged; nor is it when the shutdown begins during its
  backoff: then no payment runs and no dead letter is written. Otherwise its offset is acknowledged
  once; it is parked when it does not decode, does not pass validation, or is beyond the retry limit, all
  without a payment; and else \<open>ProcessPayment\<close> runs once, and the message is paid when the call returns nil
  and parked when it returns an error. Parked means that no account row has changed and exactly one dead
  letter is written, none at all being possible only when the dead letter topic fails.
\<close>

theorem retry_message_paid_or_parked:
  assumes "s' = processRetryMessage cfg (ProcessPayment p penv) env msg s"
  shows "if me_ctx_done (re_msg env) then s' = s
    else case message_job (re_msg env) msg of
      None \<Rightarrow> acknowledged (re_msg env) msg s s' \<and> parked (wc_KafkaRetryDLQTopic cfg) (re_msg env) s s' \<and> ms_tables s' = ms_tables s \<and>
        filter is_run_event (ms_trace s') = filter is_run_event (ms_trace s)
    | Some job \<Rightarrow>
        if wc_MaxRetryCount cfg < pj_RetryCount job
        then acknowledged (re_msg env) msg s s' \<and> parked (wc_KafkaRetryDLQTopic cfg) (re_msg env) s s' \<and>
          filter is_run_event (ms_trace s') = filter is_run_event (ms_trace s)
        else if re_ctx_done_after env
        then ms_cm s' = ms_cm s \<and> ms_tables s' = ms_tables s \<and> filter is_dlq (ms_trace s') = filter is_dlq (ms_trace s) \<and>
          filter is_run_event (ms_trace s') = filter is_run_event (ms_trace s)
        else acknowledged (re_msg env) msg s s' \<and>
          (case ProcessPayment p penv job (ms_tables s) of
             (None, t, evs) \<Rightarrow> paid job t evs s s'
           | (Some err, t, evs) \<Rightarrow> parked (wc_KafkaRetryDLQTopic cfg) (re_msg env) s s' \<and> ms_tables s' = t \<and>
               filter is_run_event (ms_trace s') = filter is_run_event (ms_trace s) @ [PaymentRun job evs])"
  by (rule pay.handled_retry_message [OF assms])

theorem retry_message_paid_or_parked_witness:
  "\<exists>s' t evs. s' = processRetryMessage worker_config_example (ProcessPayment processor_example (env_example (tables_example 10000)))
      retry_env_example message_example msg_state_example \<and>
     acknowledged (re_msg retry_env_example) message_example msg_state_example s' \<and> paid (job_example 2500) t evs msg_state_example s'"
proof -
  let ?pay = "ProcessPayment processor_example (env_example (tables_example 10000))"
  obtain t evs where pay: "?pay (job_example 2500) (tables_example 10000) = (None, t, evs)"
    using payment_debits [OF example_facts(1-4) example_premises(2,1,3,4) _ example_premises(5-7)] example_facts(12) by blast
  have job: "message_job (re_msg retry_env_example) message_example = Some (job_example 2500)" "\<not> me_ctx_done (re_msg retry_env_example)"
    "\<not> re_ctx_done_after retry_env_example" "ms_tables msg_state_example = tables_example 10000"
    "\<not> wc_MaxRetryCount worker_config_example < pj_RetryCount (job_example 2500)"
    by (simp_all add: message_job_def retry_env_example_def msg_env_example_def msg_state_example_def worker_config_example_def
        job_example_def PaymentJob_zero_def)
  show ?thesis
    using retry_message_paid_or_parked [OF refl, of retry_env_example worker_config_example processor_example
        "env_example (tables_example 10000)" message_example msg_state_example] pay job by auto
qed

lemma show_nat_length: "n < 10 ^ k \<Longrightarrow> 0 < k \<Longrightarrow> length (show_nat n) \<le> k"
proof (induction k arbitrary: n)
  case (Suc k)
  show ?case
  proof (cases "n < 10")
    case False
    then have "n div 10 < 10 ^ k" "0 < k" using Suc.prems(1) by (auto intro: Nat.gr0I simp: less_mult_imp_div_less)
    from Suc.IH [OF this] show ?thesis using False by (simp add: show_nat.simps [of n])
  qed (simp add: show_nat.simps [of n])
qed simp

text \<open>
  A job whose budget is spent leaves the retry cycle for good: the handler marks
  its order rows failed with the number of attempts, writes one dead letter, publishes nothing
  and touches no account.
\<close>

theorem exhausted_retry_parked:
  assumes "wc_MaxRetryCount cfg \<le> pj_RetryCount job" "0 \<le> pj_RetryCount job" "pj_RetryCount job < 2 ^ 31"
    and "re_status_fault env = None" "dlq_available (re_msg env)"
  shows "\<exists>s' d. retry_channel_job cfg env job s = Some s' \<and>
    ms_tables s' = set_status (me_now (re_msg env)) (pj_IdempotencyKey job) OrderStatusFailed
      (''failed transaction after '' @ show_int (pj_RetryCount job + 1) @ '' retries'') (ms_tables s) \<and>
    filter is_dlq (ms_trace s') = filter is_dlq (ms_trace s) @ [DlqProduced (wc_KafkaRetryDLQTopic cfg) (pj_IdempotencyKey job) d] \<and>
    dlq_job d = job\<lparr>pj_RetryCount := pj_RetryCount job + 1\<rparr> \<and>
    filter is_retry_msg (ms_trace s') = filter is_retry_msg (ms_trace s)"
proof -
  let ?n = "pj_RetryCount job + 1"
  let ?m = "''failed transaction after '' @ show_int ?n @ '' retries''"
  have w: "wrap64 ?n = ?n" using assms(2,3) by (simp add: int64_ok_def)
  have "length (show_nat (nat ?n)) \<le> 10" by (rule show_nat_length) (use assms(2,3) in simp_all)
  then have "length ?m \<le> 200" using assms(2) by (simp add: show_int_def)
  from UpdateStatus_short [OF this] obtain k where
    k: "UpdateStatus (me_now (re_msg env)) (pj_IdempotencyKey job) OrderStatusFailed ?m (ms_tables s) =
      Inr (set_status (me_now (re_msg env)) (pj_IdempotencyKey job) OrderStatusFailed ?m (ms_tables s), k)" by blast
  show ?thesis
    using assms(1) sendToRetryDLQ_dlq [OF assms(5)] k
    by (simp add: retry_channel_job_def checkIfMaxRetryLimitExceeded_def w Let_def UpdateStatusByIdempotencyID_def assms(4))
qed

theorem exhausted_retry_parked_witness:
  "\<exists>s' d. retry_channel_job worker_config_example retry_env_example ((job_example 2500)\<lparr>pj_RetryCount := 3\<rparr>) msg_state_example = Some s' \<and>
     filter is_dlq (ms_trace s') = [DlqProduced ''retry-dlq'' 9 d] \<and> filter is_retry_msg (ms_trace s') = []"
proof -
  have d: "dlq_available (re_msg retry_env_example)" "re_status_fault retry_env_example = None"
    using msg_env_example_ok by (simp_all add: retry_env_example_def)
  obtain s' d where
    "retry_channel_job worker_config_example retry_env_example ((job_example 2500)\<lparr>pj_RetryCount := 3\<rparr>) msg_state_example = Some s'"
    "filter is_dlq (ms_trace s') = filter is_dlq (ms_trace msg_state_example) @
      [DlqProduced (wc_KafkaRetryDLQTopic worker_config_example) (pj_IdempotencyKey ((job_example 2500)\<lparr>pj_RetryCount := 3\<rparr>)) d]"
    "filter is_retry_msg (ms_trace s') = filter is_retry_msg (ms_trace msg_state_example)"
    using exhausted_retry_parked [OF _ _ _ d(2,1), of worker_config_example "(job_example 2500)\<lparr>pj_RetryCount := 3\<rparr>" msg_state_example]
    by (auto simp: worker_config_example_def)
  then show ?thesis by (simp add: msg_state_example_def worker_config_example_def example_facts)
qed

end
