(* ===== verification/Retry_Consumer.thy ===== *)
theory Retry_Consumer
  imports Retry_Handler
begin

text \<open>
  The rest of \<open>services/payment-worker/internal/services/kafka_retry_handler.go\<close>: the wiring of
  \<open>NewKafkaRetryHandler\<close> and the loop of \<open>startRetryConsumer\<close> with its semaphore, as the step
  relation \<open>rstep\<close>. The loop's state has the fields of the order consumer's. Its invariants rest
  on what the two message handlers have in common, the interface \<open>acking_handler\<close>.
\<close>

subsection \<open>Wiring\<close>

record RetryConsumer =
  rw_topics :: KafkaConfig
  rw_retryProducer :: "(string \<times> string) list"
  rw_dlqRetryProducer :: "(string \<times> string) list"
  rw_retryConsumer :: "(string \<times> string) list"
  rw_retrySemaphore :: int
  rw_retryCommitManager :: CommitManager

definition retry_topics :: "WorkerConfig \<Rightarrow> KafkaConfig" where
  "retry_topics cfg = \<lparr>kc_BootstrapServers = wc_KafkaBrokers cfg, kc_Topics =
     [\<lparr>tc_Topic = wc_KafkaRetryTopic cfg, tc_NumPartitions = wc_KafkaPartition cfg, tc_ReplicationFactor = 1,
       tc_Config = [(''retention.ms'', retention_ms (wc_KafkaRetryRetention cfg))]\<rparr>,
      \<lparr>tc_Topic = wc_KafkaRetryDLQTopic cfg, tc_NumPartitions = wc_KafkaPartition cfg, tc_ReplicationFactor = 1,
       tc_Config = [(''retention.ms'', retention_ms (wc_KafkaRetryDLQRetention cfg))]\<rparr>]\<rparr>"

text \<open>
  The consumer's settings in the order of the literal, and the host name as client id when the
  operating system knows one (\<open>os.Hostname\<close>: an error or a name).
\<close>

definition retry_consumer_config :: "string result \<Rightarrow> WorkerConfig \<Rightarrow> (string \<times> string) list" where
  "retry_consumer_config hostname cfg =
     [(''bootstrap.servers'', wc_KafkaBrokers cfg), (''group.id'', wc_KafkaRetryConsumerGroup cfg),
      (''auto.offset.reset'', ''earliest''), (''enable.auto.commit'', ''false''),
      (''queued.max.messages.kbytes'', ''65536''), (''fetch.wait.max.ms'', ''50''),
      (''partition.assignment.strategy'', ''cooperative-sticky''), (''session.timeout.ms'', ''45000''),
      (''heartbeat.interval.ms'', ''3000''), (''max.poll.interval.ms'', ''600000'')] @
     (case hostname of Inl err \<Rightarrow> [] | Inr host \<Rightarrow> if host \<noteq> [] then [(''client.id'', host)] else [])"

text \<open>An error is where the code logs with \<open>Fatal\<close> and the process exits.\<close>

definition NewKafkaRetryHandler ::
  "(KafkaConfig \<Rightarrow> go_error option) \<Rightarrow> ((string \<times> string) list \<Rightarrow> go_error option) \<Rightarrow>
   ((string \<times> string) list \<Rightarrow> go_error option) \<Rightarrow> string result \<Rightarrow> WorkerConfig \<Rightarrow> RetryConsumer result" where
  "NewKafkaRetryHandler init newProducer newConsumer hostname cfg =
     (let retryProducer = [(''bootstrap.servers'', wc_KafkaBrokers cfg), (''acks'', ''all''),
            (''enable.idempotence'', ''true''), (''retries'', ''1'')];
          dlqProducer = [(''bootstrap.servers'', wc_KafkaBrokers cfg), (''acks'', ''all''), (''enable.idempotence'', ''true'')];
          consumer = retry_consumer_config hostname cfg
      in case init (retry_topics cfg) of
        Some err \<Rightarrow> Inl err
      | None \<Rightarrow>
          (case newProducer retryProducer of
             Some err \<Rightarrow> Inl err
           | None \<Rightarrow>
               (case newProducer dlqProducer of
                  Some err \<Rightarrow> Inl err
                | None \<Rightarrow>
                    (case newConsumer consumer of
                       Some err \<Rightarrow> Inl err
                     | None \<Rightarrow>
                         Inr \<lparr>rw_topics = retry_topics cfg, rw_retryProducer = retryProducer,
                              rw_dlqRetryProducer = dlqProducer, rw_retryConsumer = consumer,
                              rw_retrySemaphore = wc_MaxOrdersRetryConcurrentJobs cfg,
                              rw_retryCommitManager = NewCommitManager\<rparr>))))"

subsection \<open>The consumer loop\<close>

text \<open>
  A handler that returns because of the context, before the job or after the backoff, has not
  acknowledged its message (unless the message was parked before the second check).
\<close>

definition retry_gone :: "WorkerConfig \<Rightarrow> Message \<Rightarrow> RetryEnv \<Rightarrow> bool" where
  "retry_gone cfg msg env \<longleftrightarrow> me_ctx_done (re_msg env) \<or>
     (case me_unmarshal (re_msg env) (msg_Value msg) of
        (job, derr) \<Rightarrow> derr = None \<and> me_validate (re_msg env) job = None \<and>
          pj_RetryCount job \<le> wc_MaxRetryCount cfg \<and> re_ctx_done_after env)"

inductive rstep :: "WorkerConfig \<Rightarrow> (RetryEnv \<Rightarrow> Message \<Rightarrow> bool) \<Rightarrow> OrderLoop \<Rightarrow> OrderLoop \<Rightarrow> bool"
  for cfg :: WorkerConfig and ok :: "RetryEnv \<Rightarrow> Message \<Rightarrow> bool" where
  RReceive: "\<not> ol_stopped s \<Longrightarrow> ol_waiting s = None \<Longrightarrow>
    rstep cfg ok s (s\<lparr>ol_waiting := Some m, ol_received := ol_received s @ [m]\<rparr>)"
| RAcquire: "ol_waiting s = Some m \<Longrightarrow> int (length (ol_inflight s)) < wc_MaxOrdersRetryConcurrentJobs cfg \<Longrightarrow>
    rstep cfg ok s (s\<lparr>ol_waiting := None, ol_inflight := m # ol_inflight s\<rparr>)"
| RCancel: "rstep cfg ok s (s\<lparr>ol_cancelled := True\<rparr>)"
| RStop: "ol_waiting s = Some m \<Longrightarrow> ol_cancelled s \<Longrightarrow>
    rstep cfg ok s (s\<lparr>ol_waiting := None, ol_abandoned := m # ol_abandoned s, ol_stopped := True\<rparr>)"
| RFinish: "m \<in> set (ol_inflight s) \<Longrightarrow> ok env m \<Longrightarrow> \<not> retry_gone cfg m env \<Longrightarrow>
    rstep cfg ok s (s\<lparr>ol_inflight := remove1 m (ol_inflight s), ol_finished := m # ol_finished s,
      ol_state := processRetryMessage cfg process env m (ol_state s)\<rparr>)"
| RDrop: "m \<in> set (ol_inflight s) \<Longrightarrow> ok env m \<Longrightarrow> retry_gone cfg m env \<Longrightarrow> ol_cancelled s \<Longrightarrow>
    rstep cfg ok s (s\<lparr>ol_inflight := remove1 m (ol_inflight s), ol_abandoned := m # ol_abandoned s,
      ol_state := processRetryMessage cfg process env m (ol_state s)\<rparr>)"

lemma rstep_inv:
  "rstep cfg ok s s' \<Longrightarrow> loop_inv (wc_MaxOrdersRetryConcurrentJobs cfg) s \<Longrightarrow> loop_inv (wc_MaxOrdersRetryConcurrentJobs cfg) s'"
  by (induction rule: rstep.induct) (simp_all add: loop_inv_leave, auto simp: loop_inv_def)

lemma sendToRetryDLQ_commits:
  "OffsetCommit x \<in> set (ms_trace (sendToRetryDLQ cfg env job r e s)) \<longleftrightarrow> OffsetCommit x \<in> set (ms_trace s)"
  by (simp add: sendToRetryDLQ_def Let_def split: option.split)

lemma check_exceeded_commits:
  assumes "wc_MaxRetryCount cfg < pj_RetryCount job"
    and "OffsetCommit x \<in> set (ms_trace (snd (checkIfMaxRetryLimitExceeded cfg env job (Some m) s)))"
  shows "OffsetCommit x \<in> set (ms_trace s) \<or> snd (Ack (me_commit (re_msg env)) (msg_tp m) (msg_offset m) (ms_cm s)) = Some x"
  using assms
  by (auto simp: checkIfMaxRetryLimitExceeded_def Let_def sendToRetryDLQ_commits split: prod.splits dest!: ack_message_commits)

text \<open>The paths of the handler: given up, parked before the payment, over the limit, or paid or parked after it.\<close>

lemma retry_paths:
  obtains (gone) "retry_gone cfg m env"
      "processRetryMessage cfg process env m s = s \<or> (\<exists>d. processRetryMessage cfg process env m s = note_event (Slept d) s)"
  | (parked) job r e where "\<not> retry_gone cfg m env" "processRetryMessage cfg process env m s =
      ack_message (re_msg env) m (sendToRetryDLQ cfg (re_msg env) job r e s)"
  | (over) job where "\<not> retry_gone cfg m env" "wc_MaxRetryCount cfg < pj_RetryCount job"
      "processRetryMessage cfg process env m s = snd (checkIfMaxRetryLimitExceeded cfg env job (Some m) s)"
  | (run) s2 where "\<not> retry_gone cfg m env" "ms_cm s2 = ms_cm s"
      "\<And>x. OffsetCommit x \<in> set (ms_trace s2) \<longleftrightarrow> OffsetCommit x \<in> set (ms_trace s)"
      "processRetryMessage cfg process env m s = ack_message (re_msg env) m s2"
proof -
  obtain job derr where u: "me_unmarshal (re_msg env) (msg_Value m) = (job, derr)" by fastforce
  note defs = processRetryMessage_def Let_def u retry_gone_def
  consider "me_ctx_done (re_msg env)" | (bad) err where "\<not> me_ctx_done (re_msg env)" "derr = Some err"
    | (invalid) err where "\<not> me_ctx_done (re_msg env)" "derr = None" "me_validate (re_msg env) job = Some err"
    | (over) "\<not> me_ctx_done (re_msg env)" "derr = None" "me_validate (re_msg env) job = None" "wc_MaxRetryCount cfg < pj_RetryCount job"
    | (late) "\<not> me_ctx_done (re_msg env)" "derr = None" "me_validate (re_msg env) job = None"
        "pj_RetryCount job \<le> wc_MaxRetryCount cfg" "re_ctx_done_after env"
    | (pay) "\<not> me_ctx_done (re_msg env)" "derr = None" "me_validate (re_msg env) job = None"
        "pj_RetryCount job \<le> wc_MaxRetryCount cfg" "\<not> re_ctx_done_after env"
    by (cases derr; cases "me_validate (re_msg env) job"; cases "me_ctx_done (re_msg env)"; cases "re_ctx_done_after env") fastforce+
  then show ?thesis
  proof cases
    case 1
    then show ?thesis using that(1) by (simp add: defs)
  next
    case bad
    then show ?thesis using that(2) by (simp add: defs)
  next
    case invalid
    then show ?thesis using that(2) by (simp add: defs)
  next
    case over
    then have "fst (checkIfMaxRetryLimitExceeded cfg env job (Some m) s) = Some (ErrorString ''max retry count exceeded'')"
      by (intro check_exceeded(1))
    then show ?thesis using that(3) [of job] over
      by (cases "checkIfMaxRetryLimitExceeded cfg env job (Some m) s") (simp add: defs)
  next
    case late
    then show ?thesis using that(1) by (cases "me_now (re_msg env) < pj_NextRetryTime job") (auto simp: defs check_within)
  next
    case pay
    let ?s1 = "if me_now (re_msg env) < pj_NextRetryTime job
      then note_event (Slept (pj_NextRetryTime job - re_now_until env)) s else s"
    obtain err t evs where r: "process job (ms_tables s) = (err, t, evs)" using prod_cases3 by blast
    let ?s2 = "note_event (PaymentRun job evs) (?s1\<lparr>ms_tables := t\<rparr>)"
    let ?s3 = "case err of None \<Rightarrow> ?s2
      | Some e \<Rightarrow> sendToRetryDLQ cfg (re_msg env) job ''Process payment error'' (error_text (me_quote (re_msg env)) e) ?s2"
    show ?thesis
    proof (rule that(4) [of ?s3])
      show "\<not> retry_gone cfg m env" using pay by (simp add: defs)
      show "ms_cm ?s3 = ms_cm s" by (simp split: option.split)
      show "OffsetCommit x \<in> set (ms_trace ?s3) \<longleftrightarrow> OffsetCommit x \<in> set (ms_trace s)" for x
        by (simp add: sendToRetryDLQ_commits split: option.split)
      show "processRetryMessage cfg process env m s = ack_message (re_msg env) m ?s3"
        using pay r by (simp add: defs check_within split: option.split)
    qed
  qed
qed

interpretation retry_handler: acking_handler "processRetryMessage cfg process" "\<lambda>env m. retry_gone cfg m env" "\<lambda>env. me_commit (re_msg env)"
  for cfg process
proof
  fix env m s x
  show "\<not> retry_gone cfg m env \<Longrightarrow> ms_cm (processRetryMessage cfg process env m s) =
      fst (Ack (me_commit (re_msg env)) (msg_tp m) (msg_offset m) (ms_cm s))"
    by (rule retry_paths [of cfg m env process s]) (auto simp: check_exceeded)
  show "\<not> retry_gone cfg m env \<Longrightarrow> OffsetCommit x \<in> set (ms_trace (processRetryMessage cfg process env m s)) \<Longrightarrow>
      OffsetCommit x \<in> set (ms_trace s) \<or> snd (Ack (me_commit (re_msg env)) (msg_tp m) (msg_offset m) (ms_cm s)) = Some x"
    by (cases x, rule retry_paths [of cfg m env process s])
      (auto simp: sendToRetryDLQ_commits dest: check_exceeded_commits dest!: ack_message_commits)
  show "retry_gone cfg m env \<Longrightarrow> ms_cm (processRetryMessage cfg process env m s) = ms_cm s \<and>
      (OffsetCommit x \<in> set (ms_trace (processRetryMessage cfg process env m s)) \<longrightarrow> OffsetCommit x \<in> set (ms_trace s))"
    by (rule retry_paths [of cfg m env process s]) auto
qed

definition retry_commits_ok :: "RetryEnv \<Rightarrow> Message \<Rightarrow> bool" where
  "retry_commits_ok env m \<longleftrightarrow> commits_ok (re_msg env) m"

lemma rstep_commit_inv: "rstep cfg retry_commits_ok s s' \<Longrightarrow> commit_inv s \<Longrightarrow> commit_inv s'"
proof (induction rule: rstep.induct)
  case (RFinish m s env process)
  then show ?case by (intro retry_handler.finish_commits) (simp_all add: commits_ok_def retry_commits_ok_def)
next
  case (RDrop m s env process)
  then show ?case by (intro retry_handler.gone_commits) simp_all
qed (auto simp: commit_inv_def finished_offsets_def)

text \<open>
  Property C25. The retry consumer keeps the two promises of the order consumer, however its
  goroutines interleave. It is bounded and lossless: never more messages in flight than
  \<open>MaxOrdersRetryConcurrentJobs\<close>, and every message read is waiting, in flight, finished, or
  abandoned after the context was cancelled, a message asleep in its backoff at that moment
  included. And it delivers at least once, while the broker accepts the commits: all offsets from 1 up to a
  committed position belong to finished messages, so an abandoned message (offset 0 excepted, which is
  committed past without having been seen) is read again after a restart.
\<close>

theorem retry_loop_safe:
  assumes "(rstep cfg retry_commits_ok)\<^sup>*\<^sup>* (order_loop_start t) s" "WorkerConfig_tags cfg"
  shows "int (length (ol_inflight s)) \<le> wc_MaxOrdersRetryConcurrentJobs cfg \<and>
    mset (ol_received s) = mset (case ol_waiting s of None \<Rightarrow> [] | Some m \<Rightarrow> [m]) + mset (ol_inflight s) +
      mset (ol_finished s) + mset (ol_abandoned s) \<and>
    (ol_abandoned s \<noteq> [] \<or> ol_stopped s \<longrightarrow> ol_cancelled s) \<and>
    (OffsetCommit (key, c) \<in> set (ms_trace (ol_state s)) \<longrightarrow>
      {1..<c} \<subseteq> {msg_offset m | m. m \<in> set (ol_finished s) \<and> msg_tp m = key})"
proof -
  have "loop_inv (wc_MaxOrdersRetryConcurrentJobs cfg) s" using assms(1)
    by (induction rule: rtranclp_induct) (auto intro: loop_start_inv rstep_inv)
  moreover have "commit_inv s" using assms(1)
    by (induction rule: rtranclp_induct) (auto intro: commit_inv_start rstep_commit_inv)
  ultimately show ?thesis
    using assms(2) by (simp add: loop_inv_def WorkerConfig_tags_def) (simp add: commit_inv_def finished_offsets_def)
qed

text \<open>A run: two messages are read and taken, the second finishes, and the position stays.\<close>

definition retry_loop_example :: OrderLoop where
  "retry_loop_example = (order_loop_start (tables_example 10000))\<lparr>ol_received := [message_example, message_example\<lparr>msg_offset := 2\<rparr>],
     ol_inflight := [message_example], ol_finished := [message_example\<lparr>msg_offset := 2\<rparr>],
     ol_state := processRetryMessage worker_config_example (\<lambda>j t. (None, t, [])) retry_env_example (message_example\<lparr>msg_offset := 2\<rparr>)
       (ol_state (order_loop_start (tables_example 10000)))\<rparr>"

lemma retry_loop_example_reachable:
  "(rstep worker_config_example retry_commits_ok)\<^sup>*\<^sup>* (order_loop_start (tables_example 10000)) retry_loop_example"
proof -
  let ?R = "rstep worker_config_example retry_commits_ok" and ?m = message_example and ?n = "message_example\<lparr>msg_offset := 2\<rparr>"
  let ?s0 = "order_loop_start (tables_example 10000)"
  let ?s1 = "?s0\<lparr>ol_waiting := Some ?m, ol_received := [?m]\<rparr>"
  let ?s2 = "?s1\<lparr>ol_waiting := None, ol_inflight := [?m]\<rparr>"
  let ?s3 = "?s2\<lparr>ol_waiting := Some ?n, ol_received := [?m, ?n]\<rparr>"
  let ?s4 = "?s3\<lparr>ol_waiting := None, ol_inflight := [?n, ?m]\<rparr>"
  have cap: "wc_MaxOrdersRetryConcurrentJobs worker_config_example \<ge> 2" by (simp add: worker_config_example_def)
  have a1: "?R ?s0 ?s1" using rstep.RReceive [of ?s0 worker_config_example retry_commits_ok ?m] by (simp add: order_loop_start_def)
  have a2: "?R ?s1 ?s2" using rstep.RAcquire [of ?s1 ?m worker_config_example retry_commits_ok] cap by (simp add: order_loop_start_def)
  have a3: "?R ?s2 ?s3" using rstep.RReceive [of ?s2 worker_config_example retry_commits_ok ?n] by (simp add: order_loop_start_def)
  have a4: "?R ?s3 ?s4" using rstep.RAcquire [of ?s3 ?n worker_config_example retry_commits_ok] cap by (simp add: order_loop_start_def)
  have a5: "?R ?s4 retry_loop_example"
    using rstep.RFinish [of ?n ?s4 retry_commits_ok retry_env_example worker_config_example "\<lambda>j t. (None, t, [])"]
    by (simp add: retry_loop_example_def order_loop_start_def retry_commits_ok_def commits_ok_def retry_env_example_def
        msg_env_example_def retry_gone_def offset_ok_def)
  note step = rtranclp.rtrancl_into_rtrancl [of ?R]
  show ?thesis by (rule step [OF step [OF step [OF step [OF step [OF rtranclp.rtrancl_refl a1] a2] a3] a4] a5])
qed

theorem retry_loop_safe_witness:
  "length (ol_inflight retry_loop_example) = 1 \<and>
   mset (ol_received retry_loop_example) = {#message_example#} + {#message_example\<lparr>msg_offset := 2\<rparr>#} \<and>
   OffsetCommit (tp_example, 3) \<notin> set (ms_trace (ol_state retry_loop_example))"
proof -
  have "{1..<3} \<subseteq> {msg_offset m | m. m \<in> set (ol_finished retry_loop_example) \<and> msg_tp m = tp_example}"
    if "OffsetCommit (tp_example, 3) \<in> set (ms_trace (ol_state retry_loop_example))"
    using retry_loop_safe [OF retry_loop_example_reachable worker_config_example_tags(1), of tp_example 3] that by blast
  moreover have "(1 :: int) \<notin> {msg_offset m | m. m \<in> set (ol_finished retry_loop_example) \<and> msg_tp m = tp_example}"
    by (simp add: retry_loop_example_def)
  ultimately have "OffsetCommit (tp_example, 3) \<notin> set (ms_trace (ol_state retry_loop_example))" by fastforce
  then show ?thesis by (simp add: retry_loop_example_def)
qed

end
