(* ===== verification/Order_Api.thy ===== *)
theory Order_Api
  imports Payment Topic_Manager
begin

text \<open>
  The order API: \<open>pkg/middlewares/trace.go\<close>, \<open>services/order-api/internal\<close> (the request DTO, the
  handler, the order service, the Kafka publisher, the metrics middleware). One request runs
  against \<open>OrderEnv\<close>, the answers of everything outside: generated ids and clock, the database
  (two reads that may hit different replicas, one transaction on the primary), the random
  source, the producer. Gin's JSON binding, \<open>uuid.Parse\<close>, \<open>uuid.String\<close> and \<open>uuid.ID\<close> are
  third-party code and arguments. The service returns the id or an error, the tables of the
  primary, and the messages handed to Kafka.
\<close>

record OrderRequest =
  rq_IdempotencyID :: uuid
  rq_AccountID :: uuid
  rq_Amount :: float64
  rq_Currency :: string

text \<open>The \<open>binding\<close> tags; \<open>lte=5000\<close> is the negation of "greater".\<close>

definition OrderRequest_tags :: "OrderRequest \<Rightarrow> bool" where
  "OrderRequest_tags r \<longleftrightarrow> rq_IdempotencyID r \<noteq> uuid_Nil \<and> rq_AccountID r \<noteq> uuid_Nil \<and>
     f64_lt f64_zero (rq_Amount r) \<and> (f64_lt (rq_Amount r) (f64_of_int 5000) \<or> rq_Amount r = f64_of_int 5000) \<and>
     rq_Currency r \<in> {''USD'', ''CAD''}"

record OrderEnv =
  oe_new_id :: uuid
  oe_created_at :: time
  oe_updated_at :: time
  oe_begin :: "go_error option"
  oe_idem_reader :: Tables
  oe_idem_fault :: "go_error option"
  oe_account_reader :: Tables
  oe_account_fault :: "go_error option"
  oe_nonce :: "byte list result"
  oe_gen_id :: uuid
  oe_insert_fault :: "go_error option"
  oe_commit :: "go_error option"
  oe_marshal :: "PaymentJob \<Rightarrow> go_error option"
  oe_produce :: "go_error option"
  oe_uuid_string :: "uuid \<Rightarrow> string"
  oe_uuid_ID :: "uuid \<Rightarrow> 32 word"

subsection \<open>The publisher\<close>

record OrderMessage =
  om_Topic :: string
  om_Partition :: int
  om_Key :: uuid
  om_Job :: PaymentJob

definition PublishOrder :: "OrderApiConfig \<Rightarrow> OrderEnv \<Rightarrow> PaymentJob \<Rightarrow> go_error option \<times> OrderMessage list" where
  "PublishOrder cfg env job =
     (case oe_marshal env job of
        Some err \<Rightarrow> (Some err, [])
      | None \<Rightarrow>
          (let partition = uint (oe_uuid_ID env (pj_UserID job)) mod oc_KafkaPartition cfg
           in case oe_produce env of
             Some err \<Rightarrow> (Some err, [])
           | None \<Rightarrow> (None, [\<lparr>om_Topic = oc_KafkaOrderTopic cfg, om_Partition = partition,
                              om_Key = pj_IdempotencyKey job, om_Job = job\<rparr>])))"

record KafkaPublisher =
  kp_topics :: KafkaConfig
  kp_producer :: "(string \<times> string) list"

definition order_topics :: "OrderApiConfig \<Rightarrow> KafkaConfig" where
  "order_topics cfg = \<lparr>kc_BootstrapServers = oc_KafkaBrokers cfg, kc_Topics =
     [\<lparr>tc_Topic = oc_KafkaOrderTopic cfg, tc_NumPartitions = oc_KafkaPartition cfg, tc_ReplicationFactor = 1,
       tc_Config = [(''cleanup.policy'', ''delete''), (''retention.ms'', show_int (go_div (oc_KafkaOrderRetention cfg) 1000000))]\<rparr>]\<rparr>"

text \<open>An error is where the code logs with \<open>Fatal\<close> and the process exits.\<close>

definition NewKafkaPublisher ::
  "(KafkaConfig \<Rightarrow> go_error option) \<Rightarrow> go_error option \<Rightarrow> OrderApiConfig \<Rightarrow> KafkaPublisher result" where
  "NewKafkaPublisher init newProducer cfg =
     (case init (order_topics cfg) of
        Some err \<Rightarrow> Inl err
      | None \<Rightarrow>
          (case newProducer of
             Some err \<Rightarrow> Inl err
           | None \<Rightarrow> Inr \<lparr>kp_topics = order_topics cfg,
               kp_producer = [(''bootstrap.servers'', oc_KafkaBrokers cfg), (''acks'', ''all''),
                 (''enable.idempotence'', ''true''), (''retries'', ''1'')]\<rparr>))"

subsection \<open>The order service\<close>

definition NewOrderService :: "OrderApiConfig \<Rightarrow> byte list result" where
  "NewOrderService cfg = DecodeString (oc_AesKey cfg)"

definition new_order :: "OrderEnv \<Rightarrow> uuid \<Rightarrow> OrderRequest \<Rightarrow> Order" where
  "new_order env userId req = \<lparr>or_ID = oe_new_id env, or_UserID = userId, or_AccountID = rq_AccountID req,
     or_IdempotencyKey = rq_IdempotencyID req, or_Amount = [], or_Currency = rq_Currency req,
     or_Status = OrderStatusPending, or_Message = [],
     or_CreatedAt = oe_created_at env, or_UpdatedAt = oe_updated_at env\<rparr>"

text \<open>The balance check of the closure: the error it returns, or the encrypted amount.\<close>

definition encrypted_amount :: "byte list \<Rightarrow> OrderEnv \<Rightarrow> OrderRequest \<Rightarrow> string result" where
  "encrypted_amount aesKey env req =
     (case FindByIdempotencyKey (oe_idem_fault env) (rq_IdempotencyID req) (oe_idem_reader env) of
        Inl err \<Rightarrow> Inl (HandleSQLError err)
      | Inr True \<Rightarrow> Inl (NewAppError ErrIdempotencyConflictCode ''idempotency_key_already_exists'' None)
      | Inr False \<Rightarrow>
     (case FindByID (oe_uuid_string env) (oe_account_fault env) (rq_AccountID req) (oe_account_reader env) of
        Inl err \<Rightarrow> Inl (HandleSQLError err)
      | Inr account \<Rightarrow>
     (case DecryptAES (ac_Balance account) aesKey of
        Inl err \<Rightarrow> Inl (NewAppError ErrServerCode ''decryption_failed'' (Some err))
      | Inr accountBalanceStr \<Rightarrow>
     (case ToFloat64 accountBalanceStr of
        Inl err \<Rightarrow> Inl (NewAppError ErrServerCode ''parse_failed'' (Some err))
      | Inr accountBalance \<Rightarrow>
          if f64_lt accountBalance (rq_Amount req)
          then Inl (NewAppError ErrInsufficientFundsCode ''insufficient_balance'' (Some ErrInsufficientBalance))
          else (case EncryptAES (oe_nonce env) (Float64ToByte (rq_Amount req)) aesKey of
             Inl err \<Rightarrow> Inl (NewAppError ErrServerCode ''encryption_failed'' (Some err))
           | Inr encAmount \<Rightarrow> Inr encAmount)))))"

text \<open>The closure passed to \<open>WithTransaction\<close>; it also assigns the amount of the captured order.\<close>

definition create_order_tx ::
  "byte list \<Rightarrow> OrderEnv \<Rightarrow> OrderRequest \<Rightarrow> Order \<Rightarrow> Tx \<Rightarrow> (fn_outcome \<times> Tx) \<times> Order" where
  "create_order_tx aesKey env req order tx =
     (case encrypted_amount aesKey env req of
        Inl err \<Rightarrow> ((Returned (Some err), tx), order)
      | Inr encAmount \<Rightarrow>
          (let order = order\<lparr>or_Amount := encAmount\<rparr>
           in case tx_Exec (oe_insert_fault env) (OrderRepo_Create (oe_gen_id env) order) tx of
             (Inl err, tx) \<Rightarrow> ((Returned (Some (HandleSQLError err)), tx), order)
           | (Inr n, tx) \<Rightarrow> ((Returned None, tx), order)))"

definition CreateOrder ::
  "OrderApiConfig \<Rightarrow> byte list \<Rightarrow> OrderEnv \<Rightarrow> uuid \<Rightarrow> OrderRequest \<Rightarrow> Tables \<Rightarrow> string result \<times> Tables \<times> OrderMessage list" where
  "CreateOrder cfg aesKey env userId req primary =
     (let order = new_order env userId req
      in case WithTransaction (oe_begin env) (oe_commit env) (\<lambda>tx. fst (create_order_tx aesKey env req order tx)) primary of
        (Returned (Some err), t) \<Rightarrow> (Inl err, t, [])
      | (Panicked p, t) \<Rightarrow> (Inl (ErrorString p), t, [])
      | (Returned None, t) \<Rightarrow>
          (let order = snd (create_order_tx aesKey env req order (Begin primary));
               (err, msgs) = PublishOrder cfg env (ToPaymentJob order)
           in (Inr (oe_uuid_string env (or_ID order)), t, msgs)))"

subsection \<open>HTTP\<close>

record HttpRequest =
  hq_Header :: "string \<Rightarrow> string"
  hq_Body :: string

datatype reply_body = ErrorBody ErrorResponse | OrderCreated string | Health string

record HttpReply =
  rp_Status :: int
  rp_TraceId :: "string option"
  rp_Body :: reply_body

definition error_reply :: "bool \<Rightarrow> (string \<Rightarrow> string) \<Rightarrow> string option \<Rightarrow> go_error \<Rightarrow> HttpReply" where
  "error_reply expose quote trace err =
     (let resp = ToErrorResponse expose quote err in \<lparr>rp_Status = er_Status resp, rp_TraceId = trace, rp_Body = ErrorBody resp\<rparr>)"

text \<open>The middleware: a reply that aborts the chain, or the trace id set for the handlers.\<close>

definition TraceID ::
  "bool \<Rightarrow> (string \<Rightarrow> string) \<Rightarrow> (string \<Rightarrow> uuid result) \<Rightarrow> string \<Rightarrow> HttpRequest \<Rightarrow> HttpReply + string" where
  "TraceID expose quote uuid_parse new_trace req =
     (let requestIDStr = hq_Header req ''X-Request-Id''
      in if IsEmpty requestIDStr
         then Inl (error_reply expose quote None (NewAppError ErrInvalidInputCode ''request ID is missing in header'' None))
         else case uuid_parse requestIDStr of
           Inl err \<Rightarrow> Inl (error_reply expose quote None (NewAppError ErrInvalidInputCode ''failed to parse request ID'' None))
         | Inr _ \<Rightarrow>
             (let traceID = hq_Header req ''X-Trace-Id''
              in Inr (if IsEmpty traceID then new_trace else traceID)))"

definition GetTraceID :: "string \<Rightarrow> string result" where
  "GetTraceID traceID = (if IsEmpty traceID then Inl (ErrorString ''trace id is empty'') else Inr traceID)"

definition OrderHandler_CreateOrder ::
  "bool \<Rightarrow> (string \<Rightarrow> string) \<Rightarrow> (string \<Rightarrow> uuid result) \<Rightarrow> (string \<Rightarrow> OrderRequest result) \<Rightarrow>
   (uuid \<Rightarrow> OrderRequest \<Rightarrow> 's \<Rightarrow> string result \<times> 's \<times> 'm list) \<Rightarrow> string \<Rightarrow> HttpRequest \<Rightarrow> 's \<Rightarrow> HttpReply \<times> 's \<times> 'm list" where
  "OrderHandler_CreateOrder expose quote uuid_parse bind service contextTrace c s =
     (case GetTraceID contextTrace of
        Inl err \<Rightarrow> (error_reply expose quote (Some contextTrace) (NewAppError ErrServerCode ''failed to retrieve trace id'' (Some err)), s, [])
      | Inr traceID \<Rightarrow>
     (case uuid_parse (hq_Header c ''user_id'') of
        Inl err \<Rightarrow> (error_reply expose quote (Some contextTrace)
            (NewAppError ErrInvalidInputCode ''failed to parse user UUID from header'' (Some err)), s, [])
      | Inr userUUID \<Rightarrow>
     (case bind (hq_Body c) of
        Inl err \<Rightarrow> (error_reply expose quote (Some contextTrace) (NewAppError ErrInvalidInputCode ''invalid input'' (Some err)), s, [])
      | Inr req \<Rightarrow>
          (case service userUUID req s of
             (Inl err, s, ms) \<Rightarrow> (error_reply expose quote (Some contextTrace) err, s, ms)
           | (Inr orderID, s, ms) \<Rightarrow>
               (\<lparr>rp_Status = 201, rp_TraceId = Some contextTrace, rp_Body = OrderCreated orderID\<rparr>, s, ms)))))"

text \<open>The metrics middleware: method, route and status of a request that reached it.\<close>

definition Metrics :: "string \<Rightarrow> string \<Rightarrow> HttpReply \<Rightarrow> string list" where
  "Metrics method path reply = [method, path, show_int (rp_Status reply)]"

text \<open>\<open>POST /api/v1/orders\<close>: the trace middleware, the metrics middleware, the handler.\<close>

definition serve_order ::
  "bool \<Rightarrow> (string \<Rightarrow> string) \<Rightarrow> (string \<Rightarrow> uuid result) \<Rightarrow> string \<Rightarrow> (string \<Rightarrow> OrderRequest result) \<Rightarrow>
   (uuid \<Rightarrow> OrderRequest \<Rightarrow> 's \<Rightarrow> string result \<times> 's \<times> 'm list) \<Rightarrow> HttpRequest \<Rightarrow> 's \<Rightarrow>
   HttpReply \<times> 's \<times> 'm list \<times> string list list" where
  "serve_order expose quote uuid_parse new_trace bind service c s =
     (case TraceID expose quote uuid_parse new_trace c of
        Inl reply \<Rightarrow> (reply, s, [], [])
      | Inr traceID \<Rightarrow>
          (case OrderHandler_CreateOrder expose quote uuid_parse bind service traceID c s of
             (reply, s, ms) \<Rightarrow> (reply, s, ms, [Metrics ''POST'' ''/api/v1/orders'' reply])))"

definition GetHealth :: HttpReply where
  "GetHealth = \<lparr>rp_Status = 200, rp_TraceId = None, rp_Body = Health ''ok''\<rparr>"

subsection \<open>What creating an order does\<close>

definition stored_order :: "OrderEnv \<Rightarrow> uuid \<Rightarrow> OrderRequest \<Rightarrow> string \<Rightarrow> Order" where
  "stored_order env userId req enc =
     (new_order env userId req)\<lparr>or_ID := oe_gen_id env, or_Amount := enc, or_Currency := ''CAD''\<rparr>"

definition published_job :: "OrderEnv \<Rightarrow> uuid \<Rightarrow> OrderRequest \<Rightarrow> string \<Rightarrow> PaymentJob" where
  "published_job env userId req enc = ToPaymentJob ((new_order env userId req)\<lparr>or_Amount := enc\<rparr>)"

lemma OrderRepo_Create_cases:
  "OrderRepo_Create g o' t = Inr (t', n) \<Longrightarrow> g \<notin> or_ID ` set (t_orders t) \<Longrightarrow>
   t' = t\<lparr>t_orders := t_orders t @ [o'\<lparr>or_ID := g, or_Currency := ''CAD'', or_Message := []\<rparr>]\<rparr>"
  by (auto simp: OrderRepo_Create_def split: if_splits)

lemma CreateOrder_cases:
  obtains err where "CreateOrder cfg aesKey env userId req t = (Inl err, t, [])"
    | enc t' n where "encrypted_amount aesKey env req = Inr enc" "oe_begin env = None" "oe_commit env = None" "oe_insert_fault env = None"
      "OrderRepo_Create (oe_gen_id env) ((new_order env userId req)\<lparr>or_Amount := enc\<rparr>) t = Inr (t', n)"
      "CreateOrder cfg aesKey env userId req t =
        (Inr (oe_uuid_string env (oe_new_id env)), t', snd (PublishOrder cfg env (published_job env userId req enc)))"
proof (cases "oe_begin env")
  case (Some e)
  then show ?thesis using that(1) by (simp add: CreateOrder_def WithTransaction_def)
next
  case beg: None
  show ?thesis
  proof (cases "encrypted_amount aesKey env req")
    case (Inl e)
    then show ?thesis using that(1) beg by (simp add: CreateOrder_def WithTransaction_def create_order_tx_def)
  next
    case (Inr enc)
    let ?o = "(new_order env userId req)\<lparr>or_Amount := enc\<rparr>"
    obtain r tx where x: "tx_Exec (oe_insert_fault env) (OrderRepo_Create (oe_gen_id env) ?o) (Begin t) = (r, tx)" by fastforce
    show ?thesis
    proof (cases r)
      case (Inl e)
      then show ?thesis using that(1) beg Inr x by (simp add: CreateOrder_def WithTransaction_def create_order_tx_def)
    next
      case n: (Inr n)
      then obtain t' where t': "OrderRepo_Create (oe_gen_id env) ?o t = Inr (t', n)" "tx = \<lparr>tx_view = t', tx_aborted = False\<rparr>"
        "oe_insert_fault env = None"
        using x by (auto simp: tx_Exec_def Begin_def split: option.splits sum.splits if_splits)
      have id: "or_ID ?o = oe_new_id env" by (simp add: new_order_def)
      show ?thesis
      proof (cases "oe_commit env")
        case (Some e)
        then show ?thesis using that(1) beg Inr x n t'
          by (simp add: CreateOrder_def WithTransaction_def create_order_tx_def Commit_def)
      next
        case None
        then show ?thesis using that(2) [OF Inr beg None t'(3,1)] beg Inr x n t'(2) id
          by (simp add: CreateOrder_def WithTransaction_def create_order_tx_def Commit_def published_job_def split: prod.split)
      qed
    qed
  qed
qed

text \<open>
  Property C29. Creating an order is all or nothing. Either an error comes back, the database is
  unchanged and nothing goes to Kafka; or the request passed every check, exactly one pending
  order row with the request's user, account, idempotency key and the encrypted amount has been
  added and nothing else changed, and what is handed to the publisher is the job of that order
  with the same encrypted amount. (The stored row has a generated id and the currency CAD,
  whatever the returned id and the requested currency are.)
\<close>

theorem create_order_all_or_nothing:
  assumes "oe_gen_id env \<notin> or_ID ` set (t_orders t)"
  shows "(\<exists>err. CreateOrder cfg aesKey env userId req t = (Inl err, t, [])) \<or>
    (\<exists>enc. encrypted_amount aesKey env req = Inr enc \<and>
       CreateOrder cfg aesKey env userId req t =
         (Inr (oe_uuid_string env (oe_new_id env)), t\<lparr>t_orders := t_orders t @ [stored_order env userId req enc]\<rparr>,
          snd (PublishOrder cfg env (published_job env userId req enc))))"
proof (rule CreateOrder_cases [of cfg aesKey env userId req t])
  fix enc t' n
  assume a: "encrypted_amount aesKey env req = Inr enc"
    "OrderRepo_Create (oe_gen_id env) ((new_order env userId req)\<lparr>or_Amount := enc\<rparr>) t = Inr (t', n)"
    "CreateOrder cfg aesKey env userId req t =
        (Inr (oe_uuid_string env (oe_new_id env)), t', snd (PublishOrder cfg env (published_job env userId req enc)))"
  have "t' = t\<lparr>t_orders := t_orders t @ [stored_order env userId req enc]\<rparr>"
    using OrderRepo_Create_cases [OF a(2) assms] by (simp add: stored_order_def new_order_def)
  then show ?thesis using a(1,3) by blast
qed blast

subsection \<open>When an order is accepted\<close>

definition order_undisturbed :: "OrderEnv \<Rightarrow> bool" where
  "order_undisturbed env \<longleftrightarrow> oe_begin env = None \<and> oe_idem_fault env = None \<and> oe_account_fault env = None \<and>
     oe_insert_fault env = None \<and> oe_commit env = None \<and> (case oe_nonce env of Inl _ \<Rightarrow> False | Inr n \<Rightarrow> length n = 12)"

lemma DecryptAES_of_holds:
  assumes "holds_cents key text c" "text \<noteq> []"
  obtains s where "DecryptAES text key = Inr s" "ToFloat64 s = Inr (dollars c)"
  using assms by (auto simp: holds_cents_def DecryptToFloat64_def IsEmpty_def split: sum.splits)

lemma encrypted_amount_known:
  assumes "order_undisturbed env" "length aesKey = 32" "rq_IdempotencyID req \<noteq> uuid_Nil"
    and "\<forall>o' \<in> set (t_orders (oe_idem_reader env)). or_IdempotencyKey o' \<noteq> rq_IdempotencyID req"
    and "FindByID (oe_uuid_string env) None (rq_AccountID req) (oe_account_reader env) = Inr acc"
    and "holds_cents aesKey (ac_Balance acc) b" "ac_Balance acc \<noteq> []" "rq_Amount req = dollars a" "cents_ok a"
  shows "b < a \<Longrightarrow> encrypted_amount aesKey env req =
      Inl (NewAppError ErrInsufficientFundsCode ''insufficient_balance'' (Some ErrInsufficientBalance))"
    and "a \<le> b \<Longrightarrow> \<exists>enc. encrypted_amount aesKey env req = Inr enc \<and> holds_cents aesKey enc a"
proof -
  obtain nonce where n: "oe_nonce env = Inr nonce" "length nonce = 12" and f: "oe_idem_fault env = None" "oe_account_fault env = None"
    using assms(1) by (auto simp: order_undisturbed_def split: sum.splits)
  have idem: "FindByIdempotencyKey None (rq_IdempotencyID req) (oe_idem_reader env) = Inr False"
    using assms(3,4) by (auto simp: FindByIdempotencyKey_def)
  obtain s where s: "DecryptAES (ac_Balance acc) aesKey = Inr s" "ToFloat64 s = Inr (dollars b)"
    by (rule DecryptAES_of_holds [OF assms(6,7)])
  have lt: "f64_lt (dollars b) (dollars a) = (b < a)"
    using dollars_lt [of b a] assms(6,9) by (simp add: holds_cents_def)
  show "b < a \<Longrightarrow> encrypted_amount aesKey env req =
      Inl (NewAppError ErrInsufficientFundsCode ''insufficient_balance'' (Some ErrInsufficientBalance))"
    using assms(5,8) by (simp add: encrypted_amount_def f idem s lt)
  obtain enc where enc: "EncryptAES (Inr nonce) (Float64ToByte (dollars a)) aesKey = Inr enc"
    using aes_store.store_total [OF assms(2)] by blast
  then have "holds_cents aesKey enc a"
    using aes_store.load_dollars [OF n(2) enc assms(9)] assms(9) by (simp add: holds_cents_def)
  then show "a \<le> b \<Longrightarrow> \<exists>enc. encrypted_amount aesKey env req = Inr enc \<and> holds_cents aesKey enc a"
    using assms(5,8) by (simp add: encrypted_amount_def f idem s lt n enc)
qed

lemma CreateOrder_encrypted:
  assumes "order_undisturbed env" "encrypted_amount aesKey env req = Inr enc"
    and "oe_gen_id env \<notin> or_ID ` set (t_orders t)" "account_exists t (rq_AccountID req) userId"
  shows "CreateOrder cfg aesKey env userId req t =
    (Inr (oe_uuid_string env (oe_new_id env)), t\<lparr>t_orders := t_orders t @ [stored_order env userId req enc]\<rparr>,
     snd (PublishOrder cfg env (published_job env userId req enc)))"
proof -
  let ?o = "(new_order env userId req)\<lparr>or_Amount := enc\<rparr>"
  have c: "OrderRepo_Create (oe_gen_id env) ?o t = Inr (t\<lparr>t_orders := t_orders t @ [stored_order env userId req enc]\<rparr>, 1)"
    using assms(3,4) by (simp add: OrderRepo_Create_def stored_order_def new_order_def)
  show ?thesis
    using assms(1) c
    by (simp add: CreateOrder_def WithTransaction_def create_order_tx_def assms(2) order_undisturbed_def tx_Exec_def Begin_def
        Commit_def published_job_def split: prod.split) (simp add: new_order_def split: prod.split)
qed

definition order_env_example :: "Tables \<Rightarrow> OrderEnv" where
  "order_env_example t = \<lparr>oe_new_id = 100, oe_created_at = 1, oe_updated_at = 1, oe_begin = None, oe_idem_reader = t,
     oe_idem_fault = None, oe_account_reader = t, oe_account_fault = None, oe_nonce = Inr nonce_example, oe_gen_id = 200,
     oe_insert_fault = None, oe_commit = None, oe_marshal = (\<lambda>j. None), oe_produce = None,
     oe_uuid_string = (\<lambda>u. ''uuid''), oe_uuid_ID = (\<lambda>u. 5)\<rparr>"

definition request_example :: "nat \<Rightarrow> OrderRequest" where
  "request_example a = \<lparr>rq_IdempotencyID = 10, rq_AccountID = 7, rq_Amount = dollars a, rq_Currency = ''USD''\<rparr>"

definition order_config_example :: OrderApiConfig where
  "order_config_example = \<lparr>oc_Port = ''8080'', oc_KafkaBrokers = ''kafka:9092'', oc_PrimaryDbAddr = ''db'', oc_ReadDbAddr = [],
     oc_MaxDbCons = 10, oc_MinDbCons = 2, oc_KafkaPartition = 4, oc_KafkaOrderTopic = ''orders'', oc_KafkaOrderRetention = 10,
     oc_AesKey = ''k''\<rparr>"

lemma order_example_facts:
  "order_undisturbed (order_env_example t)" "length key_example = 32"
  "oe_idem_reader (order_env_example t) = t" "oe_account_reader (order_env_example t) = t"
  "rq_IdempotencyID (request_example a) = 10" "rq_AccountID (request_example a) = 7" "rq_Amount (request_example a) = dollars a"
  "oe_gen_id (order_env_example t) = 200" "oe_gen_id (order_env_example t) \<notin> or_ID ` set (t_orders (tables_example b))"
  "account_exists (tables_example b) 7 8"
  "\<forall>o' \<in> set (t_orders (tables_example b)). or_IdempotencyKey o' \<noteq> 10"
  by (simp_all add: order_undisturbed_def order_env_example_def nonce_example_def key_example_def request_example_def
      tables_example_def order_example_def account_exists_def account_example_def)

theorem create_order_all_or_nothing_witness:
  "(\<exists>err. CreateOrder order_config_example key_example (order_env_example (tables_example 10000)) 8 (request_example 2500)
        (tables_example 10000) = (Inl err, tables_example 10000, [])) \<or>
   (\<exists>enc t' ms. CreateOrder order_config_example key_example (order_env_example (tables_example 10000)) 8 (request_example 2500)
        (tables_example 10000) = (Inr ''uuid'', t', ms) \<and>
      t_orders t' = [order_example, stored_order (order_env_example (tables_example 10000)) 8 (request_example 2500) enc])"
proof -
  have "oe_gen_id (order_env_example (tables_example 10000)) \<notin> or_ID ` set (t_orders (tables_example 10000))"
    by (rule order_example_facts(9))
  from create_order_all_or_nothing [OF this, of order_config_example key_example 8 "request_example 2500"]
  show ?thesis by (auto simp: order_env_example_def tables_example_def)
qed

text \<open>The three refusals of a request when nothing outside fails, and their replies.\<close>

definition key_known :: "OrderEnv \<Rightarrow> OrderRequest \<Rightarrow> bool" where
  "key_known env req \<longleftrightarrow> (\<exists>o' \<in> set (t_orders (oe_idem_reader env)). or_IdempotencyKey o' = rq_IdempotencyID req)"

definition refused_with :: "int \<Rightarrow> bool \<Rightarrow> (string \<Rightarrow> string) \<Rightarrow> Tables \<Rightarrow> string result \<times> Tables \<times> OrderMessage list \<Rightarrow> bool" where
  "refused_with status x q t r \<longleftrightarrow> (case r of (Inl err, t', ms) \<Rightarrow> t' = t \<and> ms = [] \<and> er_Status (ToErrorResponse x q err) = status | _ \<Rightarrow> False)"

lemma known_key_refused:
  assumes "oe_begin env = None" "oe_idem_fault env = None" "rq_IdempotencyID req \<noteq> uuid_Nil" "key_known env req"
  shows "refused_with 409 x q t (CreateOrder cfg aesKey env userId req t)"
proof -
  have "FindByIdempotencyKey None (rq_IdempotencyID req) (oe_idem_reader env) = Inr True"
    using assms(3,4) by (simp add: FindByIdempotencyKey_def key_known_def)
  then have "encrypted_amount aesKey env req = Inl (NewAppError ErrIdempotencyConflictCode ''idempotency_key_already_exists'' None)"
    by (simp add: encrypted_amount_def assms(2))
  then have "CreateOrder cfg aesKey env userId req t =
      (Inl (NewAppError ErrIdempotencyConflictCode ''idempotency_key_already_exists'' None), t, [])"
    using assms(1) by (simp add: CreateOrder_def WithTransaction_def create_order_tx_def)
  then show ?thesis by (simp add: refused_with_def ToErrorResponse_def NewAppError_def error_code_defs)
qed

lemma uncovered_refused:
  assumes "oe_begin env = None"
    and "encrypted_amount aesKey env req = Inl (NewAppError ErrInsufficientFundsCode ''insufficient_balance'' (Some ErrInsufficientBalance))"
  shows "refused_with 422 x q t (CreateOrder cfg aesKey env userId req t)"
  using assms by (simp add: CreateOrder_def WithTransaction_def create_order_tx_def refused_with_def ToErrorResponse_def NewAppError_def error_code_defs)

lemma foreign_account_refused:
  assumes "order_undisturbed env" "encrypted_amount aesKey env req = Inr enc"
    and "oe_gen_id env \<notin> or_ID ` set (t_orders t)" "\<not> account_exists t (rq_AccountID req) userId"
  shows "refused_with 409 x q t (CreateOrder cfg aesKey env userId req t)"
proof -
  have "OrderRepo_Create (oe_gen_id env) ((new_order env userId req)\<lparr>or_Amount := enc\<rparr>) t = Inl (pg_error ''23503'')"
    using assms(3,4) by (simp add: OrderRepo_Create_def new_order_def)
  then have "CreateOrder cfg aesKey env userId req t = (Inl (HandleSQLError (pg_error ''23503'')), t, [])"
    using assms(1) by (simp add: CreateOrder_def WithTransaction_def create_order_tx_def assms(2) order_undisturbed_def tx_Exec_def Begin_def)
  then show ?thesis
    by (simp add: refused_with_def HandleSQLError_def pg_error_def ToErrorResponse_def NewAppError_def error_code_defs)
qed

text \<open>
  Property C30. When nothing outside fails, an order of \<open>a\<close> cents on a known account that holds \<open>b\<close> cents is
  decided by three checks, in this order. If the reader knows its idempotency key it is refused as a conflict
  (409); if \<open>a\<close> exceeds \<open>b\<close> it is refused as insufficient funds (422); if the account is not one of the user's
  it is refused as a conflict (409), by the foreign key of the table; a refusal adds no row and publishes
  nothing. In every other case it is accepted: its row is pending and holds exactly \<open>a\<close> cents, and the
  published job carries the same text.
\<close>

theorem order_accepted_iff:
  assumes "order_undisturbed env" "length aesKey = 32" "rq_IdempotencyID req \<noteq> uuid_Nil"
    and "FindByID (oe_uuid_string env) None (rq_AccountID req) (oe_account_reader env) = Inr acc"
    and "holds_cents aesKey (ac_Balance acc) b" "ac_Balance acc \<noteq> []" "rq_Amount req = dollars a" "cents_ok a"
    and "oe_gen_id env \<notin> or_ID ` set (t_orders t)"
  shows "if key_known env req then refused_with 409 x q t (CreateOrder cfg aesKey env userId req t)
    else if b < a then refused_with 422 x q t (CreateOrder cfg aesKey env userId req t)
    else if \<not> account_exists t (rq_AccountID req) userId then refused_with 409 x q t (CreateOrder cfg aesKey env userId req t)
    else \<exists>enc. holds_cents aesKey enc a \<and>
      CreateOrder cfg aesKey env userId req t =
        (Inr (oe_uuid_string env (oe_new_id env)), t\<lparr>t_orders := t_orders t @ [stored_order env userId req enc]\<rparr>,
         snd (PublishOrder cfg env (published_job env userId req enc))) \<and>
      or_Status (stored_order env userId req enc) = OrderStatusPending \<and> or_Amount (stored_order env userId req enc) = enc \<and>
      pj_Amount (published_job env userId req enc) = enc"
proof -
  have f: "oe_begin env = None" "oe_idem_fault env = None" using assms(1) by (simp_all add: order_undisturbed_def)
  have new: "\<forall>o' \<in> set (t_orders (oe_idem_reader env)). or_IdempotencyKey o' \<noteq> rq_IdempotencyID req" if "\<not> key_known env req"
    using that by (simp add: key_known_def)
  consider (known) "key_known env req" | (short) "\<not> key_known env req" "b < a"
    | (foreign) "\<not> key_known env req" "a \<le> b" "\<not> account_exists t (rq_AccountID req) userId"
    | (fine) "\<not> key_known env req" "a \<le> b" "account_exists t (rq_AccountID req) userId" by linarith
  then show ?thesis
  proof cases
    case known
    then show ?thesis using known_key_refused [OF f assms(3)] by simp
  next
    case short
    then show ?thesis using uncovered_refused [OF f(1) encrypted_amount_known(1) [OF assms(1-3) new assms(4-8)]] by simp
  next
    case foreign
    from encrypted_amount_known(2) [OF assms(1-3) new [OF foreign(1)] assms(4-8) foreign(2)]
    show ?thesis using foreign foreign_account_refused [OF assms(1) _ assms(9) foreign(3)] by auto
  next
    case fine
    from encrypted_amount_known(2) [OF assms(1-3) new [OF fine(1)] assms(4-8) fine(2)] obtain enc
      where enc: "encrypted_amount aesKey env req = Inr enc" "holds_cents aesKey enc a" by blast
    have "\<exists>enc. holds_cents aesKey enc a \<and>
      CreateOrder cfg aesKey env userId req t =
        (Inr (oe_uuid_string env (oe_new_id env)), t\<lparr>t_orders := t_orders t @ [stored_order env userId req enc]\<rparr>,
         snd (PublishOrder cfg env (published_job env userId req enc))) \<and>
      or_Status (stored_order env userId req enc) = OrderStatusPending \<and> or_Amount (stored_order env userId req enc) = enc \<and>
      pj_Amount (published_job env userId req enc) = enc"
      using enc(2) CreateOrder_encrypted [OF assms(1) enc(1) assms(9) fine(3), of cfg]
      by (intro exI [of _ enc]) (simp add: stored_order_def published_job_def new_order_def ToPaymentJob_def)
    then show ?thesis using fine by (simp add: not_less)
  qed
qed

lemma order_example_premises:
  assumes "cents_ok b"
  shows "FindByID (oe_uuid_string (order_env_example (tables_example b))) None (rq_AccountID (request_example a))
      (oe_account_reader (order_env_example (tables_example b))) = Inr (account_example b)"
    and "holds_cents key_example (ac_Balance (account_example b)) b" "ac_Balance (account_example b) \<noteq> []"
    and "rq_IdempotencyID (request_example a) \<noteq> uuid_Nil"
    and "\<forall>o' \<in> set (t_orders (oe_idem_reader (order_env_example (tables_example b)))).
        or_IdempotencyKey o' \<noteq> rq_IdempotencyID (request_example a)"
    and "account_exists (tables_example b) (rq_AccountID (request_example a)) 8"
  using enc_example_holds [OF assms] enc_example_nonempty
  by (simp_all add: order_example_facts example_facts)

theorem order_accepted_iff_witness:
  "\<exists>enc ms. holds_cents key_example enc 2500 \<and>
     CreateOrder order_config_example key_example (order_env_example (tables_example 10000)) 8 (request_example 2500) (tables_example 10000) =
       (Inr ''uuid'', (tables_example 10000)\<lparr>t_orders := [order_example,
          stored_order (order_env_example (tables_example 10000)) 8 (request_example 2500) enc]\<rparr>, ms)"
proof -
  have c: "cents_ok 10000" "cents_ok 2500" by (simp_all add: cents_ok_def)
  note p = order_example_premises [OF c(1)]
  have us: "oe_uuid_string (order_env_example t) u = ''uuid''" for t u by (simp add: order_env_example_def)
  have ord: "t_orders (tables_example 10000) = [order_example]" by (simp add: tables_example_def)
  have k: "\<not> key_known (order_env_example (tables_example 10000)) (request_example 2500)" "\<not> (10000 :: nat) < 2500"
    using p(5) by (simp_all add: key_known_def)
  obtain enc where "holds_cents key_example enc 2500" and
    "CreateOrder order_config_example key_example (order_env_example (tables_example 10000)) 8 (request_example 2500) (tables_example 10000) =
      (Inr (oe_uuid_string (order_env_example (tables_example 10000)) (oe_new_id (order_env_example (tables_example 10000)))),
       (tables_example 10000)\<lparr>t_orders := t_orders (tables_example 10000) @
         [stored_order (order_env_example (tables_example 10000)) 8 (request_example 2500) enc]\<rparr>,
       snd (PublishOrder order_config_example (order_env_example (tables_example 10000))
         (published_job (order_env_example (tables_example 10000)) 8 (request_example 2500) enc)))"
    using order_accepted_iff [OF order_example_facts(1,2) p(4,1,2,3) order_example_facts(7) c(2) order_example_facts(9),
        where userId = 8 and x = False and q = id and cfg = order_config_example and b1 = 10000]
    unfolding if_not_P [OF k(1)] if_not_P [OF k(2)] by (simp only: p(6) if_False simp_thms) blast
  then show ?thesis unfolding us ord by auto
qed

subsection \<open>Idempotency\<close>

definition orders_with_key :: "uuid \<Rightarrow> Tables \<Rightarrow> nat" where
  "orders_with_key key t = length (filter (\<lambda>o'. or_IdempotencyKey o' = key) (t_orders t))"

text \<open>
  A key the reader knows is refused with a conflict (a 409 reply): no row is added
  and no job is published, so a client may repeat a request whose order has reached the reader.
\<close>

theorem duplicate_order_refused:
  assumes "oe_begin env = None" "oe_idem_fault env = None" "rq_IdempotencyID req \<noteq> uuid_Nil"
    and "0 < orders_with_key (rq_IdempotencyID req) (oe_idem_reader env)"
  shows "\<exists>err. CreateOrder cfg aesKey env userId req t = (Inl err, t, []) \<and> er_Status (ToErrorResponse x q err) = 409"
proof -
  have "key_known env req" using assms(4) by (auto simp: orders_with_key_def key_known_def filter_empty_conv)
  from known_key_refused [OF assms(1-3) this, of x q t cfg aesKey userId] show ?thesis
    by (auto simp: refused_with_def split: prod.splits sum.splits)
qed

theorem duplicate_order_refused_witness:
  "\<exists>err. CreateOrder order_config_example key_example (order_env_example (tables_example 10000)) 8
       ((request_example 2500)\<lparr>rq_IdempotencyID := 9\<rparr>) (tables_example 10000) = (Inl err, tables_example 10000, []) \<and>
     er_Status (ToErrorResponse False id err) = 409"
proof -
  have "0 < orders_with_key (rq_IdempotencyID ((request_example 2500)\<lparr>rq_IdempotencyID := 9\<rparr>))
      (oe_idem_reader (order_env_example (tables_example 10000)))"
    by (simp add: orders_with_key_def order_env_example_def tables_example_def order_example_def)
  from duplicate_order_refused [OF _ _ _ this, of order_config_example key_example 8 "tables_example 10000" False id]
  show ?thesis by (simp add: order_env_example_def)
qed

text \<open>
  The guard is only as fresh as the reader it asks: the primary has no unique key,
  so an order that is accepted adds a row however many rows with its key the primary already
  holds, and its job goes out once more.
\<close>

theorem idempotency_only_as_fresh_as_reader:
  assumes "CreateOrder cfg aesKey env userId req t = (Inr id', t', ms)" "oe_gen_id env \<notin> or_ID ` set (t_orders t)"
  shows "orders_with_key (rq_IdempotencyID req) t' = orders_with_key (rq_IdempotencyID req) t + 1 \<and>
    orders_with_key (rq_IdempotencyID req) (oe_idem_reader env) = 0"
proof (rule CreateOrder_cases [of cfg aesKey env userId req t])
  fix enc t'' n
  assume a: "encrypted_amount aesKey env req = Inr enc"
    "OrderRepo_Create (oe_gen_id env) ((new_order env userId req)\<lparr>or_Amount := enc\<rparr>) t = Inr (t'', n)"
    "CreateOrder cfg aesKey env userId req t =
        (Inr (oe_uuid_string env (oe_new_id env)), t'', snd (PublishOrder cfg env (published_job env userId req enc)))"
  have "t' = t\<lparr>t_orders := t_orders t @ [((new_order env userId req)\<lparr>or_Amount := enc\<rparr>)\<lparr>or_ID := oe_gen_id env, or_Currency := ''CAD'', or_Message := []\<rparr>]\<rparr>"
    using OrderRepo_Create_cases [OF a(2) assms(2)] a(3) assms(1) by simp
  then have "orders_with_key (rq_IdempotencyID req) t' = orders_with_key (rq_IdempotencyID req) t + 1"
    by (simp add: orders_with_key_def new_order_def)
  moreover have "FindByIdempotencyKey (oe_idem_fault env) (rq_IdempotencyID req) (oe_idem_reader env) = Inr False"
    using a(1) by (auto simp: encrypted_amount_def split: sum.splits bool.splits)
  then have "orders_with_key (rq_IdempotencyID req) (oe_idem_reader env) = 0"
    by (auto simp: FindByIdempotencyKey_def orders_with_key_def filter_empty_conv split: if_splits option.splits)
  ultimately show ?thesis by simp
qed (use assms(1) in simp)

text \<open>A replica that has not seen the order yet, while the primary has.\<close>

definition stale_env_example :: OrderEnv where
  "stale_env_example = (order_env_example (tables_example 10000))\<lparr>oe_idem_reader := (tables_example 10000)\<lparr>t_orders := []\<rparr>\<rparr>"

theorem idempotency_only_as_fresh_as_reader_witness:
  "\<exists>t' ms. CreateOrder order_config_example key_example stale_env_example 8 ((request_example 2500)\<lparr>rq_IdempotencyID := 9\<rparr>)
       (tables_example 10000) = (Inr ''uuid'', t', ms) \<and> orders_with_key 9 t' = 2"
proof -
  let ?req = "(request_example 2500)\<lparr>rq_IdempotencyID := 9\<rparr>"
  have c: "cents_ok 10000" "cents_ok 2500" by (simp_all add: cents_ok_def)
  have u: "order_undisturbed stale_env_example" and g: "oe_gen_id stale_env_example \<notin> or_ID ` set (t_orders (tables_example 10000))"
    and e: "\<forall>o' \<in> set (t_orders (oe_idem_reader stale_env_example)). or_IdempotencyKey o' \<noteq> rq_IdempotencyID ?req"
    and f: "FindByID (oe_uuid_string stale_env_example) None (rq_AccountID ?req) (oe_account_reader stale_env_example) = Inr (account_example 10000)"
    and r: "rq_IdempotencyID ?req \<noteq> uuid_Nil" "rq_Amount ?req = dollars 2500" "rq_AccountID ?req = 7"
    using order_example_facts(1,9)
    by (simp_all add: stale_env_example_def order_undisturbed_def order_env_example_def request_example_def example_facts)
  from encrypted_amount_known(2) [OF u order_example_facts(2) r(1) e f order_example_premises(2,3) [OF c(1)] r(2) c(2)]
  obtain enc where "encrypted_amount key_example stale_env_example ?req = Inr enc" by auto
  from CreateOrder_encrypted [OF u this g] obtain t' ms where
    x: "CreateOrder order_config_example key_example stale_env_example 8 ?req (tables_example 10000) = (Inr ''uuid'', t', ms)"
    using order_example_facts(10) r(3) by (simp add: stale_env_example_def order_env_example_def)
  have "orders_with_key 9 (tables_example 10000) = 1" by (simp add: orders_with_key_def tables_example_def order_example_def)
  with idempotency_only_as_fresh_as_reader [OF x g] x show ?thesis by simp
qed

subsection \<open>The HTTP surface\<close>

text \<open>What the handler relies on in an \<open>OrderService\<close>: an error means that nothing happened.\<close>

locale order_service =
  fixes service :: "uuid \<Rightarrow> OrderRequest \<Rightarrow> 's \<Rightarrow> string result \<times> 's \<times> 'm list"
  assumes error_no_effect: "service user req s = (Inl err, s', ms) \<Longrightarrow> s' = s \<and> ms = []"
begin

lemma served:
  assumes "serve_order expose quote uuid_parse new_trace bind service c s = (reply, s', ms, metrics)" "new_trace \<noteq> []"
  shows "if \<exists>rid user req oid. hq_Header c ''X-Request-Id'' \<noteq> [] \<and> uuid_parse (hq_Header c ''X-Request-Id'') = Inr rid \<and>
        uuid_parse (hq_Header c ''user_id'') = Inr user \<and> bind (hq_Body c) = Inr req \<and> fst (service user req s) = Inr oid
    then \<exists>user req oid. uuid_parse (hq_Header c ''user_id'') = Inr user \<and> bind (hq_Body c) = Inr req \<and>
        service user req s = (Inr oid, s', ms) \<and> rp_Status reply = 201 \<and> rp_Body reply = OrderCreated oid
    else s' = s \<and> ms = [] \<and> (\<exists>resp. rp_Body reply = ErrorBody resp \<and> rp_Status reply = er_Status resp)"
proof (cases "hq_Header c ''X-Request-Id'' = [] \<or> (\<exists>e. uuid_parse (hq_Header c ''X-Request-Id'') = Inl e)")
  case True
  obtain err where "TraceID expose quote uuid_parse new_trace c = Inl (error_reply expose quote None err)"
    using True by (cases "hq_Header c ''X-Request-Id'' = []") (auto simp: TraceID_def IsEmpty_def)
  then have r: "reply = error_reply expose quote None err" "s' = s" "ms = []"
    using assms(1) by (simp_all add: serve_order_def)
  have "\<exists>resp. rp_Body reply = ErrorBody resp \<and> rp_Status reply = er_Status resp"
    by (simp add: r error_reply_def Let_def)
  then show ?thesis using True r by auto
next
  case False
  then obtain rid where rid: "hq_Header c ''X-Request-Id'' \<noteq> []" "uuid_parse (hq_Header c ''X-Request-Id'') = Inr rid"
    by (cases "uuid_parse (hq_Header c ''X-Request-Id'')") auto
  then obtain tr where tr: "TraceID expose quote uuid_parse new_trace c = Inr tr" "tr \<noteq> []"
    using assms(2) by (auto simp: TraceID_def IsEmpty_def Let_def)
  have h: "OrderHandler_CreateOrder expose quote uuid_parse bind service tr c s = (reply, s', ms)"
    using assms(1) tr by (auto simp: serve_order_def split: prod.splits)
  show ?thesis
  proof (cases "uuid_parse (hq_Header c ''user_id'')")
    case (Inl e)
    then show ?thesis using h tr(2) by (auto simp: OrderHandler_CreateOrder_def GetTraceID_def IsEmpty_def error_reply_def Let_def)
  next
    case user: (Inr user)
    show ?thesis
    proof (cases "bind (hq_Body c)")
      case (Inl e)
      then show ?thesis using h tr(2) user by (auto simp: OrderHandler_CreateOrder_def GetTraceID_def IsEmpty_def error_reply_def Let_def)
    next
      case req: (Inr req)
      obtain r s1 m1 where r: "service user req s = (r, s1, m1)" using prod_cases3 by blast
      show ?thesis
        using h tr(2) user req r rid error_no_effect
        by (cases r) (auto simp: OrderHandler_CreateOrder_def GetTraceID_def IsEmpty_def error_reply_def Let_def)
    qed
  qed
qed

end

interpretation orders: order_service "CreateOrder cfg aesKey env" for cfg aesKey env
proof
  fix user req s err s' ms assume "CreateOrder cfg aesKey env user req s = (Inl err, s', ms)"
  then show "s' = s \<and> ms = []" by (cases rule: CreateOrder_cases [of cfg aesKey env user req s]) auto
qed

text \<open>
  A client sees 201 and an order id exactly when its headers and body are accepted
  and the service created the order; every other reply is an error document, sent with its
  status, and leaves the database and Kafka untouched.
\<close>

theorem order_http_created_iff:
  assumes "serve_order expose quote uuid_parse new_trace bind (CreateOrder cfg aesKey env) c t = (reply, t', ms, metrics)"
    and "new_trace \<noteq> []"
  shows "if \<exists>rid user req oid. hq_Header c ''X-Request-Id'' \<noteq> [] \<and> uuid_parse (hq_Header c ''X-Request-Id'') = Inr rid \<and>
        uuid_parse (hq_Header c ''user_id'') = Inr user \<and> bind (hq_Body c) = Inr req \<and>
        fst (CreateOrder cfg aesKey env user req t) = Inr oid
    then \<exists>user req oid. uuid_parse (hq_Header c ''user_id'') = Inr user \<and> bind (hq_Body c) = Inr req \<and>
        CreateOrder cfg aesKey env user req t = (Inr oid, t', ms) \<and> rp_Status reply = 201 \<and> rp_Body reply = OrderCreated oid
    else t' = t \<and> ms = [] \<and> (\<exists>resp. rp_Body reply = ErrorBody resp \<and> rp_Status reply = er_Status resp)"
  by (rule orders.served [OF assms])

definition http_request_example :: HttpRequest where
  "http_request_example = \<lparr>hq_Header = (\<lambda>h. if h = ''X-Request-Id'' then ''id'' else []), hq_Body = ''body''\<rparr>"

theorem order_http_created_iff_witness:
  "\<exists>reply metrics resp. serve_order False id (\<lambda>s. if s = ''id'' then Inr 1 else Inl (LibError ''invalid UUID length''))
       ''trace'' (\<lambda>b. Inr (request_example 2500))
       (CreateOrder order_config_example key_example (order_env_example (tables_example 10000))) http_request_example (tables_example 10000) =
     (reply, tables_example 10000, [], metrics) \<and> rp_Body reply = ErrorBody resp"
proof -
  obtain reply t' ms metrics where x: "serve_order False id (\<lambda>s. if s = ''id'' then Inr 1 else Inl (LibError ''invalid UUID length''))
       ''trace'' (\<lambda>b. Inr (request_example 2500))
       (CreateOrder order_config_example key_example (order_env_example (tables_example 10000))) http_request_example (tables_example 10000) =
     (reply, t', ms, metrics)" by (metis prod_cases4)
  from order_http_created_iff [OF x] have "t' = tables_example 10000" "ms = []" "\<exists>resp. rp_Body reply = ErrorBody resp"
    by (auto simp: http_request_example_def)
  then show ?thesis using x by blast
qed

text \<open>
  Jobs of one user go to one partition of the order topic, a valid one, under the
  idempotency key of the order, so they are consumed in the order in which they were accepted.
\<close>

theorem user_jobs_share_a_partition:
  assumes "OrderApiConfig_tags cfg" "\<forall>j. oe_marshal env j = None" "oe_produce env = None"
  shows "\<exists>part. 0 \<le> part \<and> part < oc_KafkaPartition cfg \<and>
    (\<forall>job. pj_UserID job = user \<longrightarrow> PublishOrder cfg env job =
       (None, [\<lparr>om_Topic = oc_KafkaOrderTopic cfg, om_Partition = part, om_Key = pj_IdempotencyKey job, om_Job = job\<rparr>]))"
proof (intro exI conjI allI impI)
  have "0 < oc_KafkaPartition cfg" using assms(1) by (simp add: OrderApiConfig_tags_def)
  then show "0 \<le> uint (oe_uuid_ID env user) mod oc_KafkaPartition cfg"
    "uint (oe_uuid_ID env user) mod oc_KafkaPartition cfg < oc_KafkaPartition cfg" by simp_all
qed (use assms in \<open>simp add: PublishOrder_def Let_def\<close>)

theorem user_jobs_share_a_partition_witness:
  "\<exists>part. 0 \<le> part \<and> part < 4 \<and>
    PublishOrder order_config_example (order_env_example (tables_example 1)) (job_example 1) =
      (None, [\<lparr>om_Topic = ''orders'', om_Partition = part, om_Key = 9, om_Job = job_example 1\<rparr>])"
proof -
  have "OrderApiConfig_tags order_config_example" by (simp add: OrderApiConfig_tags_def order_config_example_def)
  from user_jobs_share_a_partition [OF this, of "order_env_example (tables_example 1)" "pj_UserID (job_example 1)"]
  show ?thesis by (fastforce simp: order_env_example_def order_config_example_def example_facts)
qed

end
