(* ===== verification/Order_App.thy ===== *)
theory Order_App
  imports Order_Api Database
begin

text \<open>
  \<open>services/order-api/app/app.go\<close> and \<open>services/order-api/cmd/main.go\<close> with
  \<open>pkg/database/migrate.go\<close>: how the order API is put together and
  taken down. The answers of the outside are \<open>AppEnv\<close>; opening and closing pools and the producer
  are events. \<open>AppFatal\<close> is where a constructor logs with \<open>Fatal\<close> and the process exits without
  running anything deferred; \<open>AppFailed\<close> is an error \<open>NewApp\<close> returns to its caller.
\<close>

subsection \<open>Migrations\<close>

definition ErrNoChange :: go_error where
  "ErrNoChange = LibError ''no change''"

text \<open>\<open>errors.Is\<close> with \<open>migrate.ErrNoChange\<close>, which the library returns unwrapped or wrapped.\<close>

fun is_no_change :: "go_error \<Rightarrow> bool" where
  "is_no_change (WrapError m err) = is_no_change err"
| "is_no_change err = (err = ErrNoChange)"

definition RunMigrations ::
  "go_error option \<Rightarrow> (string \<Rightarrow> go_error option) \<Rightarrow> go_error option \<Rightarrow> string \<Rightarrow> go_error option" where
  "RunMigrations newSource newMigrate up primaryDSN =
     (case newSource of
        Some err \<Rightarrow> Some err
      | None \<Rightarrow>
          (case newMigrate (''pgx5://'' @ primaryDSN) of
             Some err \<Rightarrow> Some err
           | None \<Rightarrow>
               (case up of
                  Some err \<Rightarrow> if is_no_change err then None else Some err
                | None \<Rightarrow> None)))"

subsection \<open>The application\<close>

record AppEnv =
  ae_load :: "OrderApiConfig result"
  ae_pools :: PoolWorld
  ae_source :: "go_error option"
  ae_migrate :: "string \<Rightarrow> go_error option"
  ae_up :: "go_error option"
  ae_init :: "KafkaConfig \<Rightarrow> go_error option"
  ae_producer :: "go_error option"

datatype app_event = PoolEvent pool_event | ProducerOpened | ProducerClosed

record App =
  app_Addr :: string
  app_db :: DbHandle
  app_publisher :: KafkaPublisher
  app_aesKey :: "byte list"
  app_cfg :: OrderApiConfig

datatype app_result = AppFailed go_error | AppFatal go_error | AppReady App

definition order_db_config :: "OrderApiConfig \<Rightarrow> DbConfig" where
  "order_db_config cfg = \<lparr>dc_PrimaryDSN = oc_PrimaryDbAddr cfg, dc_ReadDSNs = [oc_ReadDbAddr cfg],
     dc_MaxConns = oc_MaxDbCons cfg, dc_MinConns = oc_MinDbCons cfg\<rparr>"

definition NewApp :: "AppEnv \<Rightarrow> app_result \<times> app_event list" where
  "NewApp env =
     (case ae_load env of
        Inl err \<Rightarrow> (AppFailed err, [])
      | Inr cfg \<Rightarrow>
          (case database_New (ae_pools env) (order_db_config cfg) of
             (Inl err, ev) \<Rightarrow> (AppFailed err, map PoolEvent ev)
           | (Inr db, ev) \<Rightarrow>
               (case RunMigrations (ae_source env) (ae_migrate env) (ae_up env) (oc_PrimaryDbAddr cfg) of
                  Some err \<Rightarrow> (AppFailed err, map PoolEvent (ev @ database_closer db))
                | None \<Rightarrow>
                    (case NewKafkaPublisher (ae_init env) (ae_producer env) cfg of
                       Inl err \<Rightarrow> (AppFatal err, map PoolEvent ev)
                     | Inr publisher \<Rightarrow>
                         (case NewOrderService cfg of
                            Inl err \<Rightarrow> (AppFatal err, map PoolEvent ev @ [ProducerOpened])
                          | Inr key \<Rightarrow>
                              (AppReady \<lparr>app_Addr = '':'' @ oc_Port cfg, app_db = db, app_publisher = publisher,
                                 app_aesKey = key, app_cfg = cfg\<rparr>, map PoolEvent ev @ [ProducerOpened]))))))"

definition app_cleanup :: "App \<Rightarrow> app_event list" where
  "app_cleanup app = map PoolEvent (database_closer (app_db app)) @ [ProducerClosed]"

text \<open>
  The routes with the middlewares in front of their handlers, in the order of registration. A group
  puts its prefix and its middlewares before each of its routes.
\<close>

definition OrderHandler_RegisterRoutes :: "string \<Rightarrow> string list \<Rightarrow> (string \<times> string \<times> string list) list" where
  "OrderHandler_RegisterRoutes prefix middlewares = [(''POST'', prefix @ ''/orders'', middlewares)]"

definition BaseHandler_RegisterRoutes :: "(string \<times> string \<times> string list) list" where
  "BaseHandler_RegisterRoutes = [(''GET'', ''/health'', []), (''GET'', ''/metrics'', [])]"

definition app_routes :: "(string \<times> string \<times> string list) list" where
  "app_routes = [(''GET'', ''/swagger/*any'', [])] @ OrderHandler_RegisterRoutes ''/api/v1'' [''TraceID'', ''Metrics''] @
     BaseHandler_RegisterRoutes"

subsection \<open>Delivery reports\<close>

text \<open>
  The events of a Kafka producer; a delivery report is a message with its error, if any. The
  publisher of the order API logs the failures and does nothing else about them.
\<close>

datatype producer_event = Delivery "go_error option" | OtherEvent

datatype log_entry = LogError string | LogDebug string

fun publish_report_entry :: "producer_event \<Rightarrow> log_entry list" where
  "publish_report_entry (Delivery (Some err)) = [LogError ''failed_to_publish_message'']"
| "publish_report_entry (Delivery None) = []"
| "publish_report_entry OtherEvent = []"

definition handleDeliveryReports :: "producer_event list \<Rightarrow> log_entry list" where
  "handleDeliveryReports evs = concat (map publish_report_entry evs)"

subsection \<open>What is open, and what is closed again\<close>

fun pool_events :: "app_event list \<Rightarrow> pool_event list" where
  "pool_events [] = []"
| "pool_events (PoolEvent e # es) = e # pool_events es"
| "pool_events (_ # es) = pool_events es"

lemma pool_events_simps [simp]:
  "pool_events (map PoolEvent es) = es" "pool_events (a @ b) = pool_events a @ pool_events b"
  by (induction es, simp_all) (induction a rule: pool_events.induct, simp_all)

lemma closer_opens_nothing [simp]: "opened (database_closer db) = []"
  by (simp add: database_closer_def)

lemma database_closer_closes:
  assumes "database_New w cfg = (Inr db, ev)"
  shows "closed_pools ev = []" "closed_pools (database_closer db) = opened ev" "distinct (opened ev)"
  using database_New_accounted [where w = w and cfg = cfg] assms by simp_all

lemma NewApp_accounted:
  "case NewApp env of
     (AppFailed err, ev) \<Rightarrow> set (closed_pools (pool_events ev)) = set (opened (pool_events ev)) \<and> ProducerOpened \<notin> set ev
   | (AppFatal err, ev) \<Rightarrow> closed_pools (pool_events ev) = []
   | (AppReady app, ev) \<Rightarrow> closed_pools (pool_events ev) = [] \<and> count_list ev ProducerOpened = 1 \<and>
       length (app_aesKey app) = 32 \<and>
       RunMigrations (ae_source env) (ae_migrate env) (ae_up env) (oc_PrimaryDbAddr (app_cfg app)) = None \<and>
       closed_pools (pool_events (app_cleanup app)) = opened (pool_events ev) \<and> distinct (opened (pool_events ev)) \<and>
       last (app_cleanup app) = ProducerClosed"
proof (cases "ae_load env")
  case (Inl err)
  then show ?thesis by (simp add: NewApp_def)
next
  case cfg: (Inr cfg)
  obtain r ev where db: "database_New (ae_pools env) (order_db_config cfg) = (r, ev)" by fastforce
  have none: "ProducerOpened \<notin> set (map PoolEvent es)" for es by auto
  have cnt: "count_list (map PoolEvent es) ProducerOpened = 0" for es by (induction es) auto
  show ?thesis
  proof (cases r)
    case (Inl err)
    then show ?thesis
      using database_New_accounted [where w = "ae_pools env" and cfg = "order_db_config cfg"] cfg db none by (simp add: NewApp_def)
  next
    case (Inr h)
    note acc = database_closer_closes [OF db [unfolded Inr]]
    have key: "length k = 32" if "NewOrderService cfg = Inr k" for k
      using that by (auto simp: NewOrderService_def DecodeString_def split: option.splits if_splits)
    show ?thesis
      using cfg db Inr acc none cnt key
      by (auto simp: NewApp_def app_cleanup_def split: option.split sum.split)
  qed
qed

subsection \<open>The process\<close>

text \<open>
  \<open>services/order-api/cmd/main.go\<close>: the application is built, served until a signal arrives, shut
  down within ten seconds, and cleaned up by the deferred call. \<open>Fatal\<close> exits without running what
  is deferred; a panic runs it. \<open>listen\<close>, \<open>shutdown\<close> and \<open>sync\<close> are the answers of the server and
  of the logger, \<open>ErrServerClosed\<close> being the one error of \<open>ListenAndServe\<close> that is none.
\<close>

definition ErrServerClosed :: go_error where
  "ErrServerClosed = LibError ''http: Server closed''"

datatype main_exit = MainFatal go_error | MainPanic go_error | MainDone

definition order_api_main ::
  "AppEnv \<Rightarrow> go_error option \<Rightarrow> go_error option \<Rightarrow> go_error option \<Rightarrow> main_exit \<times> app_event list" where
  "order_api_main env listen shutdown sync =
     (case NewApp env of
        (AppFailed err, ev) \<Rightarrow> (MainFatal err, ev)
      | (AppFatal err, ev) \<Rightarrow> (MainFatal err, ev)
      | (AppReady app, ev) \<Rightarrow>
          (case (listen, shutdown, sync) of
             (Some err, _, _) \<Rightarrow>
               if err \<noteq> ErrServerClosed then (MainFatal err, ev)
               else (case (shutdown, sync) of
                 (Some err, _) \<Rightarrow> (MainFatal err, ev)
               | (None, Some err) \<Rightarrow> (MainPanic err, ev @ app_cleanup app)
               | (None, None) \<Rightarrow> (MainDone, ev @ app_cleanup app))
           | (None, Some err, _) \<Rightarrow> (MainFatal err, ev)
           | (None, None, Some err) \<Rightarrow> (MainPanic err, ev @ app_cleanup app)
           | (None, None, None) \<Rightarrow> (MainDone, ev @ app_cleanup app)))"

text \<open>A process that does not exit fatally has closed every pool it opened, once, and the producer.\<close>

lemma order_main_releases:
  assumes "order_api_main env listen shutdown sync = (out, ev)" "\<forall>err. out \<noteq> MainFatal err"
  shows "closed_pools (pool_events ev) = opened (pool_events ev) \<and> distinct (opened (pool_events ev)) \<and> last ev = ProducerClosed"
proof -
  obtain app ev0 where app: "NewApp env = (AppReady app, ev0)" and ev: "ev = ev0 @ app_cleanup app"
    using assms by (auto simp: order_api_main_def split: prod.splits app_result.splits option.splits if_splits)
  have "closed_pools (pool_events ev0) = [] \<and> closed_pools (pool_events (app_cleanup app)) = opened (pool_events ev0) \<and>
      distinct (opened (pool_events ev0)) \<and> opened (pool_events (app_cleanup app)) = [] \<and> last (app_cleanup app) = ProducerClosed \<and> app_cleanup app \<noteq> []"
    using NewApp_accounted [of env] by (simp add: app app_cleanup_def)
  then show ?thesis by (simp add: ev)
qed

text \<open>
  The order API accounts for what it opens. When \<open>NewApp\<close> returns an error, every
  pool it opened has been closed and no producer was opened; when it returns an application, nothing
  was closed yet, the service's key has 32 bytes and the migrations ran (or had nothing to do) on the
  primary. A process that ends in any other way than by a fatal exit has closed every pool it opened,
  exactly once, and the producer last.
\<close>

theorem app_accounts_for_resources:
  "(case NewApp env of
      (AppFailed err, ev) \<Rightarrow> set (closed_pools (pool_events ev)) = set (opened (pool_events ev)) \<and> ProducerOpened \<notin> set ev
    | (AppFatal err, ev) \<Rightarrow> closed_pools (pool_events ev) = []
    | (AppReady app, ev) \<Rightarrow> closed_pools (pool_events ev) = [] \<and> count_list ev ProducerOpened = 1 \<and> length (app_aesKey app) = 32 \<and>
        RunMigrations (ae_source env) (ae_migrate env) (ae_up env) (oc_PrimaryDbAddr (app_cfg app)) = None) \<and>
   (case order_api_main env listen shutdown sync of (out, ev) \<Rightarrow>
      (\<exists>err. out = MainFatal err) \<or>
      closed_pools (pool_events ev) = opened (pool_events ev) \<and> distinct (opened (pool_events ev)) \<and> last ev = ProducerClosed)"
proof
  show "case NewApp env of
      (AppFailed err, ev) \<Rightarrow> set (closed_pools (pool_events ev)) = set (opened (pool_events ev)) \<and> ProducerOpened \<notin> set ev
    | (AppFatal err, ev) \<Rightarrow> closed_pools (pool_events ev) = []
    | (AppReady app, ev) \<Rightarrow> closed_pools (pool_events ev) = [] \<and> count_list ev ProducerOpened = 1 \<and> length (app_aesKey app) = 32 \<and>
        RunMigrations (ae_source env) (ae_migrate env) (ae_up env) (oc_PrimaryDbAddr (app_cfg app)) = None"
    using NewApp_accounted [of env] by (simp split: prod.splits app_result.splits)
  show "case order_api_main env listen shutdown sync of (out, ev) \<Rightarrow>
      (\<exists>err. out = MainFatal err) \<or>
      closed_pools (pool_events ev) = opened (pool_events ev) \<and> distinct (opened (pool_events ev)) \<and> last ev = ProducerClosed"
    using order_main_releases by (auto split: prod.split)
qed

end
