(* ===== verification/Worker.thy ===== *)
theory Worker
  imports Retry_Consumer Database Redis_Client
begin

text \<open>
  \<open>services/payment-worker/cmd/main.go\<close>: how the payment worker is put together, and the life of
  the retry channel, through which the goroutines that process payments hand jobs to the
  goroutine of the retry handler. The channel has no buffer: a send waits for the receiver.
  \<open>start_worker\<close> is the code up to the two calls of \<open>Start\<close>; an error is where it logs with
  \<open>Fatal\<close>. \<open>wstep\<close> interleaves sends, the receiver and the shutdown sequence of \<open>main\<close>.
\<close>

subsection \<open>Starting\<close>

record WorkerEnv =
  we_load :: "WorkerConfig result"
  we_pools :: PoolWorld
  we_ping :: "RedisOptions \<Rightarrow> go_error option"
  we_init :: "KafkaConfig \<Rightarrow> go_error option"
  we_newProducer :: "(string \<times> string) list \<Rightarrow> go_error option"
  we_newConsumer :: "(string \<times> string) list \<Rightarrow> go_error option"
  we_orderConsumer :: "go_error option"
  we_orderProducer :: "go_error option"
  we_hostname :: "string result"

record Worker =
  wk_db :: DbHandle
  wk_redis :: RedisOptions
  wk_processor :: PaymentProcessor
  wk_retry :: RetryConsumer
  wk_order :: OrderConsumer

definition worker_db_config :: "WorkerConfig \<Rightarrow> DbConfig" where
  "worker_db_config cfg = \<lparr>dc_PrimaryDSN = wc_PrimaryDbAddr cfg, dc_ReadDSNs = [wc_ReadDbAddr cfg],
     dc_MaxConns = wc_MaxDbCons cfg, dc_MinConns = wc_MinDbCons cfg\<rparr>"

text \<open>\<open>cache.Config\<close> with the address alone: everything else has the zero value of its type.\<close>

definition worker_redis_config :: "WorkerConfig \<Rightarrow> RedisConfig" where
  "worker_redis_config cfg = \<lparr>rc_Addr = wc_RedisAddr cfg, rc_Username = [], rc_Password = [], rc_DB = 0, rc_UseTLS = False,
     rc_DialTimeout = 0, rc_ReadTimeout = 0, rc_WriteTimeout = 0, rc_PoolSize = 0, rc_MinIdleConns = 0, rc_MaxRetries = 0,
     rc_MaxRetryBackoff = 0, rc_MinRetryBackoff = 0\<rparr>"

definition start_worker :: "WorkerEnv \<Rightarrow> Worker result" where
  "start_worker env =
     (case we_load env of
        Inl err \<Rightarrow> Inl err
      | Inr cfg \<Rightarrow>
     (case fst (database_New (we_pools env) (worker_db_config cfg)) of
        Inl err \<Rightarrow> Inl err
      | Inr db \<Rightarrow>
     (case fst (redis_New (we_ping env) (worker_redis_config cfg)) of
        Inl err \<Rightarrow> Inl err
      | Inr redisClient \<Rightarrow>
     (case DecodeString (wc_AesKey cfg) of
        Inl err \<Rightarrow> Inl err
      | Inr aesKey \<Rightarrow>
          (let processor = \<lparr>pp_FraudDetector = NewFraudDetectionService aesKey cfg, pp_EncryptionKey = aesKey\<rparr>
           in case NewKafkaRetryHandler (we_init env) (we_newProducer env) (we_newConsumer env) (we_hostname env) cfg of
             Inl err \<Rightarrow> Inl err
           | Inr retry \<Rightarrow>
               (case NewKafkaOrderConsumer (we_init env) (we_orderConsumer env) (we_orderProducer env) cfg of
                  Inl err \<Rightarrow> Inl err
                | Inr order \<Rightarrow>
                    Inr \<lparr>wk_db = db, wk_redis = redisClient, wk_processor = processor, wk_retry = retry, wk_order = order\<rparr>))))))"

subsection \<open>The retry channel and the shutdown\<close>

text \<open>
  The stages of \<open>main\<close> after a signal: the metrics server is shut down, the context cancelled,
  the order consumer, Redis and the retry handler closed, the channel closed, and after the rest
  of the ten seconds the process exits.
\<close>

datatype stage = Serving | Signalled | ContextCancelled | OrderConsumerClosed | RedisClosed | RetryHandlerClosed
  | ChannelClosed | Exited

fun stage_no :: "stage \<Rightarrow> nat" where
  "stage_no Serving = 0"
| "stage_no Signalled = 1"
| "stage_no ContextCancelled = 2"
| "stage_no OrderConsumerClosed = 3"
| "stage_no RedisClosed = 4"
| "stage_no RetryHandlerClosed = 5"
| "stage_no ChannelClosed = 6"
| "stage_no Exited = 7"

lemma stage_no_inj: "stage_no x = stage_no y \<Longrightarrow> x = y"
  by (cases x; cases y) simp_all

instantiation stage :: linorder
begin

definition less_eq_stage :: "stage \<Rightarrow> stage \<Rightarrow> bool" where
  "less_eq_stage x y \<longleftrightarrow> stage_no x \<le> stage_no y"

definition less_stage :: "stage \<Rightarrow> stage \<Rightarrow> bool" where
  "less_stage x y \<longleftrightarrow> stage_no x < stage_no y"

instance
  by standard (auto simp: less_eq_stage_def less_stage_def intro: stage_no_inj)

end

fun next_stage :: "stage \<Rightarrow> stage option" where
  "next_stage Serving = Some Signalled"
| "next_stage Signalled = Some ContextCancelled"
| "next_stage ContextCancelled = Some OrderConsumerClosed"
| "next_stage OrderConsumerClosed = Some RedisClosed"
| "next_stage RedisClosed = Some RetryHandlerClosed"
| "next_stage RetryHandlerClosed = Some ChannelClosed"
| "next_stage ChannelClosed = Some Exited"
| "next_stage Exited = None"

record Handoff =
  hf_sending :: "PaymentJob list"
  hf_taken :: "PaymentJob list"
  hf_sent :: "PaymentJob list"
  hf_listening :: bool
  hf_stage :: stage
  hf_panicked :: bool
  hf_state :: MsgState

definition handoff_start :: "MsgState \<Rightarrow> Handoff" where
  "handoff_start st = \<lparr>hf_sending = [], hf_taken = [], hf_sent = [], hf_listening = True, hf_stage = Serving,
     hf_panicked = False, hf_state = st\<rparr>"

definition alive :: "Handoff \<Rightarrow> bool" where
  "alive s \<longleftrightarrow> \<not> hf_panicked s \<and> hf_stage s \<noteq> Exited"

text \<open>
  A goroutine that reaches \<open>RetryChannel <- job\<close> becomes a waiting sender (\<open>Send\<close>); the retry
  handler takes the job of a sender and runs its iteration, which panics when the backoff does
  (\<open>Take\<close>, \<open>TakePanics\<close>); it returns once the context is cancelled or the channel closed, and
  while both a sender and the end of the context are ready either may be chosen (\<open>StopListening\<close>).
  A sender that waits on a closed channel panics, which ends the process (\<open>SendPanics\<close>).
\<close>

inductive wstep :: "WorkerConfig \<Rightarrow> (RetryEnv \<Rightarrow> bool) \<Rightarrow> Handoff \<Rightarrow> Handoff \<Rightarrow> bool"
  for cfg :: WorkerConfig and ok :: "RetryEnv \<Rightarrow> bool" where
  Send: "alive s \<Longrightarrow> wstep cfg ok s (s\<lparr>hf_sending := job # hf_sending s, hf_sent := job # hf_sent s\<rparr>)"
| Take: "alive s \<Longrightarrow> hf_listening s \<Longrightarrow> hf_stage s < ChannelClosed \<Longrightarrow> job \<in> set (hf_sending s) \<Longrightarrow> ok env \<Longrightarrow>
    retry_channel_job cfg env job (hf_state s) = Some st \<Longrightarrow>
    wstep cfg ok s (s\<lparr>hf_sending := remove1 job (hf_sending s), hf_taken := job # hf_taken s, hf_state := st\<rparr>)"
| TakePanics: "alive s \<Longrightarrow> hf_listening s \<Longrightarrow> hf_stage s < ChannelClosed \<Longrightarrow> job \<in> set (hf_sending s) \<Longrightarrow> ok env \<Longrightarrow>
    retry_channel_job cfg env job (hf_state s) = None \<Longrightarrow> wstep cfg ok s (s\<lparr>hf_panicked := True\<rparr>)"
| StopListening: "alive s \<Longrightarrow> hf_listening s \<Longrightarrow> ContextCancelled \<le> hf_stage s \<Longrightarrow>
    wstep cfg ok s (s\<lparr>hf_listening := False\<rparr>)"
| SendPanics: "alive s \<Longrightarrow> hf_stage s = ChannelClosed \<Longrightarrow> hf_sending s \<noteq> [] \<Longrightarrow> wstep cfg ok s (s\<lparr>hf_panicked := True\<rparr>)"
| Shutdown: "alive s \<Longrightarrow> next_stage (hf_stage s) = Some st \<Longrightarrow> wstep cfg ok s (s\<lparr>hf_stage := st\<rparr>)"

inductive_cases wstepE: "wstep cfg ok s s'"

subsection \<open>What a started worker holds\<close>

text \<open>
  The worker starts exactly when its configuration loads, the pools open, Redis
  answers, the key decodes and both Kafka handlers can be built; then processor and fraud detector
  hold the same 32-byte key, the slots of both consumers are the configured ones, both commit
  managers are fresh, and Redis is used without TLS or credentials but with positive timeouts.
\<close>

theorem worker_starts_iff:
  "case start_worker env of
     Inl err \<Rightarrow> we_load env = Inl err \<or>
       (\<exists>cfg. we_load env = Inr cfg \<and>
         (fst (database_New (we_pools env) (worker_db_config cfg)) = Inl err \<or>
          we_ping env (redis_options (worker_redis_config cfg)) = Some err \<or>
          DecodeString (wc_AesKey cfg) = Inl err \<or>
          NewKafkaRetryHandler (we_init env) (we_newProducer env) (we_newConsumer env) (we_hostname env) cfg = Inl err \<or>
          NewKafkaOrderConsumer (we_init env) (we_orderConsumer env) (we_orderProducer env) cfg = Inl err))
   | Inr w \<Rightarrow> (\<exists>cfg key. we_load env = Inr cfg \<and> fst (database_New (we_pools env) (worker_db_config cfg)) = Inr (wk_db w) \<and>
       we_ping env (wk_redis w) = None \<and> ro_Addr (wk_redis w) = wc_RedisAddr cfg \<and> ro_TLSConfig (wk_redis w) = None \<and>
       ro_Password (wk_redis w) = [] \<and> 0 < ro_DialTimeout (wk_redis w) \<and> 0 < ro_ReadTimeout (wk_redis w) \<and> 0 < ro_WriteTimeout (wk_redis w) \<and>
       DecodeString (wc_AesKey cfg) = Inr key \<and> length key = 32 \<and>
       pp_EncryptionKey (wk_processor w) = key \<and> fd_EncryptionKey (pp_FraudDetector (wk_processor w)) = key \<and>
       rw_retrySemaphore (wk_retry w) = wc_MaxOrdersRetryConcurrentJobs cfg \<and> rw_retryCommitManager (wk_retry w) = NewCommitManager \<and>
       ow_orderSem (wk_order w) = wc_MaxOrdersPlacedConcurrentJobs cfg \<and> ow_commitManager (wk_order w) = NewCommitManager)"
proof (cases "start_worker env")
  case (Inl err)
  then show ?thesis by (auto simp: start_worker_def redis_New_def Let_def split: sum.splits option.splits)
next
  case (Inr w)
  have len: "length k = 32" if "DecodeString v = Inr k" for v k
    using that by (auto simp: DecodeString_def split: option.splits if_splits)
  have opts: "ro_Addr (redis_options (worker_redis_config c)) = wc_RedisAddr c" "ro_TLSConfig (redis_options (worker_redis_config c)) = None"
    "ro_Password (redis_options (worker_redis_config c)) = []" "0 < ro_DialTimeout (redis_options (worker_redis_config c))"
    "0 < ro_ReadTimeout (redis_options (worker_redis_config c))" "0 < ro_WriteTimeout (redis_options (worker_redis_config c))" for c
    by (simp_all add: redis_options_def worker_redis_config_def defaultDuration_def Second_def)
  have retry: "rw_retrySemaphore r = wc_MaxOrdersRetryConcurrentJobs c" "rw_retryCommitManager r = NewCommitManager"
    if "NewKafkaRetryHandler i p n h c = Inr r" for i p n h c r
    using that by (auto simp: NewKafkaRetryHandler_def Let_def split: option.splits)
  have order: "ow_orderSem o' = wc_MaxOrdersPlacedConcurrentJobs c" "ow_commitManager o' = NewCommitManager"
    if "NewKafkaOrderConsumer i n p c = Inr o'" for i n p c o'
    using that by (auto simp: NewKafkaOrderConsumer_def split: option.splits)
  show ?thesis
    using Inr by (auto simp: start_worker_def redis_New_def Let_def opts len retry order NewFraudDetectionService_def
        split: sum.splits option.splits)
qed

subsection \<open>The handoff to the retry handler\<close>

text \<open>With a usable backoff configuration the iteration of the handler returns for every job.\<close>

definition backoff_usable :: "WorkerConfig \<Rightarrow> bool" where
  "backoff_usable cfg \<longleftrightarrow> WorkerConfig_tags cfg \<and> 4 \<le> wc_RetryBaseBackoff cfg \<and> wc_RetryBaseBackoff cfg < 2 ^ 58 \<and>
     0 \<le> wc_MaxRetryBackoff cfg"

lemma retry_channel_job_total:
  assumes "backoff_usable cfg" "int63n_ok (re_int63n env)"
  shows "\<exists>s'. retry_channel_job cfg env job s = Some s'"
proof -
  let ?n = "wrap64 (pj_RetryCount job + 1)"
  consider (over) "wc_MaxRetryCount cfg < ?n" | (neg) "?n \<le> 0" "?n \<le> wc_MaxRetryCount cfg" | (pos) "0 < ?n" "?n \<le> wc_MaxRetryCount cfg"
    by linarith
  then have "wc_MaxRetryCount cfg < ?n \<or> (?n \<le> wc_MaxRetryCount cfg \<and>
      (\<exists>d. CalculateExponentialBackoffWithJitter (re_conv env) (re_int63n env) ?n (wc_RetryBaseBackoff cfg) (wc_MaxRetryBackoff cfg) = Some d))"
  proof cases
    case neg
    then show ?thesis by (simp add: CalculateExponentialBackoffWithJitter_def)
  next
    case pos
    obtain d where "CalculateExponentialBackoffWithJitter (re_conv env) (re_int63n env) ?n (wc_RetryBaseBackoff cfg)
        (wc_MaxRetryBackoff cfg) = Some d"
      by (rule retry_delay [of cfg "re_int63n env" ?n "re_conv env"]) (use assms pos in \<open>simp_all add: backoff_usable_def\<close>)
    then show ?thesis using pos by blast
  qed simp
  then show ?thesis
  proof
    assume "wc_MaxRetryCount cfg < ?n"
    then show ?thesis by (simp add: retry_channel_job_def checkIfMaxRetryLimitExceeded_def Let_def split: prod.split)
  next
    assume "?n \<le> wc_MaxRetryCount cfg \<and>
      (\<exists>d. CalculateExponentialBackoffWithJitter (re_conv env) (re_int63n env) ?n (wc_RetryBaseBackoff cfg) (wc_MaxRetryBackoff cfg) = Some d)"
    then show ?thesis by (auto simp: retry_channel_job_def check_within Let_def split: option.split)
  qed
qed

definition random_usable :: "RetryEnv \<Rightarrow> bool" where
  "random_usable env \<longleftrightarrow> int63n_ok (re_int63n env)"

text \<open>
  The messages the handler has published, to the retry topic or to its dead letter topic, by the idempotency
  key of their job; and the answers under which every job it takes is published.
\<close>

fun outgoing_key :: "msg_event \<Rightarrow> uuid list" where
  "outgoing_key (RetryProduced topic key job) = [key]"
| "outgoing_key (DlqProduced topic key payload) = [key]"
| "outgoing_key _ = []"

definition outgoing_keys :: "msg_event list \<Rightarrow> uuid multiset" where
  "outgoing_keys tr = mset (concat (map outgoing_key tr))"

definition job_keys :: "PaymentJob list \<Rightarrow> uuid multiset" where
  "job_keys js = mset (map pj_IdempotencyKey js)"

definition publishing_works :: "RetryEnv \<Rightarrow> bool" where
  "publishing_works env \<longleftrightarrow> (\<forall>j. re_marshal env j = None) \<and> re_produce env = None \<and> dlq_available (re_msg env)"

lemma outgoing_keys_simps [simp]:
  "outgoing_keys (tr @ tr') = outgoing_keys tr + outgoing_keys tr'" "outgoing_keys [] = {#}"
  "outgoing_keys (e # tr) = mset (outgoing_key e) + outgoing_keys tr"
  by (simp_all add: outgoing_keys_def)

text \<open>The handler publishes exactly one message for a job, or none when publishing fails.\<close>

lemma sendToRetryDLQ_outgoing:
  "outgoing_keys (ms_trace (sendToRetryDLQ cfg env job r e s)) =
     outgoing_keys (ms_trace s) + (if dlq_available env \<or> ms_trace (sendToRetryDLQ cfg env job r e s) \<noteq> ms_trace s then {#pj_IdempotencyKey job#} else {#})"
  by (auto simp: sendToRetryDLQ_def dlq_available_def Let_def split: option.split)

lemma retry_channel_job_outgoing:
  assumes "retry_channel_job cfg env job s = Some s'"
  shows "outgoing_keys (ms_trace s') = outgoing_keys (ms_trace s) + {#pj_IdempotencyKey job#} \<or>
    \<not> publishing_works env \<and> outgoing_keys (ms_trace s') = outgoing_keys (ms_trace s)"
proof (cases "wrap64 (pj_RetryCount job + 1) \<le> wc_MaxRetryCount cfg")
  case True
  then show ?thesis
    using assms by (auto simp: retry_channel_job_def check_within publishing_works_def Let_def split: option.splits)
next
  case False
  then show ?thesis
    using assms by (auto simp: retry_channel_job_def checkIfMaxRetryLimitExceeded_def sendToRetryDLQ_outgoing publishing_works_def
        Let_def split: prod.splits if_splits)
qed

definition handoff_inv :: "MsgState \<Rightarrow> bool \<Rightarrow> Handoff \<Rightarrow> bool" where
  "handoff_inv st works s \<longleftrightarrow> mset (hf_sent s) = mset (hf_sending s) + mset (hf_taken s) \<and>
     outgoing_keys (ms_trace (hf_state s)) + job_keys (hf_sending s) \<subseteq># outgoing_keys (ms_trace st) + job_keys (hf_sent s) \<and>
     (works \<longrightarrow> outgoing_keys (ms_trace (hf_state s)) + job_keys (hf_sending s) = outgoing_keys (ms_trace st) + job_keys (hf_sent s)) \<and>
     (hf_stage s < ContextCancelled \<longrightarrow> hf_listening s) \<and> (hf_panicked s \<longrightarrow> hf_stage s = ChannelClosed \<and> hf_sending s \<noteq> [])"

lemma next_stage_less: "next_stage x = Some y \<Longrightarrow> x < y"
  by (cases x) (auto simp: less_stage_def)

lemma job_keys_remove1:
  "job \<in> set js \<Longrightarrow> job_keys js = job_keys (remove1 job js) + {#pj_IdempotencyKey job#}"
  unfolding job_keys_def mset_map
  by (metis add_mset_add_single image_mset_add_mset insert_DiffM mset_remove1 set_mset_mset)

lemma wstep_inv:
  assumes "wstep cfg ok s s'" "backoff_usable cfg" "\<forall>env. ok env \<longrightarrow> random_usable env"
    and "works \<longrightarrow> (\<forall>env. ok env \<longrightarrow> publishing_works env)" "handoff_inv st0 works s"
  shows "handoff_inv st0 works s'"
  using assms(1)
proof cases
  case (Send job)
  moreover have "job_keys (job # js) = add_mset (pj_IdempotencyKey job) (job_keys js)" for js by (simp add: job_keys_def)
  ultimately show ?thesis using assms(5) by (simp add: handoff_inv_def alive_def)
next
  case (Take job env st)
  have sending: "mset (hf_sending s) = mset (remove1 job (hf_sending s)) + {#job#}"
    "job_keys (hf_sending s) = job_keys (remove1 job (hf_sending s)) + {#pj_IdempotencyKey job#}"
    using Take(5) by (simp_all add: job_keys_remove1)
  let ?k = "outgoing_keys (ms_trace (hf_state s)) + job_keys (hf_sending s)"
  have k: "outgoing_keys (ms_trace st) + job_keys (remove1 job (hf_sending s)) \<subseteq># ?k"
    "works \<Longrightarrow> outgoing_keys (ms_trace st) + job_keys (remove1 job (hf_sending s)) = ?k"
    using retry_channel_job_outgoing [OF Take(7)] assms(4) Take(6) sending(2) by auto
  then show ?thesis using Take(1,2) sending(1) assms(5)
    by (auto simp: handoff_inv_def alive_def simp del: mset_remove1 intro: subset_mset.order_trans)
next
  case (TakePanics job env)
  then show ?thesis using retry_channel_job_total [OF assms(2), of env job "hf_state s"] assms(3) by (simp add: random_usable_def)
next
  case (Shutdown st)
  then have "hf_stage s < st" by (simp add: next_stage_less)
  then show ?thesis using Shutdown assms(5) by (auto simp: handoff_inv_def alive_def)
qed (use assms(5) in \<open>auto simp: handoff_inv_def alive_def\<close>)

lemma handoff_reachable:
  assumes "(wstep cfg ok)\<^sup>*\<^sup>* (handoff_start st) s" "backoff_usable cfg" "\<forall>env. ok env \<longrightarrow> random_usable env"
    and "works \<longrightarrow> (\<forall>env. ok env \<longrightarrow> publishing_works env)"
  shows "handoff_inv st works s"
  using assms(1)
proof (induction rule: rtranclp_induct)
  case base
  then show ?case by (simp add: handoff_inv_def handoff_start_def job_keys_def)
qed (use assms(2-4) wstep_inv in blast)

text \<open>
  Property C26. The handoff to the retry handler loses no job. With a usable backoff configuration and random
  source: every job put on the channel is with its sender or was taken by the handler, as often as it was
  sent, and of what was taken no job is published more than once, to the retry topic or as a dead letter;
  when encoding and producing succeed, each is published exactly once, under its idempotency key. Until the
  context is cancelled nothing panics and the handler can take the job of every waiting sender; after that
  the handler may have returned, and a panic is possible, but only once the channel is closed with a sender
  still waiting.
\<close>

theorem retry_handoff_lossless:
  assumes "(wstep cfg ok)\<^sup>*\<^sup>* (handoff_start st) s" "backoff_usable cfg" "\<forall>env. ok env \<longrightarrow> random_usable env"
  shows "mset (hf_sent s) = mset (hf_sending s) + mset (hf_taken s) \<and>
    outgoing_keys (ms_trace (hf_state s)) + job_keys (hf_sending s) \<subseteq># outgoing_keys (ms_trace st) + job_keys (hf_sent s) \<and>
    ((\<forall>env. ok env \<longrightarrow> publishing_works env) \<longrightarrow>
      outgoing_keys (ms_trace (hf_state s)) + job_keys (hf_sending s) = outgoing_keys (ms_trace st) + job_keys (hf_sent s)) \<and>
    (hf_stage s < ContextCancelled \<longrightarrow> \<not> hf_panicked s \<and>
      (\<forall>env. \<forall>job \<in> set (hf_sending s). ok env \<longrightarrow>
        (\<exists>st'. retry_channel_job cfg env job (hf_state s) = Some st' \<and> wstep cfg ok s
          (s\<lparr>hf_sending := remove1 job (hf_sending s), hf_taken := job # hf_taken s, hf_state := st'\<rparr>)))) \<and>
    (hf_panicked s \<longrightarrow> hf_stage s = ChannelClosed \<and> hf_sending s \<noteq> [])"
proof -
  have inv: "handoff_inv st (\<forall>env. ok env \<longrightarrow> publishing_works env) s" by (rule handoff_reachable [OF assms]) simp
  have serve: "\<exists>st'. retry_channel_job cfg env job (hf_state s) = Some st' \<and> wstep cfg ok s
      (s\<lparr>hf_sending := remove1 job (hf_sending s), hf_taken := job # hf_taken s, hf_state := st'\<rparr>)"
    if early: "hf_stage s < ContextCancelled" and job: "job \<in> set (hf_sending s)" and env: "ok env" for env job
  proof -
    obtain st' where st': "retry_channel_job cfg env job (hf_state s) = Some st'"
      using retry_channel_job_total [OF assms(2)] assms(3) env unfolding random_usable_def by blast
    have "alive s" "hf_listening s" "hf_stage s < ChannelClosed"
      using inv early by (auto simp: handoff_inv_def alive_def less_stage_def)
    from wstep.Take [where ok = ok, OF this job env st'] st' show ?thesis by blast
  qed
  have "hf_stage s < ContextCancelled \<longrightarrow> \<not> hf_panicked s"
    using inv by (auto simp: handoff_inv_def less_stage_def)
  then show ?thesis using inv serve unfolding handoff_inv_def by blast
qed

text \<open>A job is sent, taken and published once.\<close>

definition handoff_sent_example :: Handoff where
  "handoff_sent_example = (handoff_start msg_state_example)\<lparr>hf_sending := [job_example 2500], hf_sent := [job_example 2500]\<rparr>"

lemma handoff_sent_reachable: "(wstep worker_config_example ok)\<^sup>*\<^sup>* (handoff_start msg_state_example) handoff_sent_example"
  using wstep.Send [of "handoff_start msg_state_example" worker_config_example ok "job_example 2500"]
  by (auto simp: handoff_start_def handoff_sent_example_def alive_def)

theorem retry_handoff_lossless_witness:
  "\<exists>s. (wstep worker_config_example (\<lambda>env. env = retry_env_example))\<^sup>*\<^sup>* (handoff_start msg_state_example) s \<and>
     hf_sending s = [] \<and> hf_sent s = [job_example 2500] \<and>
     outgoing_keys (ms_trace (hf_state s)) = {#pj_IdempotencyKey (job_example 2500)#}"
proof -
  let ?ok = "\<lambda>env. env = retry_env_example"
  have u: "backoff_usable worker_config_example"
    using worker_config_example_tags(1) by (simp add: backoff_usable_def) (simp add: worker_config_example_def)
  have e: "\<forall>env. ?ok env \<longrightarrow> random_usable env" by (simp add: random_usable_def retry_env_example_def int63n_ok_def)
  have w: "\<forall>env. ?ok env \<longrightarrow> publishing_works env"
    by (simp add: publishing_works_def retry_env_example_def dlq_available_def msg_env_example_def)
  have s: "hf_stage handoff_sent_example < ContextCancelled" "hf_sending handoff_sent_example = [job_example 2500]"
    "hf_taken handoff_sent_example = []" "hf_sent handoff_sent_example = [job_example 2500]"
    by (simp_all add: handoff_sent_example_def handoff_start_def less_stage_def)
  obtain st' where "wstep worker_config_example ?ok handoff_sent_example
      (handoff_sent_example\<lparr>hf_sending := [], hf_taken := [job_example 2500], hf_state := st'\<rparr>)"
    using retry_handoff_lossless [OF handoff_sent_reachable u e] s by fastforce
  with handoff_sent_reachable have r: "(wstep worker_config_example ?ok)\<^sup>*\<^sup>* (handoff_start msg_state_example)
      (handoff_sent_example\<lparr>hf_sending := [], hf_taken := [job_example 2500], hf_state := st'\<rparr>)"
    by (rule rtranclp.rtrancl_into_rtrancl)
  have keys: "outgoing_keys (ms_trace st') = {#pj_IdempotencyKey (job_example 2500)#}"
    using retry_handoff_lossless [OF r u e] w s(4) by (simp add: job_keys_def msg_state_example_def)
  show ?thesis by (intro exI conjI, rule r) (simp_all add: keys s(4))
qed

text \<open>
  The shutdown can crash the worker. A payment that turns out to need a retry after
  the context was cancelled and the handler has returned waits on the channel, and closing the
  channel makes its send panic: for every configuration there is such a run.
\<close>

theorem shutdown_can_panic:
  "\<exists>s. (wstep cfg ok)\<^sup>*\<^sup>* (handoff_start st) s \<and> hf_panicked s \<and> hf_sending s = [job] \<and> hf_taken s = []"
proof -
  let ?R = "wstep cfg ok" and ?s0 = "handoff_start st"
  let ?c = "?s0\<lparr>hf_stage := ContextCancelled\<rparr>"
  let ?s1 = "?c\<lparr>hf_listening := False\<rparr>"
  let ?s2 = "?s1\<lparr>hf_sending := [job], hf_sent := [job]\<rparr>"
  have st: "?R x (x\<lparr>hf_stage := b\<rparr>)" if "alive x" "next_stage (hf_stage x) = Some b" for x b
    using wstep.Shutdown [OF that] .
  have a1: "?R ?s0 (?s0\<lparr>hf_stage := Signalled\<rparr>)" by (rule st) (simp_all add: handoff_start_def alive_def)
  have a2: "?R (?s0\<lparr>hf_stage := Signalled\<rparr>) ?c"
    using st [of "?s0\<lparr>hf_stage := Signalled\<rparr>" ContextCancelled] by (simp add: handoff_start_def alive_def)
  have a3: "?R ?c ?s1" by (rule wstep.StopListening) (simp_all add: handoff_start_def alive_def)
  have a4: "?R ?s1 ?s2" using wstep.Send [of ?s1 cfg ok job] by (simp add: handoff_start_def alive_def)
  have sh: "?R (?s2\<lparr>hf_stage := a\<rparr>) (?s2\<lparr>hf_stage := b\<rparr>)" if "next_stage a = Some b" "a \<noteq> Exited" for a b
    using st [of "?s2\<lparr>hf_stage := a\<rparr>" b] that by (simp add: handoff_start_def alive_def)
  have a5: "?R ?s2 (?s2\<lparr>hf_stage := OrderConsumerClosed\<rparr>)" using st [of ?s2 OrderConsumerClosed] by (simp add: handoff_start_def alive_def)
  have a6: "?R (?s2\<lparr>hf_stage := OrderConsumerClosed\<rparr>) (?s2\<lparr>hf_stage := RedisClosed\<rparr>)"
    "?R (?s2\<lparr>hf_stage := RedisClosed\<rparr>) (?s2\<lparr>hf_stage := RetryHandlerClosed\<rparr>)"
    "?R (?s2\<lparr>hf_stage := RetryHandlerClosed\<rparr>) (?s2\<lparr>hf_stage := ChannelClosed\<rparr>)"
    by (rule sh, simp, simp)+
  have a7: "?R (?s2\<lparr>hf_stage := ChannelClosed\<rparr>) (?s2\<lparr>hf_stage := ChannelClosed, hf_panicked := True\<rparr>)"
    using wstep.SendPanics [of "?s2\<lparr>hf_stage := ChannelClosed\<rparr>" cfg ok] by (simp add: handoff_start_def alive_def)
  note step = rtranclp.rtrancl_into_rtrancl [of ?R]
  have "?R\<^sup>*\<^sup>* ?s0 ?s2" by (rule step [OF step [OF step [OF step [OF rtranclp.rtrancl_refl a1] a2] a3] a4])
  from step [OF step [OF step [OF step [OF step [OF this a5] a6(1)] a6(2)] a6(3)] a7]
  have "?R\<^sup>*\<^sup>* ?s0 (?s2\<lparr>hf_stage := ChannelClosed, hf_panicked := True\<rparr>)" .
  then show ?thesis by (intro exI [of _ "?s2\<lparr>hf_stage := ChannelClosed, hf_panicked := True\<rparr>"]) (simp add: handoff_start_def)
qed

end
