(* ===== verification/Ratelimit.thy ===== *)
theory Ratelimit
  imports Errors
begin

text \<open>
  \<open>pkg/ratelimit.go\<close>: a local token bucket (\<open>golang.org/x/time/rate\<close>, third-party: whether it has
  a token is an argument) in front of a counter in Redis (whose answer to the increment is an
  argument). \<open>Allow\<close> returns its verdict and whether it touched the counter.
\<close>

definition ErrRateLimitExceeded :: go_error where
  "ErrRateLimitExceeded = ErrorString ''rate limit exceeded''"

record LocalLimiter =
  ll_Limit :: int
  ll_Burst :: int

record DistributedLimiter =
  dl_localLimiter :: "LocalLimiter option"
  dl_key :: string
  dl_ttl :: duration

definition NewDistributedLimiter :: "string \<Rightarrow> int \<Rightarrow> int \<Rightarrow> duration \<Rightarrow> DistributedLimiter" where
  "NewDistributedLimiter key globalRate burst ttl = \<lparr>
     dl_localLimiter = (if globalRate > 0 then Some \<lparr>ll_Limit = globalRate, ll_Burst = burst\<rparr> else None),
     dl_key = key, dl_ttl = ttl\<rparr>"

definition Allow :: "bool \<Rightarrow> int result \<Rightarrow> DistributedLimiter \<Rightarrow> bool \<times> (string \<times> duration) list" where
  "Allow token incr d =
     (case dl_localLimiter d of
        None \<Rightarrow> (True, [])
      | Some l \<Rightarrow>
          if \<not> token then (False, [])
          else (case incr of
              Inl err \<Rightarrow> (True, [(dl_key d, dl_ttl d)])
            | Inr count \<Rightarrow> (\<not> count > ll_Burst l, [(dl_key d, dl_ttl d)])))"

text \<open>
  A sequence of calls on a counter that starts at \<open>n\<close> and is never reset between them, with a
  local token for each.
\<close>

fun allow_run :: "DistributedLimiter \<Rightarrow> int \<Rightarrow> nat \<Rightarrow> bool list" where
  "allow_run d n 0 = []"
| "allow_run d n (Suc k) = fst (Allow True (Inr (n + 1)) d) # allow_run d (n + 1) k"

lemma allow_run_verdicts:
  "dl_localLimiter d = Some l \<Longrightarrow> allow_run d n k = map (\<lambda>i. n + int i + 1 \<le> ll_Burst l) [0 ..< k]"
proof (induction k arbitrary: n)
  case (Suc k)
  have "map (\<lambda>i. n + int i + 1 \<le> ll_Burst l) [0 ..< Suc k] =
      (n + 1 \<le> ll_Burst l) # map (\<lambda>i. n + int (Suc i) + 1 \<le> ll_Burst l) [0 ..< k]"
    unfolding upt_conv_Cons [OF zero_less_Suc] map_Suc_upt [symmetric] by simp
  then show ?case using Suc by (simp add: Allow_def not_less add.commute add.left_commute)
qed simp

text \<open>
  Within one life of the counter in Redis the limiter admits exactly the first
  \<open>burst\<close> calls, across all replicas, whatever each replica's own bucket would still admit; with
  a rate of zero it admits every call; without a local token it admits none and leaves the
  counter alone; and when Redis fails it falls back to the local verdict.
\<close>

theorem limiter_admits_burst:
  "allow_run (NewDistributedLimiter key r b ttl) 0 k =
     map (\<lambda>i. r \<le> 0 \<or> int i < b) [0 ..< k] \<and>
   Allow False c (NewDistributedLimiter key r b ttl) = (r \<le> 0, []) \<and>
   fst (Allow token (Inl err) (NewDistributedLimiter key r b ttl)) = (r \<le> 0 \<or> token)"
proof -
  have "allow_run (NewDistributedLimiter key r b ttl) n k = map (\<lambda>i. True) [0 ..< k]" if "r \<le> 0" for n
    using that by (induction k arbitrary: n) (simp_all add: NewDistributedLimiter_def Allow_def map_replicate_const)
  moreover have "allow_run (NewDistributedLimiter key r b ttl) 0 k = map (\<lambda>i. int i < b) [0 ..< k]" if "0 < r"
    using allow_run_verdicts [of "NewDistributedLimiter key r b ttl" "\<lparr>ll_Limit = r, ll_Burst = b\<rparr>" 0 k] that
    by (auto simp: NewDistributedLimiter_def)
  ultimately show ?thesis
    by (cases "0 < r") (auto simp: NewDistributedLimiter_def Allow_def)
qed

end
