(* ===== verification/Schema.thy ===== *)
theory Schema
  imports Order_Api Retry_Consumer
begin

text \<open>
  The constraints of \<open>pkg/database/migrations/0001_create_tables.up.sql\<close> as an invariant of the
  tables, and that every operation of the services keeps it. A statement that keeps it is an
  instance of the interface \<open>sql_statement\<close>; what a transaction does with such statements is
  proved once, from the interface.
\<close>

subsection \<open>Keys, references and column types\<close>

definition users_wf :: "User list \<Rightarrow> bool" where
  "users_wf us \<longleftrightarrow> distinct (map us_ID us) \<and> distinct (map us_Username us)"

definition account_key :: "Account \<Rightarrow> uuid \<times> uuid" where
  "account_key a = (ac_ID a, ac_UserID a)"

definition accounts_wf :: "uuid set \<Rightarrow> Account list \<Rightarrow> bool" where
  "accounts_wf users as \<longleftrightarrow> distinct (map account_key as) \<and>
     (\<forall>a \<in> set as. ac_UserID a \<in> users \<and> length (ac_Currency a) \<le> 3 \<and> int4_ok (ac_OrderCount a))"

definition orders_wf :: "(uuid \<times> uuid) set \<Rightarrow> Order list \<Rightarrow> bool" where
  "orders_wf accounts os \<longleftrightarrow> distinct (map or_ID os) \<and>
     (\<forall>o' \<in> set os. (or_AccountID o', or_UserID o') \<in> accounts \<and> length (or_Currency o') \<le> 3 \<and> length (or_Message o') \<le> 200)"

definition ai_wf :: "(uuid \<times> uuid) set \<Rightarrow> OrderAIModel list \<Rightarrow> bool" where
  "ai_wf accounts xs \<longleftrightarrow> distinct (map ai_ID xs) \<and>
     (\<forall>x \<in> set xs. (ai_AccountID x, ai_UserID x) \<in> accounts \<and> int4_ok (ai_TransactionVelocity x))"

definition tables_wf :: "Tables \<Rightarrow> bool" where
  "tables_wf t \<longleftrightarrow> users_wf (t_users t) \<and> accounts_wf (us_ID ` set (t_users t)) (t_accounts t) \<and>
     orders_wf (account_key ` set (t_accounts t)) (t_orders t) \<and> ai_wf (account_key ` set (t_accounts t)) (t_ai t)"

text \<open>The empty database the migrations leave.\<close>

definition no_rows :: Tables where
  "no_rows = \<lparr>t_users = [], t_accounts = [], t_orders = [], t_ai = []\<rparr>"

lemma no_rows_wf: "tables_wf no_rows"
  by (simp add: tables_wf_def no_rows_def users_wf_def accounts_wf_def orders_wf_def ai_wf_def)

lemma account_exists_key: "account_exists t i u \<longleftrightarrow> (i, u) \<in> account_key ` set (t_accounts t)"
  by (auto simp: account_exists_def account_key_def image_iff)

lemma wf_mono:
  "accounts_wf U as \<Longrightarrow> U \<subseteq> V \<Longrightarrow> accounts_wf V as"
  "orders_wf A os \<Longrightarrow> A \<subseteq> B \<Longrightarrow> orders_wf B os"
  "ai_wf A xs \<Longrightarrow> A \<subseteq> B \<Longrightarrow> ai_wf B xs"
  by (auto simp: accounts_wf_def orders_wf_def ai_wf_def)

subsection \<open>The statements\<close>

locale sql_statement =
  fixes stmt :: "Tables \<Rightarrow> (Tables \<times> int) result"
  assumes keeps_wf: "tables_wf t \<Longrightarrow> stmt t = Inr (t', n) \<Longrightarrow> tables_wf t'"
begin

lemma exec_keeps_wf:
  assumes "tables_wf (tx_view tx)"
  shows "tables_wf (tx_view (snd (tx_Exec fault stmt tx)))"
proof (cases "stmt (tx_view tx)")
  case (Inr r)
  then show ?thesis using assms keeps_wf by (cases r) (simp add: tx_Exec_def split: option.split)
qed (use assms in \<open>simp add: tx_Exec_def split: option.split\<close>)

end

interpretation order_insert: sql_statement "OrderRepo_Create g order" for g order
proof
  fix t t' n assume wf: "tables_wf t" and c: "OrderRepo_Create g order t = Inr (t', n)"
  show "tables_wf t'"
  proof (cases "g \<in> or_ID ` set (t_orders t)")
    case False
    let ?o = "order\<lparr>or_ID := g, or_Currency := ''CAD'', or_Message := []\<rparr>"
    have t': "t' = t\<lparr>t_orders := t_orders t @ [?o]\<rparr>" and fk: "account_exists t (or_AccountID order) (or_UserID order)"
      using c False by (auto simp: OrderRepo_Create_def split: if_splits)
    have "orders_wf (account_key ` set (t_accounts t)) (t_orders t @ [?o])"
      using wf False fk by (simp add: tables_wf_def orders_wf_def account_exists_key)
    then show ?thesis using wf by (simp add: tables_wf_def t')
  qed (use wf c in \<open>simp add: OrderRepo_Create_def\<close>)
qed

interpretation ai_insert: sql_statement "CreateAiDataset numeric g order" for numeric g order
proof
  fix t t' n assume wf: "tables_wf t" and c: "CreateAiDataset numeric g order t = Inr (t', n)"
  obtain d where i4: "int4_ok (ai_TransactionVelocity order)" and d: "numeric (ai_AmountDeviation order) = Some d"
    using c by (auto simp: CreateAiDataset_def split: if_splits option.splits)
  show "tables_wf t'"
  proof (cases "g \<in> ai_ID ` set (t_ai t)")
    case False
    let ?o = "order\<lparr>ai_ID := g, ai_Currency := ''CAD'', ai_AmountDeviation := d\<rparr>"
    have t': "t' = t\<lparr>t_ai := t_ai t @ [?o]\<rparr>" and fk: "account_exists t (ai_AccountID order) (ai_UserID order)"
      using c False i4 d by (auto simp: CreateAiDataset_def split: if_splits)
    have "ai_wf (account_key ` set (t_accounts t)) (t_ai t @ [?o])"
      using wf False fk i4 by (simp add: tables_wf_def ai_wf_def account_exists_key)
    then show ?thesis using wf by (simp add: tables_wf_def t')
  qed (use wf c i4 d in \<open>simp add: CreateAiDataset_def\<close>)
qed

interpretation user_insert: sql_statement "UserRepo_Create user" for user
proof
  fix t t' n assume wf: "tables_wf t" and c: "UserRepo_Create user t = Inr (t', n)"
  show "tables_wf t'"
  proof (cases "us_ID user \<in> us_ID ` set (t_users t) \<or> us_Username user \<in> us_Username ` set (t_users t)")
    case False
    then have t': "t' = t\<lparr>t_users := t_users t @ [user]\<rparr>" using c by (auto simp: UserRepo_Create_def split: if_splits)
    have "users_wf (t_users t @ [user])" using wf False by (simp add: tables_wf_def users_wf_def)
    moreover have "accounts_wf (us_ID ` set (t_users t @ [user])) (t_accounts t)"
      using wf by (auto simp: tables_wf_def intro: wf_mono(1))
    ultimately show ?thesis using wf by (simp add: tables_wf_def t')
  qed (use wf c in \<open>auto simp: UserRepo_Create_def split: if_splits\<close>)
qed

interpretation account_insert: sql_statement "AccountRepo_Create account" for account
proof
  fix t t' n assume wf: "tables_wf t" and c: "AccountRepo_Create account t = Inr (t', n)"
  show "tables_wf t'"
  proof (cases "\<exists>a \<in> set (t_accounts t). ac_ID a = ac_ID account \<and> ac_UserID a = ac_UserID account")
    case False
    let ?a = "account\<lparr>ac_OrderCount := 0, ac_AvgOrderAmount := []\<rparr>"
    have t': "t' = t\<lparr>t_accounts := t_accounts t @ [?a]\<rparr>"
      and new: "ac_UserID account \<in> us_ID ` set (t_users t)" "length (ac_Currency account) \<le> 3"
      using c False by (auto simp: AccountRepo_Create_def split: if_splits)
    have "account_key ?a \<notin> account_key ` set (t_accounts t)" using False by (auto simp: account_key_def)
    then have "accounts_wf (us_ID ` set (t_users t)) (t_accounts t @ [?a])"
      using wf new by (simp add: tables_wf_def accounts_wf_def int4_ok_def)
    moreover have "orders_wf (account_key ` set (t_accounts t @ [?a])) (t_orders t)"
      "ai_wf (account_key ` set (t_accounts t @ [?a])) (t_ai t)"
      using wf by (auto simp: tables_wf_def intro: wf_mono)
    ultimately show ?thesis using wf by (simp add: tables_wf_def t')
  qed (use wf c in \<open>auto simp: AccountRepo_Create_def split: if_splits\<close>)
qed

interpretation status_update: sql_statement "UpdateStatus now key st m" for now key st m
proof
  fix t t' n assume wf: "tables_wf t" and c: "UpdateStatus now key st m t = Inr (t', n)"
  let ?f = "\<lambda>o'. if or_IdempotencyKey o' = key then o'\<lparr>or_Status := st, or_Message := m, or_UpdatedAt := now\<rparr> else o'"
  have t': "t' = t\<lparr>t_orders := map ?f (t_orders t)\<rparr>"
    and short: "length m \<le> 200 \<or> (\<forall>o' \<in> set (t_orders t). or_IdempotencyKey o' \<noteq> key)"
    using c by (auto simp: UpdateStatus_def split: if_splits)
  have ids: "map (or_ID \<circ> ?f) (t_orders t) = map or_ID (t_orders t)" by simp
  have "orders_wf (account_key ` set (t_accounts t)) (map ?f (t_orders t))"
    using wf short unfolding tables_wf_def orders_wf_def map_map ids by auto
  then show "tables_wf t'" using wf by (simp add: tables_wf_def t')
qed

interpretation balance_update: sql_statement "UpdateBalanceCountAvgByAccountID now account" for now account
proof
  fix t t' n assume wf: "tables_wf t" and c: "UpdateBalanceCountAvgByAccountID now account t = Inr (t', n)"
  have t': "t' = t\<lparr>t_accounts := map (set_account now account) (t_accounts t)\<rparr>" and ok: "int4_ok (ac_OrderCount account)"
    using c by (auto simp: UpdateBalanceCountAvgByAccountID_def split: if_splits)
  have row: "account_key (set_account now account a) = account_key a" "ac_UserID (set_account now account a) = ac_UserID a"
    "ac_Currency (set_account now account a) = ac_Currency a" for a by (simp_all add: set_account_def account_key_def)
  have cnt: "int4_ok (ac_OrderCount a) \<Longrightarrow> int4_ok (ac_OrderCount (set_account now account a))" for a
    using ok by (simp add: set_account_def)
  have keys: "map (account_key \<circ> set_account now account) (t_accounts t) = map account_key (t_accounts t)"
    "account_key ` set (map (set_account now account) (t_accounts t)) = account_key ` set (t_accounts t)"
    by (simp_all add: row image_image)
  have "accounts_wf (us_ID ` set (t_users t)) (map (set_account now account) (t_accounts t))"
    using wf cnt unfolding tables_wf_def accounts_wf_def map_map keys by (simp add: row)
  then show "tables_wf t'" using wf keys(2) by (simp add: tables_wf_def t' del: set_map)
qed

subsection \<open>The operations of the services\<close>

lemma Begin_wf: "tables_wf t \<Longrightarrow> tables_wf (tx_view (Begin t))"
  by (simp add: Begin_def)

lemma Commit_wf: "tables_wf t \<Longrightarrow> tables_wf (tx_view tx) \<Longrightarrow> tables_wf (snd (Commit fault tx t))"
  by (simp add: Commit_def split: option.split)

text \<open>A transaction whose function only runs such statements keeps the invariant, whatever fails.\<close>

lemma WithTransaction_wf:
  assumes "tables_wf t" "\<And>tx. tables_wf (tx_view tx) \<Longrightarrow> tables_wf (tx_view (snd (fn tx)))"
  shows "tables_wf (snd (WithTransaction beginFault commitFault fn t))"
proof -
  obtain r tx where f: "fn (Begin t) = (r, tx)" by fastforce
  have "tables_wf (tx_view tx)" using assms(2) [OF Begin_wf [OF assms(1)]] by (simp add: f)
  then show ?thesis
    using assms(1) Commit_wf [of t tx commitFault]
    by (cases r) (auto simp: WithTransaction_def f split: option.split prod.split)
qed

lemma status_tx_wf: "tables_wf (tx_view tx) \<Longrightarrow> tables_wf (tx_view (status_tx env key st m tx))"
  unfolding status_tx_def by (rule status_update.exec_keeps_wf)

lemma debit_locked_wf:
  assumes "tables_wf (tx_view (st_tx s))"
  shows "tables_wf (tx_view (st_tx (snd (debit_locked env job acc avg s))))"
proof -
  obtain r tx where e: "tx_Exec (pe_update_fault env) (UpdateBalanceCountAvgByAccountID (pe_now env) acc) (st_tx s) = (r, tx)" by fastforce
  have "tables_wf (tx_view tx)"
    using balance_update.exec_keeps_wf [OF assms, of "pe_update_fault env" "pe_now env" acc] by (simp add: e)
  then show ?thesis by (cases r) (simp_all add: debit_locked_def e status_tx_wf)
qed

lemma carry_out_wf:
  "tables_wf (tx_view (st_tx s)) \<Longrightarrow> tables_wf (tx_view (st_tx (snd (carry_out env job d s))))"
  by (cases d) (simp_all add: status_tx_wf debit_locked_wf)

lemma ProcessPayment_wf:
  assumes "tables_wf t"
  shows "tables_wf (fst (snd (ProcessPayment p env job t)))"
proof (cases env rule: lock_cases)
  case err
  then show ?thesis using assms by (simp add: ProcessPayment_lock_error)
next
  case beg
  then show ?thesis using assms by (simp add: ProcessPayment_begin_error)
next
  case unl
  show ?thesis
    using assms by (simp add: ProcessPayment_unlocked [OF unl] process_unlocked_def Commit_wf status_tx_wf Begin_wf)
next
  case lck
  obtain s1 where "st_tx s1 = Begin t" "process_locked p env job (pay_start env job t) = carry_out env job (decide p env job) s1"
    using process_locked_decide [of "pay_start env job t" p env job] by auto
  then show ?thesis
    using assms by (simp add: ProcessPayment_locked [OF lck] Commit_wf carry_out_wf Begin_wf)
qed

lemma CreateOrder_wf:
  assumes "tables_wf t"
  shows "tables_wf (fst (snd (CreateOrder cfg aesKey env userId req t)))"
proof (rule CreateOrder_cases [of cfg aesKey env userId req t])
  fix enc t' n
  assume "OrderRepo_Create (oe_gen_id env) ((new_order env userId req)\<lparr>or_Amount := enc\<rparr>) t = Inr (t', n)"
    and r: "CreateOrder cfg aesKey env userId req t =
        (Inr (oe_uuid_string env (oe_new_id env)), t', snd (PublishOrder cfg env (published_job env userId req enc)))"
  then have "tables_wf t'" using order_insert.keeps_wf assms by blast
  then show ?thesis by (simp add: r)
qed (use assms in simp)

lemma processMessage_wf:
  assumes "tables_wf (ms_tables s)"
  shows "tables_wf (ms_tables (processMessage cfg (ProcessPayment p penv) env msg s))"
proof -
  obtain job derr where u: "me_unmarshal env (msg_Value msg) = (job, derr)" by fastforce
  obtain err t evs where r: "ProcessPayment p penv job (ms_tables s) = (err, t, evs)" using prod_cases3 by blast
  have "tables_wf t" using ProcessPayment_wf [OF assms, of p penv job] by (simp add: r)
  then show ?thesis
    using assms by (simp add: processMessage_def Let_def u r split: option.split)
qed

lemma UpdateStatusByIdempotencyID_wf:
  assumes "tables_wf t"
  shows "tables_wf (snd (UpdateStatusByIdempotencyID fault now key st m t))"
  using assms status_update.keeps_wf [of t now key st m]
  by (auto simp: UpdateStatusByIdempotencyID_def split: option.split sum.split)

lemma checkIfMaxRetryLimitExceeded_wf:
  assumes "tables_wf (ms_tables s)"
  shows "tables_wf (ms_tables (snd (checkIfMaxRetryLimitExceeded cfg env job msg s)))"
  using assms UpdateStatusByIdempotencyID_wf [OF assms]
  by (auto simp: checkIfMaxRetryLimitExceeded_def Let_def split: prod.split option.split) (metis snd_conv)+

lemma retry_channel_job_wf:
  assumes "tables_wf (ms_tables s)" "retry_channel_job cfg env job s = Some s'"
  shows "tables_wf (ms_tables s')"
proof -
  let ?j = "job\<lparr>pj_RetryCount := wrap64 (pj_RetryCount job + 1)\<rparr>"
  obtain e s1 where c: "checkIfMaxRetryLimitExceeded cfg env ?j None s = (e, s1)" by fastforce
  have "tables_wf (ms_tables s1)" using checkIfMaxRetryLimitExceeded_wf [OF assms(1), of cfg env ?j None] by (simp add: c)
  then show ?thesis using assms(2) by (auto simp: retry_channel_job_def Let_def c split: option.splits)
qed

lemma processRetryMessage_wf:
  assumes "tables_wf (ms_tables s)"
  shows "tables_wf (ms_tables (processRetryMessage cfg (ProcessPayment p penv) env msg s))"
proof -
  obtain job derr where u: "me_unmarshal (re_msg env) (msg_Value msg) = (job, derr)" by fastforce
  obtain e s1 where c: "checkIfMaxRetryLimitExceeded cfg env job (Some msg) s = (e, s1)" by fastforce
  have s1: "tables_wf (ms_tables s1)" using checkIfMaxRetryLimitExceeded_wf [OF assms, of cfg env job "Some msg"] by (simp add: c)
  obtain err t evs where r: "ProcessPayment p penv job (ms_tables s1) = (err, t, evs)" using prod_cases3 by blast
  have "tables_wf t" using ProcessPayment_wf [OF s1, of p penv job] by (simp add: r)
  then show ?thesis
    using assms s1 by (simp add: processRetryMessage_def Let_def u c r split: option.split)
qed

text \<open>
  The operations by which the two services write to the database: an order placed with the API,
  a message of the order topic handled, a job taken from the retry channel, and a message of the
  retry topic handled. Each carries the answers of the outside it meets; the commit manager and
  the trace of the handler are arguments.
\<close>

datatype service_op =
    PlaceOrder OrderApiConfig "byte list" OrderEnv uuid OrderRequest
  | HandleOrder WorkerConfig PaymentProcessor PayEnv MsgEnv Message CommitManager "msg_event list"
  | TakeRetry WorkerConfig RetryEnv PaymentJob CommitManager "msg_event list"
  | HandleRetry WorkerConfig PaymentProcessor PayEnv RetryEnv Message CommitManager "msg_event list"

fun run_op :: "service_op \<Rightarrow> Tables \<Rightarrow> Tables" where
  "run_op (PlaceOrder cfg key env user req) t = fst (snd (CreateOrder cfg key env user req t))"
| "run_op (HandleOrder cfg p penv env msg cm tr) t =
     ms_tables (processMessage cfg (ProcessPayment p penv) env msg \<lparr>ms_cm = cm, ms_tables = t, ms_trace = tr\<rparr>)"
| "run_op (TakeRetry cfg env job cm tr) t =
     (case retry_channel_job cfg env job \<lparr>ms_cm = cm, ms_tables = t, ms_trace = tr\<rparr> of None \<Rightarrow> t | Some s \<Rightarrow> ms_tables s)"
| "run_op (HandleRetry cfg p penv env msg cm tr) t =
     ms_tables (processRetryMessage cfg (ProcessPayment p penv) env msg \<lparr>ms_cm = cm, ms_tables = t, ms_trace = tr\<rparr>)"

lemma run_op_wf: "tables_wf t \<Longrightarrow> tables_wf (run_op op t)"
  by (cases op) (auto simp: CreateOrder_wf processMessage_wf processRetryMessage_wf split: option.split elim!: retry_channel_job_wf [rotated])

text \<open>
  The schema's constraints hold in every state of the database: starting from tables
  that satisfy them, any sequence of operations of the two services, with whatever faults of the
  database, Redis, Kafka and the fraud service, leaves tables with unique keys, no dangling
  reference of an account to a user or of an order to an account of the same user, and columns
  within their types.
\<close>

theorem schema_invariant:
  assumes "tables_wf t"
  shows "tables_wf (fold run_op ops t)"
  using assms by (induction ops arbitrary: t) (simp_all add: run_op_wf)

definition wf_tables_example :: Tables where
  "wf_tables_example = (tables_example 10000)\<lparr>t_users := [\<lparr>us_ID = 8, us_Username = ''user_1'', us_CreatedAt = 0, us_UpdatedAt = 0\<rparr>]\<rparr>"

lemma wf_tables_example_wf: "tables_wf wf_tables_example"
  by (simp add: wf_tables_example_def tables_wf_def users_wf_def accounts_wf_def orders_wf_def ai_wf_def tables_example_def
      account_example_def order_example_def account_key_def Account_zero_def int4_ok_def)

theorem schema_invariant_witness:
  "tables_wf (fold run_op [PlaceOrder order_config_example key_example (order_env_example wf_tables_example) 8 (request_example 2500),
     HandleOrder worker_config_example processor_example (env_example wf_tables_example) msg_env_example message_example NewCommitManager []]
     wf_tables_example)"
  by (rule schema_invariant [OF wf_tables_example_wf])

subsection \<open>The services never run into the schema\<close>

text \<open>
  The invariant above is kept by the server, which refuses what breaks it; and a transaction with a refused
  statement is rolled back at its commit. What follows is the services' part: the texts they write fit
  \<open>varchar(200)\<close>, and the one value that may not fit, the order count, is refused by the driver before it
  reaches the server. Decimal texts of 64-bit integers have at most twenty characters.
\<close>

lemma show_int64_length: "int64_ok i \<Longrightarrow> length (show_int i) \<le> 20"
proof -
  assume "int64_ok i"
  then have "nat \<bar>i\<bar> < 10 ^ 19" by (auto simp: int64_ok_def nat_less_iff)
  then have "length (show_nat (nat \<bar>i\<bar>)) \<le> 19" by (rule show_nat_length) simp
  then show ?thesis by (cases "i < 0") (simp_all add: show_int_def)
qed

lemma exhausted_text_fits:
  assumes "wc_MaxRetryCount cfg < pj_RetryCount job" "int64_ok (pj_RetryCount job)" "re_status_fault env = None"
  shows "ms_tables (snd (checkIfMaxRetryLimitExceeded cfg env job msg s)) =
    set_status (me_now (re_msg env)) (pj_IdempotencyKey job) OrderStatusFailed
      (''failed transaction after '' @ show_int (pj_RetryCount job) @ '' retries'') (ms_tables s)"
proof -
  let ?m = "''failed transaction after '' @ show_int (pj_RetryCount job) @ '' retries''"
  have "length ?m \<le> 200" using show_int64_length [OF assms(2)] by simp
  then obtain n where "UpdateStatus (me_now (re_msg env)) (pj_IdempotencyKey job) OrderStatusFailed ?m (ms_tables s) =
      Inr (set_status (me_now (re_msg env)) (pj_IdempotencyKey job) OrderStatusFailed ?m (ms_tables s), n)"
    using UpdateStatus_short by blast
  then show ?thesis
    using assms(1,3) by (simp add: checkIfMaxRetryLimitExceeded_def UpdateStatusByIdempotencyID_def Let_def split: option.split)
qed

text \<open>What becomes of a decision when the order count has reached the end of its column.\<close>

definition storable :: "decision \<Rightarrow> decision" where
  "storable d = (if count_fits d then d else Reject ErrInt4 ''Balance update failed'')"

lemma process_locked_storable:
  assumes "pe_status_fault env = None" "pe_update_fault env = None"
  shows "fst (process_locked p env job (pay_start env job t)) = decision_error (storable (decide p env job)) \<and>
    st_tx (snd (process_locked p env job (pay_start env job t))) =
      \<lparr>tx_view = settle (pe_now env) (pj_IdempotencyKey job) (storable (decide p env job)) t, tx_aborted = False\<rparr>"
proof (cases "count_fits (decide p env job)")
  case True
  then show ?thesis using process_locked_tx [OF assms True, of t] by (simp add: storable_def)
next
  case False
  obtain s1 where s1: "st_tx s1 = Begin t"
    and eq: "process_locked p env job (pay_start env job t) = carry_out env job (decide p env job) s1"
    using process_locked_decide [of "pay_start env job t" p env job] by auto
  obtain acc avg where d: "decide p env job = Debit acc avg" and i4: "\<not> int4_ok (ac_OrderCount acc)"
    using False by (auto simp: count_fits_def split: decision.splits)
  have na: "\<not> tx_aborted (Begin t)" by (simp add: Begin_def)
  have pg: "as_pg_error ErrInt4 = None" by (simp add: ErrInt4_def)
  have ex: "tx_Exec None (UpdateBalanceCountAvgByAccountID (pe_now env) acc) (Begin t) = (Inl ErrInt4, Begin t)"
    using i4 pg by (simp add: tx_Exec_def UpdateBalanceCountAvgByAccountID_def Begin_def)
  show ?thesis
    using status_tx_view(1) [OF _ na assms(1), of "''Balance update failed''" "pj_IdempotencyKey job" OrderStatusFailed]
    by (simp add: eq d debit_locked_def s1 assms(2) ex storable_def count_fits_def i4) (simp add: Begin_def)
qed

text \<open>
  Property C23. The workers' statements fit the schema. A payment whose statements reach the database is never
  rolled back by it: its commit answers what the server answers to the commit itself, for every job, account
  and verdict. If the commit succeeds under the lock, the tables are those of the decision, with one
  exception: an account whose order count has reached the last value of its column is not debited, the order
  fails with the driver's range error, and that failure is recorded. The text with which the retry handler
  gives a job up fits its column for every retry count.
\<close>

theorem statements_fit_schema:
  assumes "pe_setnx env = Inr locked" "pe_begin env = None" "pe_status_fault env = None" "pe_update_fault env = None"
    and "ProcessPayment p env job t = (err, t', ev)"
    and "wc_MaxRetryCount cfg < pj_RetryCount job2" "int64_ok (pj_RetryCount job2)" "re_status_fault renv = None"
  shows "last ev = TxCommit (pe_commit env) \<and>
    (if pe_commit env \<noteq> None then t' = t
     else if \<not> locked then t' = set_status (pe_now env) (pj_IdempotencyKey job) OrderStatusRetrying ''Account locked by another process'' t
     else err = decision_error (storable (decide p env job)) \<and>
       t' = settle (pe_now env) (pj_IdempotencyKey job) (storable (decide p env job)) t) \<and>
    ms_tables (snd (checkIfMaxRetryLimitExceeded cfg renv job2 msg s)) =
      set_status (me_now (re_msg renv)) (pj_IdempotencyKey job2) OrderStatusFailed
        (''failed transaction after '' @ show_int (pj_RetryCount job2) @ '' retries'') (ms_tables s)"
proof (cases locked)
  case True
  then show ?thesis
    using assms(5) process_locked_storable [OF assms(3,4), of p job t] exhausted_text_fits [OF assms(6-8)] assms(1,2)
    by (auto simp: ProcessPayment_locked Commit_def split: option.split)
next
  case False
  have na: "\<not> tx_aborted (Begin t)" by (simp add: Begin_def)
  have "status_tx env (pj_IdempotencyKey job) OrderStatusRetrying ''Account locked by another process'' (Begin t) =
      \<lparr>tx_view = set_status (pe_now env) (pj_IdempotencyKey job) OrderStatusRetrying ''Account locked by another process'' t, tx_aborted = False\<rparr>"
    using status_tx_view(1) [OF _ na assms(3)] by (simp add: Begin_def)
  then show ?thesis
    using False assms(5) exhausted_text_fits [OF assms(6-8)] assms(1,2)
    by (auto simp: ProcessPayment_unlocked process_unlocked_def Commit_def split: option.split)
qed

theorem statements_fit_schema_witness:
  "last (snd (snd (ProcessPayment processor_example (env_example (tables_example 10000)) (job_example 2500) (tables_example 10000)))) = TxCommit None \<and>
   ms_tables (snd (checkIfMaxRetryLimitExceeded worker_config_example retry_env_example ((job_example 2500)\<lparr>pj_RetryCount := 9\<rparr>) None msg_state_example)) =
     set_status 0 (pj_IdempotencyKey (job_example 2500)) OrderStatusFailed ''failed transaction after 9 retries'' (ms_tables msg_state_example)"
proof -
  let ?t = "tables_example 10000"
  obtain err t' ev where r: "ProcessPayment processor_example (env_example ?t) (job_example 2500) ?t = (err, t', ev)"
    using prod_cases3 by blast
  have n: "show_int 9 = ''9''" by code_simp
  have e: "pe_setnx (env_example ?t) = Inr True" "pe_begin (env_example ?t) = None" "pe_status_fault (env_example ?t) = None"
    "pe_update_fault (env_example ?t) = None" "pe_commit (env_example ?t) = None" "wc_MaxRetryCount worker_config_example < 9"
    "int64_ok 9" "re_status_fault retry_env_example = None" "me_now (re_msg retry_env_example) = 0"
    by (simp_all add: env_example_def worker_config_example_def int64_ok_def retry_env_example_def msg_env_example_def)
  show ?thesis
    using statements_fit_schema [OF e(1-4) r, where cfg = worker_config_example and renv = retry_env_example and
        ?job2.0 = "(job_example 2500)\<lparr>pj_RetryCount := 9\<rparr>" and msg = None and s = msg_state_example]
    by (simp add: r e n)
qed

end
