(* ===== verification/Paging.thy ===== *)
theory Paging
  imports Repositories
begin

text \<open>
  Reading a table page by page, as both seeders do: \<open>LIMIT size OFFSET (page - 1) * size\<close> for
  page 1, 2, ... until a page is empty, for a given order of the rows. The interface \<open>paged_query\<close> is what such a loop relies on;
  the queries of the repositories are its instances.
\<close>

locale paged_query =
  fixes query :: "int \<Rightarrow> int \<Rightarrow> Tables \<Rightarrow> 'r list result"
    and rows :: "Tables \<Rightarrow> 'r list"
  assumes page: "1 \<le> p \<Longrightarrow> p < 2 ^ 63 \<Longrightarrow> 0 \<le> sz \<Longrightarrow> (p - 1) * sz < 2 ^ 63 \<Longrightarrow>
      query p sz t = Inr (take (nat sz) (drop (nat ((p - 1) * sz)) (rows t)))"
begin

text \<open>What is left to read before page \<open>p\<close>: the page itself and what is left before the next one.\<close>

lemma page_split:
  assumes "1 \<le> p" "p < 2 ^ 63" "0 \<le> sz" "(p - 1) * sz < 2 ^ 63" "query p sz t = Inr r"
  shows "drop (nat ((p - 1) * sz)) (rows t) = r @ drop (nat (p * sz)) (rows t)"
proof -
  have "p * sz = (p - 1) * sz + sz" by (simp add: algebra_simps)
  then have "nat (p * sz) = nat sz + nat ((p - 1) * sz)"
    using assms(1,3) by (simp add: nat_add_distrib)
  then have "drop (nat (p * sz)) (rows t) = drop (nat sz) (drop (nat ((p - 1) * sz)) (rows t))"
    by simp
  moreover have "r = take (nat sz) (drop (nat ((p - 1) * sz)) (rows t))"
    using page [OF assms(1-4), of t] assms(5) by simp
  ultimately show ?thesis by (metis append_take_drop_id)
qed

text \<open>With a positive size a page is empty exactly when nothing is left.\<close>

lemma page_empty_iff:
  assumes "1 \<le> p" "p < 2 ^ 63" "0 < sz" "(p - 1) * sz < 2 ^ 63" "query p sz t = Inr r"
  shows "r = [] \<longleftrightarrow> drop (nat ((p - 1) * sz)) (rows t) = []"
  using page [OF assms(1,2) less_imp_le [OF assms(3)] assms(4), of t] assms(3,5) by auto

lemma page_bound:
  assumes "1 \<le> p" "p < 2 ^ 63" "0 < sz" "(p - 1) * sz < 2 ^ 63" "query p sz t = Inr r" "r \<noteq> []"
  shows "(p - 1) * sz < int (length (rows t))"
  using page_empty_iff [OF assms(1-5)] assms(1,3,6) by (simp add: not_le zless_nat_eq_int_zless nat_less_iff)

end

lemma offset_in_range:
  assumes "1 \<le> p" "p < 2 ^ 63" "0 \<le> sz" "(p - 1) * sz < 2 ^ 63"
  shows "wrap64 (wrap64 (p - 1) * sz) = (p - 1) * sz" "\<not> (p - 1) * sz < 0"
proof -
  have "int64_ok (p - 1)" using assms(1,2) by (simp add: int64_ok_def)
  moreover have nonneg: "0 \<le> (p - 1) * sz" using assms(1,3) by simp
  moreover have "int64_ok ((p - 1) * sz)" using nonneg assms(4) by (simp add: int64_ok_def)
  ultimately show "\<not> (p - 1) * sz < 0" "wrap64 (wrap64 (p - 1) * sz) = (p - 1) * sz" by simp_all
qed

interpretation ai_pages: paged_query "GetAllAiDataset ord None None" "\<lambda>t. ord (t_ai t)" for ord
  by unfold_locales (simp add: GetAllAiDataset_def page_rows_def offset_in_range Let_def)

interpretation user_pages: paged_query "FindUsers ord None" "\<lambda>t. ord (t_users t)" for ord
  by unfold_locales (simp add: FindUsers_def page_rows_def offset_in_range Let_def)

end
