(* ===== verification/User_Seeder.thy ===== *)
theory User_Seeder
  imports Schema Order_App Paging
begin

text \<open>
  \<open>services/user-api/cmd/seed/user_account_seeder.go\<close>: the program that fills the database with
  users, accounts and, on request, a labelled dataset for the fraud model, and exports that
  dataset page by page.

  What the program draws from outside it draws at a point of its loops (\<open>seed_point\<close>), and each
  point is passed once: a random number, a new UUID, a nonce, the clock and the fault of a statement
  are functions of the point, the second and third draw of the same kind being told apart by a
  number. \<open>rand.Intn\<close> is any number reduced to its range, and panics without a range. Floating
  point operations round one by one, as on a processor for which the compiler fuses none of them.
\<close>

subsection \<open>Seeding\<close>

record SeedFlags =
  sf_noOfUsers :: int
  sf_maxAccounts :: int
  sf_minBalance :: float64
  sf_maxBalance :: float64
  sf_fraudRate :: float64
  sf_exportAiData :: bool

datatype seed_point = AtUser int | AtAccount int int | AtOrder int int int

record SeedEnv =
  se_uuid :: "seed_point \<Rightarrow> uuid"
  se_float :: "seed_point \<Rightarrow> nat \<Rightarrow> float64"
  se_intn :: "seed_point \<Rightarrow> nat \<Rightarrow> int"
  se_nonce :: "seed_point \<Rightarrow> byte list result"
  se_created :: "seed_point \<Rightarrow> time"
  se_updated :: "seed_point \<Rightarrow> time"
  se_fault :: "seed_point \<Rightarrow> go_error option"
  se_gen_id :: "seed_point \<Rightarrow> uuid"
  se_numeric :: "float64 \<Rightarrow> float64 option"

record userHistory =
  uh_orderCount :: int
  uh_totalAmount :: float64
  uh_avgAmount :: float64

record SeedState =
  sd_tx :: Tx
  sd_hist :: "uuid \<Rightarrow> userHistory option"

definition rand_Intn :: "int \<Rightarrow> int \<Rightarrow> int option" where
  "rand_Intn n draw = (if n \<le> 0 then None else Some (draw mod n))"

text \<open>\<open>math.Round\<close>: to the nearest integer, halves away from zero, the sign kept.\<close>

fun f64_Round :: "float64 \<Rightarrow> float64" where
  "f64_Round (Fin s m) = Fin s (of_int \<lfloor>m + 1 / 2\<rfloor>)"
| "f64_Round x = x"

definition roundFloatToTwo :: "float64 \<Rightarrow> float64" where
  "roundFloatToTwo val = f64_div (f64_Round (f64_mul val (f64_of_int 100))) (f64_of_int 100)"

text \<open>A loop whose body may return from the enclosing function or panic.\<close>

fun for_each :: "('a \<Rightarrow> 's \<Rightarrow> fn_outcome \<times> 's) \<Rightarrow> 'a list \<Rightarrow> 's \<Rightarrow> fn_outcome \<times> 's" where
  "for_each body [] s = (Returned None, s)"
| "for_each body (x # xs) s =
     (case body x s of
        (Returned None, s') \<Rightarrow> for_each body xs s'
      | (out, s') \<Rightarrow> (out, s'))"

definition order_fraud :: "SeedFlags \<Rightarrow> SeedEnv \<Rightarrow> seed_point \<Rightarrow> bool" where
  "order_fraud flags env pt = f64_lt (se_float env pt 0) (sf_fraudRate flags)"

definition order_amount :: "SeedFlags \<Rightarrow> SeedEnv \<Rightarrow> seed_point \<Rightarrow> float64" where
  "order_amount flags env pt =
     (if order_fraud flags env pt then f64_add (f64_of_int 1000) (f64_mul (se_float env pt 2) (f64_of_int 4000))
      else f64_add (f64_of_int 50) (f64_mul (se_float env pt 1) (f64_of_int 150)))"

definition order_velocity :: "SeedFlags \<Rightarrow> SeedEnv \<Rightarrow> seed_point \<Rightarrow> int" where
  "order_velocity flags env pt =
     1 + the (rand_Intn 5 (se_intn env pt 0)) +
     (if order_fraud flags env pt then the (rand_Intn 6 (se_intn env pt 1)) else 0)"

definition order_deviation :: "float64 \<Rightarrow> userHistory \<Rightarrow> float64" where
  "order_deviation amt hist =
     (if 1 < uh_orderCount hist then f64_div (f64_abs (f64_sub amt (uh_avgAmount hist))) (uh_avgAmount hist)
      else f64_zero)"

definition seed_order_row :: "SeedFlags \<Rightarrow> SeedEnv \<Rightarrow> seed_point \<Rightarrow> uuid \<Rightarrow> uuid \<Rightarrow> userHistory \<Rightarrow> OrderAIModel" where
  "seed_order_row flags env pt userID accID hist =
     \<lparr>ai_ID = uuid_Nil, ai_UserID = userID, ai_AccountID = accID, ai_IdempotencyKey = se_uuid env pt,
      ai_Amount = roundFloatToTwo (order_amount flags env pt), ai_Currency = ''CAD'', ai_IsFraud = order_fraud flags env pt,
      ai_TransactionVelocity = order_velocity flags env pt,
      ai_AmountDeviation = order_deviation (order_amount flags env pt) hist,
      ai_CreatedAt = se_created env pt, ai_UpdatedAt = se_updated env pt\<rparr>"

definition history_after :: "float64 \<Rightarrow> userHistory \<Rightarrow> userHistory" where
  "history_after amt hist =
     (let total = f64_add (uh_totalAmount hist) amt
      in hist\<lparr>uh_totalAmount := total, uh_avgAmount := f64_div total (f64_of_int (uh_orderCount hist))\<rparr>)"

definition seed_order :: "SeedFlags \<Rightarrow> SeedEnv \<Rightarrow> int \<Rightarrow> int \<Rightarrow> uuid \<Rightarrow> uuid \<Rightarrow> int \<Rightarrow> SeedState \<Rightarrow> fn_outcome \<times> SeedState" where
  "seed_order flags env i j userID accID k s =
     (let pt = AtOrder i j k
      in case sd_hist s userID of
           None \<Rightarrow> (Panicked ''invalid memory address or nil pointer dereference'', s)
         | Some hist0 \<Rightarrow>
             (let hist = hist0\<lparr>uh_orderCount := wrap64 (uh_orderCount hist0 + 1)\<rparr>
              in case tx_Exec (se_fault env pt)
                   (CreateAiDataset (se_numeric env) (se_gen_id env pt) (seed_order_row flags env pt userID accID hist)) (sd_tx s) of
                   (Inl err, tx) \<Rightarrow> (Returned (Some err), s\<lparr>sd_tx := tx, sd_hist := (sd_hist s)(userID \<mapsto> hist)\<rparr>)
                 | (Inr n, tx) \<Rightarrow>
                     (Returned None, s\<lparr>sd_tx := tx, sd_hist := (sd_hist s)(userID \<mapsto> history_after (order_amount flags env pt) hist)\<rparr>)))"

definition seed_balance :: "SeedFlags \<Rightarrow> SeedEnv \<Rightarrow> seed_point \<Rightarrow> float64" where
  "seed_balance flags env pt =
     f64_add (sf_minBalance flags) (f64_mul (se_float env pt 0) (f64_sub (sf_maxBalance flags) (sf_minBalance flags)))"

definition seed_account_row :: "SeedEnv \<Rightarrow> seed_point \<Rightarrow> uuid \<Rightarrow> string \<Rightarrow> Account" where
  "seed_account_row env pt userID balEnc =
     Account_zero\<lparr>ac_ID := se_uuid env pt, ac_UserID := userID, ac_Balance := balEnc, ac_Currency := ''CAD'',
       ac_CreatedAt := se_created env pt, ac_UpdatedAt := se_updated env pt\<rparr>"

definition seed_orders :: "SeedFlags \<Rightarrow> SeedEnv \<Rightarrow> int \<Rightarrow> int \<Rightarrow> uuid \<Rightarrow> SeedState \<Rightarrow> fn_outcome \<times> SeedState" where
  "seed_orders flags env i j userID s =
     (if \<not> sf_exportAiData flags then (Returned None, s)
      else case rand_Intn 10 (se_intn env (AtAccount i j) 0) of
        None \<Rightarrow> (Panicked ''invalid argument to Intn'', s)
      | Some r \<Rightarrow> for_each (seed_order flags env i j userID (se_uuid env (AtAccount i j))) [0..r] s)"

definition seed_account :: "SeedFlags \<Rightarrow> byte list \<Rightarrow> SeedEnv \<Rightarrow> int \<Rightarrow> uuid \<Rightarrow> int \<Rightarrow> SeedState \<Rightarrow> fn_outcome \<times> SeedState" where
  "seed_account flags key env i userID j s =
     (let pt = AtAccount i j
      in case EncryptAES (se_nonce env pt) (Float64ToByte (seed_balance flags env pt)) key of
           Inl err \<Rightarrow> (Returned (Some err), s)
         | Inr balEnc \<Rightarrow>
             (case tx_Exec (se_fault env pt) (AccountRepo_Create (seed_account_row env pt userID balEnc)) (sd_tx s) of
                (Inl err, tx) \<Rightarrow> (Returned (Some err), s\<lparr>sd_tx := tx\<rparr>)
              | (Inr n, tx) \<Rightarrow> seed_orders flags env i j userID (s\<lparr>sd_tx := tx\<rparr>)))"

definition seed_username :: "int \<Rightarrow> string" where
  "seed_username i = ''user_'' @ show_int i"

definition seed_user_row :: "SeedEnv \<Rightarrow> int \<Rightarrow> User" where
  "seed_user_row env i = \<lparr>us_ID = se_uuid env (AtUser i), us_Username = seed_username i,
     us_CreatedAt = se_created env (AtUser i), us_UpdatedAt = se_updated env (AtUser i)\<rparr>"

definition seed_user :: "SeedFlags \<Rightarrow> byte list \<Rightarrow> SeedEnv \<Rightarrow> int \<Rightarrow> SeedState \<Rightarrow> fn_outcome \<times> SeedState" where
  "seed_user flags key env i s =
     (let userID = se_uuid env (AtUser i)
      in case tx_Exec (se_fault env (AtUser i)) (UserRepo_Create (seed_user_row env i)) (sd_tx s) of
           (Inl err, tx) \<Rightarrow> (Returned (Some err), s\<lparr>sd_tx := tx\<rparr>)
         | (Inr n, tx) \<Rightarrow>
             (let s' = s\<lparr>sd_tx := tx, sd_hist := (sd_hist s)(userID \<mapsto> \<lparr>uh_orderCount = 0, uh_totalAmount = f64_zero, uh_avgAmount = f64_zero\<rparr>)\<rparr>
              in case rand_Intn (sf_maxAccounts flags) (se_intn env (AtUser i) 0) of
                   None \<Rightarrow> (Panicked ''invalid argument to Intn'', s')
                 | Some r \<Rightarrow> for_each (seed_account flags key env i userID) [1..wrap64 (r + 1)] s'))"

definition seed_users :: "SeedFlags \<Rightarrow> byte list \<Rightarrow> SeedEnv \<Rightarrow> Tx \<Rightarrow> fn_outcome \<times> Tx" where
  "seed_users flags key env tx =
     (case for_each (seed_user flags key env) [1..sf_noOfUsers flags] \<lparr>sd_tx = tx, sd_hist = Map.empty\<rparr> of
        (out, s) \<Rightarrow> (out, sd_tx s))"

definition seed_data :: "SeedFlags \<Rightarrow> byte list \<Rightarrow> SeedEnv \<Rightarrow> go_error option \<Rightarrow> go_error option \<Rightarrow> Tables \<Rightarrow> fn_outcome \<times> Tables" where
  "seed_data flags key env beginFault commitFault t =
     WithTransaction beginFault commitFault (seed_users flags key env) t"

subsection \<open>The loop and the statements in it\<close>

lemma for_each_keeps:
  assumes "\<And>x s. P s \<Longrightarrow> P (snd (body x s))" and "P s"
  shows "P (snd (for_each body xs s))"
  using assms(2)
proof (induction xs arbitrary: s)
  case (Cons x xs)
  obtain r s1 where b: "body x s = (r, s1)" by fastforce
  with assms(1) [OF Cons.prems, of x] have "P s1" by simp
  with Cons.IH show ?case by (simp add: b split: fn_outcome.split option.split)
qed simp

lemma for_each_Cons_ok:
  "for_each body (x # xs) s = (Returned None, s') \<longleftrightarrow>
   (\<exists>s1. body x s = (Returned None, s1) \<and> for_each body xs s1 = (Returned None, s'))"
  by (auto split: prod.splits fn_outcome.splits option.splits)

lemma tx_Exec_InrD:
  assumes "tx_Exec fault stmt tx = (Inr n, tx')"
  obtains t' where "stmt (tx_view tx) = Inr (t', n)" "tx' = tx\<lparr>tx_view := t'\<rparr>" "\<not> tx_aborted tx" "fault = None"
  using assms by (auto simp: tx_Exec_def split: if_splits option.splits sum.splits)

text \<open>What every statement of the seeder keeps of the view of the transaction is kept by the whole run.\<close>

lemma tx_Exec_keeps:
  assumes "P (tx_view tx)" "\<And>t' n. stmt (tx_view tx) = Inr (t', n) \<Longrightarrow> P t'"
  shows "P (tx_view (snd (tx_Exec fault stmt tx)))"
  using assms by (auto simp: tx_Exec_def split: option.split sum.split)

text \<open>
  What the statements of a run keep, the run keeps: \<open>account_seeding\<close> is the part below one user,
  \<open>data_seeding\<close> the whole.
\<close>

locale account_seeding =
  fixes flags :: SeedFlags and key :: "byte list" and env :: SeedEnv and P :: "Tables \<Rightarrow> bool"
  assumes account: "P t \<Longrightarrow> EncryptAES (se_nonce env pt) (Float64ToByte (seed_balance flags env pt)) key = Inr balEnc \<Longrightarrow>
      AccountRepo_Create (seed_account_row env pt userID balEnc) t = Inr (t', n) \<Longrightarrow> P t'"
    and order: "P t \<Longrightarrow> CreateAiDataset (se_numeric env) g (seed_order_row flags env pt userID accID hist) t = Inr (t', n) \<Longrightarrow> P t'"
begin

lemma order_keeps:
  assumes "P (tx_view (sd_tx s))"
  shows "P (tx_view (sd_tx (snd (seed_order flags env i j userID accID k s))))"
proof (cases "sd_hist s userID")
  case None
  then show ?thesis using assms by (simp add: seed_order_def)
next
  case (Some hist)
  let ?pt = "AtOrder i j k"
  let ?h = "hist\<lparr>uh_orderCount := wrap64 (uh_orderCount hist + 1)\<rparr>"
  let ?stmt = "CreateAiDataset (se_numeric env) (se_gen_id env ?pt) (seed_order_row flags env ?pt userID accID ?h)"
  obtain r tx where e: "tx_Exec (se_fault env ?pt) ?stmt (sd_tx s) = (r, tx)" by fastforce
  have "P (tx_view tx)"
    using tx_Exec_keeps [of P "sd_tx s" ?stmt "se_fault env ?pt", OF assms order [OF assms]] by (simp add: e)
  then show ?thesis using Some e by (cases r) (simp_all add: seed_order_def Let_def)
qed

lemma orders_keep:
  assumes "P (tx_view (sd_tx s))"
  shows "P (tx_view (sd_tx (snd (seed_orders flags env i j userID s))))"
  using assms for_each_keeps [of "\<lambda>s. P (tx_view (sd_tx s))", OF order_keeps assms]
  by (auto simp: seed_orders_def split: option.split)

lemma account_keeps:
  assumes "P (tx_view (sd_tx s))"
  shows "P (tx_view (sd_tx (snd (seed_account flags key env i userID j s))))"
proof (cases "EncryptAES (se_nonce env (AtAccount i j)) (Float64ToByte (seed_balance flags env (AtAccount i j))) key")
  case (Inl err)
  then show ?thesis using assms by (simp add: seed_account_def)
next
  case (Inr balEnc)
  let ?stmt = "AccountRepo_Create (seed_account_row env (AtAccount i j) userID balEnc)"
  obtain r tx where e: "tx_Exec (se_fault env (AtAccount i j)) ?stmt (sd_tx s) = (r, tx)" by fastforce
  have "P (tx_view tx)"
    using tx_Exec_keeps [of P "sd_tx s" ?stmt "se_fault env (AtAccount i j)", OF assms account [OF assms Inr]] by (simp add: e)
  then show ?thesis
    using Inr e orders_keep [of "s\<lparr>sd_tx := tx\<rparr>"] by (cases r) (simp_all add: seed_account_def Let_def)
qed

lemma accounts_keep:
  "P (tx_view (sd_tx s)) \<Longrightarrow> P (tx_view (sd_tx (snd (for_each (seed_account flags key env i userID) js s))))"
  by (rule for_each_keeps [of "\<lambda>s. P (tx_view (sd_tx s))", OF account_keeps])

end

locale data_seeding = account_seeding +
  assumes user: "P t \<Longrightarrow> UserRepo_Create (seed_user_row env i) t = Inr (t', n) \<Longrightarrow> P t'"
begin

lemma user_keeps:
  assumes "P (tx_view (sd_tx s))"
  shows "P (tx_view (sd_tx (snd (seed_user flags key env i s))))"
proof -
  let ?stmt = "UserRepo_Create (seed_user_row env i)"
  obtain r tx where e: "tx_Exec (se_fault env (AtUser i)) ?stmt (sd_tx s) = (r, tx)" by fastforce
  have "P (tx_view tx)"
    using tx_Exec_keeps [of P "sd_tx s" ?stmt "se_fault env (AtUser i)", OF assms user [OF assms]] by (simp add: e)
  then show ?thesis
    using e by (cases r) (auto simp: seed_user_def Let_def split: option.split intro!: accounts_keep)
qed

lemma data_keeps:
  assumes "P t"
  shows "P (snd (seed_data flags key env beginFault commitFault t))"
proof -
  have "P (tx_view (sd_tx (snd (for_each (seed_user flags key env) xs s))))" if "P (tx_view (sd_tx s))" for xs s
    by (rule for_each_keeps [where P = "\<lambda>s. P (tx_view (sd_tx s))" and body = "seed_user flags key env"])
      (use that user_keeps in auto)
  then have "P (tx_view (snd (seed_users flags key env (Begin t))))"
    using assms by (auto simp: seed_users_def Begin_def split: prod.split) (metis SeedState.select_convs(1) Tx.select_convs(1) snd_conv)
  then show ?thesis
    using assms WithTransaction_atomic [of beginFault commitFault "seed_users flags key env" t] by (auto simp: seed_data_def)
qed

end

interpretation seeded_schema: data_seeding flags key env tables_wf for flags key env
  by unfold_locales (blast intro: account_insert.keeps_wf ai_insert.keeps_wf user_insert.keeps_wf)+

lemma CreateAiDataset_frame:
  "CreateAiDataset num g x t = Inr (t', n) \<Longrightarrow> t_users t' = t_users t \<and> t_orders t' = t_orders t \<and> t_accounts t' = t_accounts t"
  by (auto simp: CreateAiDataset_def split: if_splits option.splits)

lemma AccountRepo_Create_frame:
  "AccountRepo_Create a t = Inr (t', n) \<Longrightarrow> t_users t' = t_users t \<and> t_orders t' = t_orders t"
  by (auto simp: AccountRepo_Create_def split: if_splits)

interpretation account_frame: account_seeding flags key env "\<lambda>t. t_users t = us \<and> t_orders t = os" for flags key env us os
  by unfold_locales (metis AccountRepo_Create_frame CreateAiDataset_frame)+

subsection \<open>All users or none\<close>

definition acc_count :: "uuid \<Rightarrow> Tables \<Rightarrow> nat" where
  "acc_count u t = length (filter (\<lambda>a. ac_UserID a = u) (t_accounts t))"

definition user_known :: "uuid \<Rightarrow> Tables \<Rightarrow> bool" where
  "user_known u t \<longleftrightarrow> u \<in> us_ID ` set (t_users t)"

text \<open>The new UUIDs of the users are new, and no two are the same.\<close>

definition fresh_users :: "SeedEnv \<Rightarrow> int \<Rightarrow> Tables \<Rightarrow> bool" where
  "fresh_users env n t \<longleftrightarrow> distinct (map (\<lambda>i. se_uuid env (AtUser i)) [1..n]) \<and>
     (\<forall>i \<in> {1..n}. \<not> user_known (se_uuid env (AtUser i)) t)"

lemma account_user_known: "tables_wf t \<Longrightarrow> a \<in> set (t_accounts t) \<Longrightarrow> user_known (ac_UserID a) t"
  by (simp add: tables_wf_def accounts_wf_def user_known_def)

lemma acc_count_unknown: "tables_wf t \<Longrightarrow> \<not> user_known u t \<Longrightarrow> acc_count u t = 0"
  using account_user_known by (fastforce simp: acc_count_def filter_empty_conv)

lemma acc_count_cong: "t_accounts t' = t_accounts t \<Longrightarrow> acc_count u t' = acc_count u t"
  by (simp add: acc_count_def)

lemma account_insert_count:
  assumes "AccountRepo_Create a t = Inr (t', n)" "tables_wf t"
  shows "user_known (ac_UserID a) t" "1 \<le> acc_count (ac_UserID a) t'" "acc_count (ac_UserID a) t' \<le> acc_count (ac_UserID a) t + 1"
    "u \<noteq> ac_UserID a \<Longrightarrow> acc_count u t' = acc_count u t"
proof -
  let ?taken = "\<exists>b \<in> set (t_accounts t). ac_ID b = ac_ID a \<and> ac_UserID b = ac_UserID a"
  have taken: "user_known (ac_UserID a) t \<and> 1 \<le> acc_count (ac_UserID a) t" if ?taken
  proof
    show "user_known (ac_UserID a) t" using that account_user_known [OF assms(2)] by metis
    have "filter (\<lambda>b. ac_UserID b = ac_UserID a) (t_accounts t) \<noteq> []" using that by (auto simp: filter_empty_conv)
    then show "1 \<le> acc_count (ac_UserID a) t" by (simp add: acc_count_def Suc_le_eq)
  qed
  show "user_known (ac_UserID a) t" "1 \<le> acc_count (ac_UserID a) t'" "acc_count (ac_UserID a) t' \<le> acc_count (ac_UserID a) t + 1"
    "u \<noteq> ac_UserID a \<Longrightarrow> acc_count u t' = acc_count u t"
    using assms(1) taken by (auto simp: AccountRepo_Create_def acc_count_def user_known_def split: if_splits)
qed

lemma seed_order_accounts:
  "t_accounts (tx_view (sd_tx (snd (seed_order flags env i j u a k s)))) = t_accounts (tx_view (sd_tx s))"
proof (cases "sd_hist s u")
  case (Some hist)
  let ?h = "hist\<lparr>uh_orderCount := wrap64 (uh_orderCount hist + 1)\<rparr>"
  let ?stmt = "CreateAiDataset (se_numeric env) (se_gen_id env (AtOrder i j k)) (seed_order_row flags env (AtOrder i j k) u a ?h)"
  obtain r tx where e: "tx_Exec (se_fault env (AtOrder i j k)) ?stmt (sd_tx s) = (r, tx)" by fastforce
  have "t_accounts (tx_view tx) = t_accounts (tx_view (sd_tx s))"
    using tx_Exec_keeps [of "\<lambda>t. t_accounts t = t_accounts (tx_view (sd_tx s))" "sd_tx s" ?stmt "se_fault env (AtOrder i j k)"]
      CreateAiDataset_frame by (simp add: e)
  then show ?thesis using Some e by (cases r) (simp_all add: seed_order_def Let_def)
qed (simp add: seed_order_def)

lemma seed_orders_accounts:
  "t_accounts (tx_view (sd_tx (snd (seed_orders flags env i j u s)))) = t_accounts (tx_view (sd_tx s))"
proof -
  have "t_accounts (tx_view (sd_tx (snd (for_each (seed_order flags env i j u a) ks s')))) = t_accounts (tx_view (sd_tx s'))" for a ks s'
    by (rule for_each_keeps [where P = "\<lambda>s. t_accounts (tx_view (sd_tx s)) = t_accounts (tx_view (sd_tx s'))"])
      (simp_all add: seed_order_accounts)
  then show ?thesis by (simp add: seed_orders_def split: option.split)
qed

text \<open>A user's accounts are created under a user that is there; each iteration adds at most one.\<close>

lemma seed_account_ok:
  assumes "seed_account flags key env i u j s = (Returned None, s')" "tables_wf (tx_view (sd_tx s))"
  shows "user_known u (tx_view (sd_tx s))" "1 \<le> acc_count u (tx_view (sd_tx s'))"
    "acc_count u (tx_view (sd_tx s')) \<le> acc_count u (tx_view (sd_tx s)) + 1"
    "v \<noteq> u \<Longrightarrow> acc_count v (tx_view (sd_tx s')) = acc_count v (tx_view (sd_tx s))"
proof -
  obtain balEnc n tx where e: "tx_Exec (se_fault env (AtAccount i j)) (AccountRepo_Create (seed_account_row env (AtAccount i j) u balEnc)) (sd_tx s) = (Inr n, tx)"
    and o': "seed_orders flags env i j u (s\<lparr>sd_tx := tx\<rparr>) = (Returned None, s')"
    using assms(1) by (auto simp: seed_account_def Let_def split: sum.splits prod.splits)
  obtain t' where c: "AccountRepo_Create (seed_account_row env (AtAccount i j) u balEnc) (tx_view (sd_tx s)) = Inr (t', n)" and tx: "tx = (sd_tx s)\<lparr>tx_view := t'\<rparr>"
    using e by (rule tx_Exec_InrD)
  have "t_accounts (tx_view (sd_tx s')) = t_accounts t'"
    using seed_orders_accounts [of flags env i j u "s\<lparr>sd_tx := tx\<rparr>"] unfolding o' by (simp add: tx)
  then have cnt: "acc_count w (tx_view (sd_tx s')) = acc_count w t'" for w by (rule acc_count_cong)
  have u: "ac_UserID (seed_account_row env (AtAccount i j) u balEnc) = u" by (simp add: seed_account_row_def)
  show "user_known u (tx_view (sd_tx s))" "1 \<le> acc_count u (tx_view (sd_tx s'))"
    "acc_count u (tx_view (sd_tx s')) \<le> acc_count u (tx_view (sd_tx s)) + 1"
    "v \<noteq> u \<Longrightarrow> acc_count v (tx_view (sd_tx s')) = acc_count v (tx_view (sd_tx s))"
    using account_insert_count(1-3) [OF c assms(2)] account_insert_count(4) [OF c assms(2), of v] by (simp_all add: u cnt)
qed

lemma seed_accounts_ok:
  assumes "for_each (seed_account flags key env i u) js s = (Returned None, s')" "tables_wf (tx_view (sd_tx s))" "js \<noteq> []"
  shows "user_known u (tx_view (sd_tx s)) \<and> 1 \<le> acc_count u (tx_view (sd_tx s')) \<and>
    acc_count u (tx_view (sd_tx s')) \<le> acc_count u (tx_view (sd_tx s)) + length js \<and>
    (\<forall>v. v \<noteq> u \<longrightarrow> acc_count v (tx_view (sd_tx s')) = acc_count v (tx_view (sd_tx s)))"
  using assms
proof (induction js arbitrary: s)
  case (Cons j js)
  obtain s1 where b: "seed_account flags key env i u j s = (Returned None, s1)"
    and r: "for_each (seed_account flags key env i u) js s1 = (Returned None, s')"
    using Cons.prems(1) unfolding for_each_Cons_ok by auto
  note one = seed_account_ok [OF b Cons.prems(2)]
  have wf: "tables_wf (tx_view (sd_tx s1))"
    using seeded_schema.account_keeps [OF Cons.prems(2), of flags key env i u j] by (simp add: b)
  show ?case
  proof (cases "js = []")
    case True
    then show ?thesis using r one by simp
  next
    case False
    then show ?thesis using Cons.IH [OF r wf False] one by auto
  qed
qed simp

lemma rand_Intn_range:
  assumes "rand_Intn n d = Some r"
  shows "0 \<le> r" "r < n"
  using assms by (auto simp: rand_Intn_def split: if_splits)

definition seeded_user :: "SeedFlags \<Rightarrow> SeedEnv \<Rightarrow> Tables \<Rightarrow> int \<Rightarrow> bool" where
  "seeded_user flags env t i \<longleftrightarrow>
     (let n = int (acc_count (se_uuid env (AtUser i)) t) in 1 \<le> n \<and> n \<le> sf_maxAccounts flags)"

lemma seed_user_elim:
  assumes "seed_user flags key env i s = (Returned None, s')"
  obtains n tx r s1 where "tx_Exec (se_fault env (AtUser i)) (UserRepo_Create (seed_user_row env i)) (sd_tx s) = (Inr n, tx)"
    and "rand_Intn (sf_maxAccounts flags) (se_intn env (AtUser i) 0) = Some r" and "sd_tx s1 = tx"
    and "for_each (seed_account flags key env i (se_uuid env (AtUser i))) [1..wrap64 (r + 1)] s1 = (Returned None, s')"
proof -
  obtain res tx where e: "tx_Exec (se_fault env (AtUser i)) (UserRepo_Create (seed_user_row env i)) (sd_tx s) = (res, tx)" by fastforce
  obtain n where n: "res = Inr n" using assms e by (cases res) (simp_all add: seed_user_def)
  let ?s1 = "s\<lparr>sd_tx := tx, sd_hist := (sd_hist s)(se_uuid env (AtUser i) \<mapsto> \<lparr>uh_orderCount = 0, uh_totalAmount = f64_zero, uh_avgAmount = f64_zero\<rparr>)\<rparr>"
  obtain r where r: "rand_Intn (sf_maxAccounts flags) (se_intn env (AtUser i) 0) = Some r"
    using assms e n by (cases "rand_Intn (sf_maxAccounts flags) (se_intn env (AtUser i) 0)") (simp_all add: seed_user_def)
  show ?thesis using that [of n tx r ?s1] assms e n r by (simp add: seed_user_def Let_def)
qed

lemma seed_user_ok:
  assumes ok: "seed_user flags key env i s = (Returned None, s')" and wf: "tables_wf (tx_view (sd_tx s))"
    and new: "\<not> user_known (se_uuid env (AtUser i)) (tx_view (sd_tx s))" and max: "int64_ok (sf_maxAccounts flags)"
  shows "t_users (tx_view (sd_tx s')) = t_users (tx_view (sd_tx s)) @ [seed_user_row env i] \<and>
    t_orders (tx_view (sd_tx s')) = t_orders (tx_view (sd_tx s)) \<and> seeded_user flags env (tx_view (sd_tx s')) i \<and>
    (\<forall>v. v \<noteq> se_uuid env (AtUser i) \<longrightarrow> acc_count v (tx_view (sd_tx s')) = acc_count v (tx_view (sd_tx s)))"
proof -
  let ?u = "se_uuid env (AtUser i)" and ?t = "tx_view (sd_tx s)"
  let ?loop = "for_each (seed_account flags key env i ?u)"
  obtain n tx r s1 where e: "tx_Exec (se_fault env (AtUser i)) (UserRepo_Create (seed_user_row env i)) (sd_tx s) = (Inr n, tx)"
    and intn: "rand_Intn (sf_maxAccounts flags) (se_intn env (AtUser i) 0) = Some r" and s1: "sd_tx s1 = tx"
    and loop: "?loop [1..wrap64 (r + 1)] s1 = (Returned None, s')" using ok by (rule seed_user_elim)
  obtain t1 where c: "UserRepo_Create (seed_user_row env i) ?t = Inr (t1, n)" and tx: "tx = (sd_tx s)\<lparr>tx_view := t1\<rparr>"
    using e by (rule tx_Exec_InrD)
  have v1: "tx_view (sd_tx s1) = t1" by (simp add: s1 tx)
  have wf1: "tables_wf (tx_view (sd_tx s1))" using user_insert.keeps_wf [OF wf c] by (simp add: v1)
  note range = rand_Intn_range [OF intn]
  have w: "wrap64 (r + 1) = r + 1" using range max by (simp add: int64_ok_def)
  then have js: "[1..wrap64 (r + 1)] \<noteq> []" "length [1..wrap64 (r + 1)] = nat (r + 1)" using range(1) by simp_all
  note acc = seed_accounts_ok [OF loop wf1 js(1), unfolded v1 js(2)]
  have row: "us_ID (seed_user_row env i) = ?u" by (simp add: seed_user_row_def)
  have t1: "t1 = ?t\<lparr>t_users := t_users ?t @ [seed_user_row env i]\<rparr>"
    using c acc new by (auto simp: UserRepo_Create_def user_known_def split: if_splits)
  have frame: "t_users (tx_view (sd_tx s')) = t_users t1 \<and> t_orders (tx_view (sd_tx s')) = t_orders t1"
    using account_frame.accounts_keep [of s1 "t_users t1" "t_orders t1" flags key env i ?u "[1..wrap64 (r + 1)]"]
    by (simp add: v1 loop)
  have t0: "acc_count v t1 = acc_count v ?t" for v by (rule acc_count_cong) (simp add: t1)
  have zero: "acc_count ?u t1 = 0" using acc_count_unknown [OF wf new] by (simp add: t0)
  have "acc_count ?u (tx_view (sd_tx s')) \<le> nat (r + 1)" using acc by (simp add: zero)
  then have "int (acc_count ?u (tx_view (sd_tx s'))) \<le> sf_maxAccounts flags" using range by linarith
  then have "seeded_user flags env (tx_view (sd_tx s')) i" using acc by (simp add: seeded_user_def Let_def)
  then show ?thesis using frame acc t0 by (simp add: t1)
qed

lemma seed_loop_ok:
  assumes "for_each (seed_user flags key env) is s = (Returned None, s')" "tables_wf (tx_view (sd_tx s))"
    and "distinct (map (\<lambda>i. se_uuid env (AtUser i)) is)" "\<forall>i \<in> set is. \<not> user_known (se_uuid env (AtUser i)) (tx_view (sd_tx s))"
    and "int64_ok (sf_maxAccounts flags)"
  shows "t_users (tx_view (sd_tx s')) = t_users (tx_view (sd_tx s)) @ map (seed_user_row env) is \<and>
    t_orders (tx_view (sd_tx s')) = t_orders (tx_view (sd_tx s)) \<and> (\<forall>i \<in> set is. seeded_user flags env (tx_view (sd_tx s')) i) \<and>
    (\<forall>v. v \<notin> (\<lambda>i. se_uuid env (AtUser i)) ` set is \<longrightarrow> acc_count v (tx_view (sd_tx s')) = acc_count v (tx_view (sd_tx s)))"
  using assms(1-4)
proof (induction "is" arbitrary: s)
  case (Cons i "is")
  obtain s1 where b: "seed_user flags key env i s = (Returned None, s1)"
    and r: "for_each (seed_user flags key env) is s1 = (Returned None, s')"
    using Cons.prems(1) unfolding for_each_Cons_ok by auto
  have wf: "tables_wf (tx_view (sd_tx s1))"
    using seeded_schema.user_keeps [OF Cons.prems(2), of flags key env i] by (simp add: b)
  have one: "t_users (tx_view (sd_tx s1)) = t_users (tx_view (sd_tx s)) @ [seed_user_row env i]"
      "t_orders (tx_view (sd_tx s1)) = t_orders (tx_view (sd_tx s))" "seeded_user flags env (tx_view (sd_tx s1)) i"
      "\<And>v. v \<noteq> se_uuid env (AtUser i) \<Longrightarrow> acc_count v (tx_view (sd_tx s1)) = acc_count v (tx_view (sd_tx s))"
    using seed_user_ok [OF b Cons.prems(2) _ assms(5)] Cons.prems(4) by simp_all
  have "\<forall>k \<in> set is. \<not> user_known (se_uuid env (AtUser k)) (tx_view (sd_tx s1))"
    using Cons.prems(3,4) by (auto simp: user_known_def one(1) seed_user_row_def image_iff)
  note rest = Cons.IH [OF r wf _ this]
  have i_out: "se_uuid env (AtUser i) \<notin> (\<lambda>i. se_uuid env (AtUser i)) ` set is" using Cons.prems(3) by simp
  have d: "distinct (map (\<lambda>i. se_uuid env (AtUser i)) is)" using Cons.prems(3) by simp
  have "seeded_user flags env (tx_view (sd_tx s')) i" using rest [OF d] i_out one(3) by (simp add: seeded_user_def)
  then show ?case using rest [OF d] one by simp
qed simp

subsection \<open>Undisturbed seeding succeeds\<close>

definition seed_undisturbed :: "SeedFlags \<Rightarrow> byte list \<Rightarrow> SeedEnv \<Rightarrow> bool" where
  "seed_undisturbed flags key env \<longleftrightarrow> length key = 32 \<and> (\<forall>pt. se_fault env pt = None) \<and>
     (\<forall>pt. \<exists>nonce. se_nonce env pt = Inr nonce) \<and> (\<forall>x. se_numeric env x \<noteq> None) \<and>
     1 \<le> sf_maxAccounts flags \<and> int64_ok (sf_maxAccounts flags) \<and> int64_ok (sf_noOfUsers flags)"

definition user_ready :: "uuid \<Rightarrow> SeedState \<Rightarrow> bool" where
  "user_ready u s \<longleftrightarrow> \<not> tx_aborted (sd_tx s) \<and> user_known u (tx_view (sd_tx s)) \<and> sd_hist s u \<noteq> None"

definition account_ready :: "uuid \<Rightarrow> uuid \<Rightarrow> SeedState \<Rightarrow> bool" where
  "account_ready u a s \<longleftrightarrow> user_ready u s \<and> account_exists (tx_view (sd_tx s)) a u"

lemma for_each_succeeds:
  assumes "\<And>x s. x \<in> set xs \<Longrightarrow> P s \<Longrightarrow> \<exists>s'. body x s = (Returned None, s') \<and> P s'" and "P s"
  shows "\<exists>s'. for_each body xs s = (Returned None, s') \<and> P s'"
  using assms
proof (induction xs arbitrary: s)
  case (Cons x xs)
  obtain s1 where "body x s = (Returned None, s1)" "P s1" using Cons.prems by force
  then show ?case using Cons.IH [of s1] Cons.prems(1) by simp
qed simp

lemma tx_Exec_ok:
  "\<not> tx_aborted tx \<Longrightarrow> stmt (tx_view tx) = Inr (t', n) \<Longrightarrow> tx_Exec None stmt tx = (Inr n, tx\<lparr>tx_view := t'\<rparr>)"
  by (simp add: tx_Exec_def)

lemma order_velocity_range: "1 \<le> order_velocity flags env pt" "order_velocity flags env pt \<le> 10"
    "\<not> order_fraud flags env pt \<Longrightarrow> order_velocity flags env pt \<le> 5"
  using pos_mod_bound [of 5 "se_intn env pt 0"] pos_mod_sign [of 5 "se_intn env pt 0"]
    pos_mod_bound [of 6 "se_intn env pt 1"] pos_mod_sign [of 6 "se_intn env pt 1"]
  unfolding order_velocity_def rand_Intn_def by (simp_all del: pos_mod_bound pos_mod_sign)

lemma dataset_insert_ok:
  assumes "account_exists t a u" "num (order_deviation (order_amount flags env pt) hist) \<noteq> None"
  shows "\<exists>t' n. CreateAiDataset num g (seed_order_row flags env pt u a hist) t = Inr (t', n)"
proof -
  have "int4_ok (order_velocity flags env pt)" using order_velocity_range [of flags env pt] by (simp add: int4_ok_def)
  then show ?thesis using assms by (auto simp: CreateAiDataset_def seed_order_row_def)
qed

lemma seed_order_succeeds:
  assumes "seed_undisturbed flags key env" "account_ready u a s"
  shows "\<exists>s'. seed_order flags env i j u a k s = (Returned None, s') \<and> account_ready u a s'"
proof -
  let ?pt = "AtOrder i j k"
  obtain h where h: "sd_hist s u = Some h" using assms(2) by (auto simp: account_ready_def user_ready_def)
  let ?h = "h\<lparr>uh_orderCount := wrap64 (uh_orderCount h + 1)\<rparr>"
  have ex: "account_exists (tx_view (sd_tx s)) a u" using assms(2) by (simp add: account_ready_def)
  have num: "se_numeric env (order_deviation (order_amount flags env ?pt) ?h) \<noteq> None" and f: "se_fault env ?pt = None"
    using assms(1) by (simp_all add: seed_undisturbed_def)
  obtain t' n where c: "CreateAiDataset (se_numeric env) (se_gen_id env ?pt) (seed_order_row flags env ?pt u a ?h) (tx_view (sd_tx s)) = Inr (t', n)"
    using dataset_insert_ok [where num = "se_numeric env", OF ex num] by blast
  have "\<not> tx_aborted (sd_tx s)" using assms(2) by (simp add: account_ready_def user_ready_def)
  then show ?thesis
    using assms(2) CreateAiDataset_frame [OF c] h f
    by (simp add: seed_order_def tx_Exec_ok [of _ _ t' n] c account_ready_def user_ready_def user_known_def account_exists_def)
qed

lemma seed_account_succeeds:
  assumes env: "seed_undisturbed flags key env" and u: "user_ready u s"
  shows "\<exists>s'. seed_account flags key env i u j s = (Returned None, s') \<and> user_ready u s'"
proof -
  let ?pt = "AtAccount i j"
  have key: "length key = 32" and f: "se_fault env ?pt = None" using env by (simp_all add: seed_undisturbed_def)
  obtain nonce where nonce: "se_nonce env ?pt = Inr nonce" using env unfolding seed_undisturbed_def by blast
  obtain c where enc: "EncryptAES (se_nonce env ?pt) (Float64ToByte (seed_balance flags env ?pt)) key = Inr c"
    using EncryptAES_total [OF key] nonce by metis
  let ?row = "seed_account_row env ?pt u c" and ?t = "tx_view (sd_tx s)"
  obtain t' n where ins: "AccountRepo_Create ?row ?t = Inr (t', n)" and ex: "account_exists t' (se_uuid env ?pt) u"
    using u by (cases "account_exists ?t (se_uuid env ?pt) u")
      (force simp: AccountRepo_Create_def seed_account_row_def Account_zero_def account_exists_def user_ready_def user_known_def)+
  let ?s = "s\<lparr>sd_tx := (sd_tx s)\<lparr>tx_view := t'\<rparr>\<rparr>"
  have exec: "tx_Exec (se_fault env ?pt) (AccountRepo_Create ?row) (sd_tx s) = (Inr n, (sd_tx s)\<lparr>tx_view := t'\<rparr>)"
    unfolding f by (rule tx_Exec_ok) (use u ins in \<open>simp_all add: user_ready_def\<close>)
  have ready: "account_ready u (se_uuid env ?pt) ?s"
    using u ex AccountRepo_Create_frame [OF ins] by (simp add: account_ready_def user_ready_def user_known_def)
  obtain r where r: "rand_Intn 10 (se_intn env ?pt 0) = Some r" by (simp add: rand_Intn_def)
  have "\<exists>s'. for_each (seed_order flags env i j u (se_uuid env ?pt)) [0..r] ?s = (Returned None, s') \<and> account_ready u (se_uuid env ?pt) s'"
    by (rule for_each_succeeds [of _ "account_ready u (se_uuid env ?pt)"]) (use seed_order_succeeds [OF env] ready in auto)
  then have "\<exists>s'. seed_orders flags env i j u ?s = (Returned None, s') \<and> user_ready u s'"
    using ready r by (auto simp: seed_orders_def account_ready_def)
  then show ?thesis by (simp add: seed_account_def enc exec Let_def)
qed

lemma length_show_nat: "n < 10 ^ Suc k \<Longrightarrow> length (show_nat n) \<le> Suc k"
proof (induction k arbitrary: n)
  case 0
  then show ?case by (simp add: show_nat.simps)
next
  case (Suc k)
  then have "length (show_nat (n div 10)) \<le> Suc k" by (simp add: less_mult_imp_div_less mult.commute)
  then show ?case by (subst show_nat.simps) simp
qed

lemma seed_username_short:
  assumes "1 \<le> i" "i < 2 ^ 63"
  shows "length (seed_username i) \<le> 255"
proof -
  have "nat i < 10 ^ Suc 18" using assms by simp
  from length_show_nat [OF this] show ?thesis using assms by (simp add: seed_username_def show_int_def)
qed

lemma seed_username_inj:
  assumes "1 \<le> i" "1 \<le> j"
  shows "seed_username i = seed_username j \<longleftrightarrow> i = j"
proof
  assume "seed_username i = seed_username j"
  then have "show_nat (nat i) = show_nat (nat j)" using assms by (simp add: seed_username_def show_int_def)
  then have "nat i = nat j" by (metis read_show_nat)
  then show "i = j" using assms by simp
qed simp

lemma seed_user_succeeds:
  assumes env: "seed_undisturbed flags key env" and live: "\<not> tx_aborted (sd_tx s)"
    and new: "\<not> user_known (se_uuid env (AtUser i)) (tx_view (sd_tx s))"
      "seed_username i \<notin> us_Username ` set (t_users (tx_view (sd_tx s)))" and i: "1 \<le> i" "i < 2 ^ 63"
  shows "\<exists>s'. seed_user flags key env i s = (Returned None, s') \<and> \<not> tx_aborted (sd_tx s')"
proof -
  let ?u = "se_uuid env (AtUser i)" and ?t = "tx_view (sd_tx s)"
  let ?t' = "?t\<lparr>t_users := t_users ?t @ [seed_user_row env i]\<rparr>"
  let ?s = "s\<lparr>sd_tx := (sd_tx s)\<lparr>tx_view := ?t'\<rparr>, sd_hist := (sd_hist s)(?u \<mapsto> \<lparr>uh_orderCount = 0, uh_totalAmount = f64_zero, uh_avgAmount = f64_zero\<rparr>)\<rparr>"
  have row: "us_ID (seed_user_row env i) = ?u" "us_Username (seed_user_row env i) = seed_username i" by (simp_all add: seed_user_row_def)
  have "UserRepo_Create (seed_user_row env i) ?t = Inr (?t', 1)"
    using seed_username_short [OF i] new by (simp add: UserRepo_Create_def row user_known_def)
  then have exec: "tx_Exec (se_fault env (AtUser i)) (UserRepo_Create (seed_user_row env i)) (sd_tx s) = (Inr 1, (sd_tx s)\<lparr>tx_view := ?t'\<rparr>)"
    using env live by (simp add: seed_undisturbed_def tx_Exec_ok)
  obtain r where r: "rand_Intn (sf_maxAccounts flags) (se_intn env (AtUser i) 0) = Some r"
    using env by (simp add: seed_undisturbed_def rand_Intn_def)
  have "user_ready ?u ?s" using live row by (simp add: user_ready_def user_known_def)
  then have "\<exists>s'. for_each (seed_account flags key env i ?u) [1..wrap64 (r + 1)] ?s = (Returned None, s') \<and> user_ready ?u s'"
    by (rule for_each_succeeds [of _ "user_ready ?u", rotated]) (use seed_account_succeeds [OF env] in auto)
  then show ?thesis using exec r by (auto simp: seed_user_def user_ready_def Let_def)
qed

lemma seed_loop_succeeds:
  assumes "seed_undisturbed flags key env" "\<not> tx_aborted (sd_tx s)" "tables_wf (tx_view (sd_tx s))"
    and "distinct (map (\<lambda>i. se_uuid env (AtUser i)) is)" "distinct is" "\<forall>i \<in> set is. 1 \<le> i \<and> i < 2 ^ 63"
    and "\<forall>i \<in> set is. \<not> user_known (se_uuid env (AtUser i)) (tx_view (sd_tx s))"
    and "\<forall>i \<in> set is. seed_username i \<notin> us_Username ` set (t_users (tx_view (sd_tx s)))"
  shows "\<exists>s'. for_each (seed_user flags key env) is s = (Returned None, s') \<and> \<not> tx_aborted (sd_tx s')"
  using assms(2-)
proof (induction "is" arbitrary: s)
  case (Cons i "is")
  have i: "1 \<le> i" "i < 2 ^ 63" "\<not> user_known (se_uuid env (AtUser i)) (tx_view (sd_tx s))"
    "seed_username i \<notin> us_Username ` set (t_users (tx_view (sd_tx s)))" using Cons.prems(5,6,7) by simp_all
  obtain s1 where b: "seed_user flags key env i s = (Returned None, s1)" and live: "\<not> tx_aborted (sd_tx s1)"
    using seed_user_succeeds [OF assms(1) Cons.prems(1) i(3,4,1,2)] by blast
  have wf: "tables_wf (tx_view (sd_tx s1))"
    using seeded_schema.user_keeps [OF Cons.prems(2), of flags key env i] by (simp add: b)
  have users: "t_users (tx_view (sd_tx s1)) = t_users (tx_view (sd_tx s)) @ [seed_user_row env i]"
    using seed_user_ok [OF b Cons.prems(2) i(3)] assms(1) by (simp add: seed_undisturbed_def)
  have ids: "\<forall>k \<in> set is. \<not> user_known (se_uuid env (AtUser k)) (tx_view (sd_tx s1))"
    using Cons.prems(3,6) by (auto simp: user_known_def users seed_user_row_def image_iff)
  have names: "\<forall>k \<in> set is. seed_username k \<notin> us_Username ` set (t_users (tx_view (sd_tx s1)))"
    using Cons.prems(4,5,7) by (auto simp: users seed_user_row_def seed_username_inj)
  show ?case using Cons.IH [OF live wf] Cons.prems(3,4,5) ids names by (simp add: b)
qed simp

lemma seed_data_success:
  assumes "seed_data flags key env beginFault commitFault t = (Returned None, t')"
  obtains s' where "for_each (seed_user flags key env) [1..sf_noOfUsers flags] \<lparr>sd_tx = Begin t, sd_hist = Map.empty\<rparr> = (Returned None, s')"
    and "t' = tx_view (sd_tx s')"
proof -
  obtain r s' where f: "for_each (seed_user flags key env) [1..sf_noOfUsers flags] \<lparr>sd_tx = Begin t, sd_hist = Map.empty\<rparr> = (r, s')" by fastforce
  then have "seed_users flags key env (Begin t) = (r, sd_tx s')" by (simp add: seed_users_def)
  then have "r = Returned None \<and> t' = tx_view (sd_tx s')"
    using assms by (auto simp: seed_data_def WithTransaction_def Commit_def split: option.splits fn_outcome.splits if_splits)
  then show ?thesis using f that by simp
qed

lemma seed_data_succeeds:
  assumes "seed_undisturbed flags key env" "tables_wf t" "fresh_users env (sf_noOfUsers flags) t"
    and "\<forall>i \<in> {1..sf_noOfUsers flags}. seed_username i \<notin> us_Username ` set (t_users t)"
  shows "fst (seed_data flags key env None None t) = Returned None"
proof -
  let ?s = "\<lparr>sd_tx = Begin t, sd_hist = Map.empty\<rparr>"
  have "sf_noOfUsers flags < 2 ^ 63" using assms(1) by (simp add: seed_undisturbed_def int64_ok_def)
  then have "\<exists>s'. for_each (seed_user flags key env) [1..sf_noOfUsers flags] ?s = (Returned None, s') \<and> \<not> tx_aborted (sd_tx s')"
    using assms by (intro seed_loop_succeeds) (auto simp: Begin_def fresh_users_def)
  then show ?thesis by (auto simp: seed_data_def seed_users_def WithTransaction_def Commit_def)
qed

text \<open>
  Property C37. Seeding is all or nothing and exact. With new UUIDs from the generator, a run that
  fails in any way (an error of a statement, of the encryption or of the commit, or a panic because
  no account per user is allowed) leaves the tables as they were; a run that succeeds has appended
  exactly the users \<open>user_1\<close> to \<open>user_n\<close>, each with at least one and at most \<open>maxAccounts\<close>
  accounts, has touched no order, and keeps every constraint of the schema. When nothing outside
  fails and no username of the run is taken, the run succeeds.
\<close>

theorem seeding_all_or_nothing:
  assumes "tables_wf t" "fresh_users env (sf_noOfUsers flags) t" "int64_ok (sf_maxAccounts flags)"
  shows "(case seed_data flags key env beginFault commitFault t of
       (Returned None, t') \<Rightarrow> tables_wf t' \<and> t_orders t' = t_orders t \<and>
          map us_Username (t_users t') = map us_Username (t_users t) @ map seed_username [1..sf_noOfUsers flags] \<and>
          list_all (seeded_user flags env t') [1..sf_noOfUsers flags]
     | (Returned (Some err), t') \<Rightarrow> t' = t
     | (Panicked p, t') \<Rightarrow> t' = t) \<and>
     (seed_undisturbed flags key env \<and> (\<forall>i \<in> {1..sf_noOfUsers flags}. seed_username i \<notin> us_Username ` set (t_users t)) \<longrightarrow>
        fst (seed_data flags key env None None t) = Returned None)"
proof (intro conjI impI)
  assume "seed_undisturbed flags key env \<and> (\<forall>i \<in> {1..sf_noOfUsers flags}. seed_username i \<notin> us_Username ` set (t_users t))"
  then show "fst (seed_data flags key env None None t) = Returned None" using seed_data_succeeds assms by blast
next
  show "case seed_data flags key env beginFault commitFault t of
       (Returned None, t') \<Rightarrow> tables_wf t' \<and> t_orders t' = t_orders t \<and>
          map us_Username (t_users t') = map us_Username (t_users t) @ map seed_username [1..sf_noOfUsers flags] \<and>
          list_all (seeded_user flags env t') [1..sf_noOfUsers flags]
     | (Returned (Some err), t') \<Rightarrow> t' = t
     | (Panicked p, t') \<Rightarrow> t' = t"
  proof (cases "fst (seed_data flags key env beginFault commitFault t) = Returned None")
    case True
    then obtain t' where ok: "seed_data flags key env beginFault commitFault t = (Returned None, t')" by (metis prod.collapse)
    obtain s' where f: "for_each (seed_user flags key env) [1..sf_noOfUsers flags] \<lparr>sd_tx = Begin t, sd_hist = Map.empty\<rparr> = (Returned None, s')"
      and t': "t' = tx_view (sd_tx s')" using ok by (rule seed_data_success)
    have "tables_wf t'" using seeded_schema.data_keeps [OF assms(1), of flags key env beginFault commitFault] by (simp add: ok)
    moreover have "t_users t' = t_users t @ map (seed_user_row env) [1..sf_noOfUsers flags] \<and> t_orders t' = t_orders t \<and>
        (\<forall>i \<in> set [1..sf_noOfUsers flags]. seeded_user flags env t' i)"
      using seed_loop_ok [OF f] assms by (simp add: t' Begin_def fresh_users_def)
    moreover have "us_Username \<circ> seed_user_row env = seed_username" by (auto simp: seed_user_row_def)
    ultimately show ?thesis by (simp add: ok list_all_iff)
  next
    case False
    then have "snd (seed_data flags key env beginFault commitFault t) = t"
      unfolding seed_data_def by (rule WithTransaction_error)
    then show ?thesis using False by (auto split: prod.split fn_outcome.split option.split)
  qed
qed

definition seed_flags_example :: SeedFlags where
  "seed_flags_example = \<lparr>sf_noOfUsers = 2, sf_maxAccounts = 2, sf_minBalance = f64_of_int 700, sf_maxBalance = f64_of_int 1000,
     sf_fraudRate = f64_of_int 0, sf_exportAiData = False\<rparr>"

fun point_uuid :: "seed_point \<Rightarrow> uuid" where
  "point_uuid (AtUser i) = of_int (i + 100)"
| "point_uuid (AtAccount i j) = of_int (1000 * i + j)"
| "point_uuid (AtOrder i j k) = of_int (100000 * i + 1000 * j + k)"

definition seed_env_example :: SeedEnv where
  "seed_env_example = \<lparr>se_uuid = point_uuid, se_float = (\<lambda>_ _. f64_zero), se_intn = (\<lambda>_ _. 1), se_nonce = (\<lambda>_. Inr (replicate 12 1)),
     se_created = (\<lambda>_. 0), se_updated = (\<lambda>_. 0), se_fault = (\<lambda>_. None), se_gen_id = point_uuid, se_numeric = Some\<rparr>"

lemma fresh_users_example: "fresh_users seed_env_example 2 no_rows"
  by (simp add: fresh_users_def seed_env_example_def user_known_def no_rows_def upto.simps)

lemma seed_example_undisturbed: "seed_undisturbed seed_flags_example key_example seed_env_example"
  by (simp add: seed_undisturbed_def seed_flags_example_def seed_env_example_def key_example_def int64_ok_def)

theorem seeding_all_or_nothing_witness:
  "\<exists>t'. seed_data seed_flags_example key_example seed_env_example None None no_rows = (Returned None, t') \<and>
     tables_wf t' \<and> t_orders t' = [] \<and> map us_Username (t_users t') = [''user_1'', ''user_2''] \<and>
     list_all (seeded_user seed_flags_example seed_env_example t') [1, 2]"
proof -
  let ?run = "seed_data seed_flags_example key_example seed_env_example None None no_rows"
  have n: "sf_noOfUsers seed_flags_example = 2" by (simp add: seed_flags_example_def)
  have two: "[1..2] = [1, 2 :: int]" by (simp add: upto.simps)
  have names: "map seed_username [1, 2] = [''user_1'', ''user_2'']"
    by code_simp
  have fresh: "fresh_users seed_env_example (sf_noOfUsers seed_flags_example) no_rows" by (simp add: n fresh_users_example)
  have ok: "int64_ok (sf_maxAccounts seed_flags_example)" by (simp add: seed_flags_example_def int64_ok_def)
  note all = seeding_all_or_nothing [OF no_rows_wf fresh ok, of key_example None None]
  have "fst ?run = Returned None" using all seed_example_undisturbed by (simp add: no_rows_def)
  then obtain t' where run: "?run = (Returned None, t')" by (metis prod.collapse)
  have empty: "t_orders no_rows = []" "map us_Username (t_users no_rows) = []" by (simp_all add: no_rows_def)
  show ?thesis using all run unfolding n two empty append_Nil names by simp
qed

text \<open>
  A second run fails. When the first username of the run is taken, nothing outside
  fails and at least one user with an account is asked for, the user is skipped by its
  \<open>ON CONFLICT DO NOTHING\<close>, but its accounts carry the new UUID that was never inserted: the run ends
  in a foreign key violation and rolls back.
\<close>

theorem reseeding_fails:
  assumes "seed_username 1 \<in> us_Username ` set (t_users t)" "tables_wf t" "\<not> user_known (se_uuid env (AtUser 1)) t"
    and "1 \<le> sf_noOfUsers flags" "1 \<le> sf_maxAccounts flags" "int64_ok (sf_maxAccounts flags)"
    and "length key = 32" "\<forall>pt. se_fault env pt = None" "\<forall>pt. \<exists>nonce. se_nonce env pt = Inr nonce"
  shows "seed_data flags key env None commitFault t = (Returned (Some (pg_error ''23503'')), t)"
proof -
  let ?u = "se_uuid env (AtUser 1)" and ?pt = "AtAccount 1 1"
  obtain nonce where nonce: "se_nonce env ?pt = Inr nonce" using assms(9) by blast
  obtain c where enc: "EncryptAES (se_nonce env ?pt) (Float64ToByte (seed_balance flags env ?pt)) key = Inr c"
    using EncryptAES_total [OF assms(7)] nonce by metis
  have name: "length (seed_username 1) \<le> 255" by (simp add: seed_username_def show_int_def show_nat.simps)
  then have user: "UserRepo_Create (seed_user_row env 1) t = Inr (t, 0)"
    using assms(1) by (simp add: UserRepo_Create_def seed_user_row_def)
  have "\<not> (\<exists>a \<in> set (t_accounts t). ac_ID a = se_uuid env ?pt \<and> ac_UserID a = ?u)"
    using account_user_known [OF assms(2)] assms(3) by metis
  then have account: "AccountRepo_Create (seed_account_row env ?pt ?u c) t = Inl (pg_error ''23503'')"
    using assms(3) by (auto simp: AccountRepo_Create_def seed_account_row_def Account_zero_def user_known_def)
  obtain r where r: "rand_Intn (sf_maxAccounts flags) (se_intn env (AtUser 1) 0) = Some r"
    using assms(5) by (simp add: rand_Intn_def)
  have "1 \<le> wrap64 (r + 1)" using rand_Intn_range [OF r] assms(6) by (simp add: int64_ok_def)
  then have js: "[1..wrap64 (r + 1)] = 1 # [2..wrap64 (r + 1)]" "[1..sf_noOfUsers flags] = 1 # [2..sf_noOfUsers flags]"
    using assms(4) by (simp_all add: upto_rec1)
  have "fst (seed_users flags key env (Begin t)) = Returned (Some (pg_error ''23503''))"
    using assms(8)
    by (simp add: seed_users_def js(2) seed_user_def r js(1) seed_account_def enc tx_Exec_def Begin_def user account Let_def)
  then show ?thesis by (auto simp: seed_data_def WithTransaction_def split: prod.split)
qed

theorem reseeding_fails_witness:
  "seed_data seed_flags_example key_example (seed_env_example\<lparr>se_uuid := \<lambda>pt. 5\<rparr>) None None
     (no_rows\<lparr>t_users := [seed_user_row seed_env_example 1]\<rparr>) =
   (Returned (Some (pg_error ''23503'')), no_rows\<lparr>t_users := [seed_user_row seed_env_example 1]\<rparr>)"
  by (rule reseeding_fails)
    (simp_all add: seed_user_row_def seed_env_example_def seed_flags_example_def no_rows_def tables_wf_def users_wf_def accounts_wf_def
      orders_wf_def ai_wf_def user_known_def int64_ok_def key_example_def)

end
