(* ===== verification/Seeded_Data.thy ===== *)
theory Seeded_Data
  imports User_Seeder
begin

text \<open>
  What the user seeder writes: the balances and the rows of the dataset, as bounds on what the
  floating point arithmetic, the rounding to cents and the encryption leave in the tables.
\<close>

subsection \<open>What is seeded\<close>

fun unit_draw :: "float64 \<Rightarrow> bool" where
  "unit_draw (Fin s u) \<longleftrightarrow> \<not> s \<and> 0 \<le> u \<and> u < 1"
| "unit_draw x \<longleftrightarrow> False"

lemma f64_round_near:
  assumes "0 \<le> x" "x < 2 ^ 44"
  obtains m where "f64_round False x = Fin False m" "\<bar>m - x\<bar> \<le> 1 / 1024" "0 \<le> m"
proof (cases "x = 0")
  case True
  then show ?thesis using that [of 0] by (simp add: f64_round_def)
next
  case False
  then show ?thesis using assms that f64_round_error [of x False] by auto
qed

lemma draw_between:
  assumes "unit_draw d" "0 \<le> p" "0 \<le> w" "p + w < 2 ^ 43"
  obtains m where "f64_add (Fin False p) (f64_mul d (Fin False w)) = Fin False m" "0 \<le> m" "p - 1 / 512 \<le> m" "m \<le> p + w + 1 / 512"
proof -
  obtain u where d: "d = Fin False u" "0 \<le> u" "u < 1" using assms(1) by (cases d) auto
  have uw: "0 \<le> u * w" "u * w \<le> w" using d assms(3) by (simp_all add: mult_left_le_one_le)
  obtain y where y: "f64_round False (u * w) = Fin False y" "\<bar>y - u * w\<bar> \<le> 1 / 1024" "0 \<le> y"
    using uw assms by (auto intro: f64_round_near [of "u * w"])
  obtain m where m: "f64_round False (p + y) = Fin False m" "\<bar>m - (p + y)\<bar> \<le> 1 / 1024" "0 \<le> m"
  proof (rule f64_round_near [of "p + y"])
    show "0 \<le> p + y" using y(3) assms(2) by simp
    have "y \<le> w + 1 / 1024" using y(2) uw(2) by linarith
    then have "p + y < 2 ^ 43 + 1" using assms(4) by linarith
    then show "p + y < 2 ^ 44" by simp
  qed
  have "f64_add (Fin False p) (f64_mul d (Fin False w)) = Fin False m" using d y m by (simp add: f64_val_def)
  moreover have "p - 1 / 512 \<le> m" "m \<le> p + w + 1 / 512" using y(2) m(2) uw by linarith+
  ultimately show ?thesis using that m(3) by blast
qed

text \<open>Rounding to cents lands on a whole number of cents within the bounds.\<close>

lemma roundFloatToTwo_cents:
  assumes "0 \<le> m" "of_nat a - 1 / 512 \<le> m" "m \<le> of_nat b + 1 / 512" "b \<le> 10 ^ 9"
  obtains c where "roundFloatToTwo (Fin False m) = dollars c" "100 * a \<le> c" "c \<le> 100 * b"
proof -
  have hundred: "f64_of_int 100 = Fin False 100" by (simp add: f64_of_int_exact)
  have "of_nat b \<le> (10 ^ 9 :: rat)" using assms(4) by (metis of_nat_le_iff of_nat_numeral of_nat_power)
  then obtain y where y: "f64_round False (m * 100) = Fin False y" "\<bar>y - m * 100\<bar> \<le> 1 / 1024" "0 \<le> y"
    using assms by (auto intro: f64_round_near [of "m * 100"])
  define k where "k = \<lfloor>y + 1 / 2\<rfloor>"
  have k: "0 \<le> k" using y(3) by (simp add: k_def)
  have lo: "100 * int a \<le> k"
  proof -
    have "100 * of_nat a \<le> y + 1 / 2" using y(2) assms(2) by linarith
    then have "of_int (100 * int a) \<le> y + 1 / 2" by simp
    then show ?thesis unfolding k_def by (simp only: le_floor_iff)
  qed
  have hi: "k \<le> 100 * int b"
  proof -
    have "y + 1 / 2 < 100 * of_nat b + 1" using y(2) assms(3) by linarith
    then have "y + 1 / 2 < of_int (100 * int b + 1)" by simp
    then show ?thesis unfolding k_def by (metis floor_less_iff zle_add1_eq_le)
  qed
  have nk: "(of_nat (nat k) :: rat) = of_int k" using k by simp
  have "f64_Round (f64_mul (Fin False m) (f64_of_int 100)) = Fin False (of_int k)"
    by (simp add: hundred f64_val_def y(1) k_def)
  then have "roundFloatToTwo (Fin False m) = dollars (nat k)"
    unfolding roundFloatToTwo_def dollars_def nk by (simp add: hundred f64_val_def)
  then show ?thesis using that lo hi k by (simp add: nat_le_iff le_nat_iff)
qed

text \<open>A balance as it is stored: a whole number of cents, up to one cent outside of the bounds.\<close>

lemma stored_cents:
  assumes "0 \<le> m" "p - 3 / 1024 \<le> m" "m \<le> q + 3 / 1024" "q \<le> 10 ^ 9"
  obtains c where "fmt_f 2 (Fin False m) = money_text c" "cents_ok c" "p - 1 / 100 \<le> of_nat c / 100" "of_nat c / 100 \<le> q + 1 / 100"
proof -
  define k where "k = round_even (m * 100)"
  have k: "0 \<le> k" unfolding k_def using assms(1) by (intro round_even_nonneg) simp
  have near: "\<bar>of_int k - m * 100\<bar> \<le> 1 / 2" unfolding k_def by (rule round_even_error)
  have nk: "(of_nat (nat k) :: rat) = of_int k" using k by simp
  have "of_int k \<le> m * 100 + 1 / 2" using near by linarith
  also have "\<dots> \<le> 10 ^ 15" using assms(3,4) by simp
  finally have "of_int k \<le> (10 ^ 15 :: rat)" .
  then have "k \<le> 10 ^ 15" by (metis of_int_le_iff of_int_numeral of_int_power)
  then have ok: "cents_ok (nat k)" by (simp add: cents_ok_def nat_le_iff)
  have "fmt_f 2 (Fin False m) = money_text (nat k)"
    by (simp add: money_text_def Let_def flip: k_def)
  moreover have "p - 1 / 100 \<le> of_nat (nat k) / 100" "of_nat (nat k) / 100 \<le> q + 1 / 100" unfolding nk using near assms(2,3) by linarith+
  ultimately show ?thesis using that ok by blast
qed

definition dataset_row_ok :: "OrderAIModel \<Rightarrow> bool" where
  "dataset_row_ok r \<longleftrightarrow>
     (\<exists>c. ai_Amount r = dollars c \<and> (if ai_IsFraud r then 100000 \<le> c \<and> c \<le> 500000 else 5000 \<le> c \<and> c \<le> 20000)) \<and>
     1 \<le> ai_TransactionVelocity r \<and> ai_TransactionVelocity r \<le> (if ai_IsFraud r then 10 else 5)"

definition balance_within :: "byte list \<Rightarrow> rat \<Rightarrow> rat \<Rightarrow> Account \<Rightarrow> bool" where
  "balance_within key p q a \<longleftrightarrow>
     (\<exists>c. DecryptToFloat64 (ac_Balance a) key = Inr (dollars c) \<and> p - 1 / 100 \<le> of_nat c / 100 \<and> of_nat c / 100 \<le> q + 1 / 100)"

definition draws_ok :: "SeedFlags \<Rightarrow> SeedEnv \<Rightarrow> rat \<Rightarrow> rat \<Rightarrow> bool" where
  "draws_ok flags env p q \<longleftrightarrow> sf_minBalance flags = Fin False p \<and> sf_maxBalance flags = Fin False q \<and> 0 \<le> p \<and> p \<le> q \<and> q \<le> 10 ^ 9 \<and>
     (\<forall>pt k. unit_draw (se_float env pt k)) \<and> (\<forall>pt nonce. se_nonce env pt = Inr nonce \<longrightarrow> length nonce = 12)"

lemma order_row_ok:
  assumes "draws_ok flags env p q"
  shows "dataset_row_ok (seed_order_row flags env pt u a hist)"
proof -
  have draw: "unit_draw (se_float env pt k)" for k using assms by (simp add: draws_ok_def)
  let ?lo = "if order_fraud flags env pt then 1000 else 50 :: nat" and ?hi = "if order_fraud flags env pt then 5000 else 200 :: nat"
  obtain m where m: "order_amount flags env pt = Fin False m" "0 \<le> m" "of_nat ?lo - 1 / 512 \<le> m" "m \<le> of_nat ?hi + 1 / 512"
  proof (cases "order_fraud flags env pt")
    case True
    obtain m where "f64_add (Fin False 1000) (f64_mul (se_float env pt 2) (Fin False 4000)) = Fin False m" "0 \<le> m"
        "1000 - 1 / 512 \<le> m" "m \<le> 1000 + 4000 + 1 / 512" by (rule draw_between [OF draw [of 2], of 1000 4000]) simp_all
    then show ?thesis using that True by (simp add: order_amount_def f64_of_int_exact)
  next
    case False
    obtain m where "f64_add (Fin False 50) (f64_mul (se_float env pt 1) (Fin False 150)) = Fin False m" "0 \<le> m"
        "50 - 1 / 512 \<le> m" "m \<le> 50 + 150 + 1 / 512" by (rule draw_between [OF draw [of 1], of 50 150]) simp_all
    then show ?thesis using that False by (simp add: order_amount_def f64_of_int_exact)
  qed
  obtain c where "roundFloatToTwo (Fin False m) = dollars c" "100 * ?lo \<le> c" "c \<le> 100 * ?hi"
    by (rule roundFloatToTwo_cents [OF m(2-4)]) simp_all
  then show ?thesis
    using order_velocity_range [of flags env pt] m(1) by (auto simp: dataset_row_ok_def seed_order_row_def)
qed

lemma account_row_within:
  assumes "draws_ok flags env p q" "EncryptAES (se_nonce env pt) (Float64ToByte (seed_balance flags env pt)) key = Inr balEnc"
  shows "balance_within key p q (seed_account_row env pt u balEnc)"
proof -
  have flags: "sf_minBalance flags = Fin False p" "sf_maxBalance flags = Fin False q" "0 \<le> p" "p \<le> q" "q \<le> 10 ^ 9"
    and draw: "unit_draw (se_float env pt 0)" using assms(1) by (simp_all add: draws_ok_def)
  obtain nonce where nonce: "se_nonce env pt = Inr nonce" "length nonce = 12"
    using assms by (auto simp: EncryptAES_def draws_ok_def split: option.splits sum.splits)
  have "q - p < 2 ^ 44" using flags(3,5) by simp
  then obtain w where w: "f64_round False (q - p) = Fin False w" "\<bar>w - (q - p)\<bar> \<le> 1 / 1024" "0 \<le> w"
    using flags(4) f64_round_near [of "q - p"] by auto
  have "p + w \<le> 10 ^ 9 + 1" using w(2) flags(5) by linarith
  then have "p + w < 2 ^ 43" by simp
  then obtain m where m: "f64_add (Fin False p) (f64_mul (se_float env pt 0) (Fin False w)) = Fin False m" "0 \<le> m"
      "p - 1 / 512 \<le> m" "m \<le> p + w + 1 / 512" by (rule draw_between [OF draw flags(3) w(3)])
  have bal: "seed_balance flags env pt = Fin False m" using m(1) w(1) by (simp add: seed_balance_def flags f64_sub_def f64_val_def)
  have "p - 3 / 1024 \<le> m" "m \<le> q + 3 / 1024" using m(3,4) w(2) by linarith+
  then obtain c where c: "fmt_f 2 (Fin False m) = money_text c" "cents_ok c" "p - 1 / 100 \<le> of_nat c / 100" "of_nat c / 100 \<le> q + 1 / 100"
    using stored_cents [of m p q] m(2) flags(5) by blast
  have "DecryptToFloat64 balEnc key = Inr (dollars c)"
    using DecryptToFloat64_encrypted [OF _ nonce(2), of "seed_balance flags env pt" key balEnc] assms(2) c(1)
    by (simp add: nonce(1) bal parse_money_text [OF c(2)] ToFloat64_def)
  then show ?thesis using c(3,4) by (auto simp: balance_within_def seed_account_row_def)
qed

definition seeded_within :: "SeedFlags \<Rightarrow> byte list \<Rightarrow> SeedEnv \<Rightarrow> rat \<Rightarrow> rat \<Rightarrow> Tables \<Rightarrow> Tables \<Rightarrow> bool" where
  "seeded_within flags key env p q t0 t \<longleftrightarrow> (draws_ok flags env p q \<longrightarrow>
     (\<forall>a \<in> set (t_accounts t). a \<in> set (t_accounts t0) \<or> balance_within key p q a) \<and>
     (\<forall>r \<in> set (t_ai t). r \<in> set (t_ai t0) \<or> dataset_row_ok r))"

interpretation seeded_bounds: data_seeding flags key env "seeded_within flags key env p q t0" for flags key env p q t0
proof
  fix t pt balEnc u t' n
  assume "seeded_within flags key env p q t0 t" and e: "EncryptAES (se_nonce env pt) (Float64ToByte (seed_balance flags env pt)) key = Inr balEnc"
    and "AccountRepo_Create (seed_account_row env pt u balEnc) t = Inr (t', n)"
  moreover have "balance_within key p q ((seed_account_row env pt u balEnc)\<lparr>ac_OrderCount := 0, ac_AvgOrderAmount := []\<rparr>)" if "draws_ok flags env p q"
    using account_row_within [OF that e, of u] by (simp add: balance_within_def)
  ultimately show "seeded_within flags key env p q t0 t'" by (auto simp: seeded_within_def AccountRepo_Create_def split: if_splits)
next
  fix t g pt u a hist t' n
  assume "seeded_within flags key env p q t0 t" "CreateAiDataset (se_numeric env) g (seed_order_row flags env pt u a hist) t = Inr (t', n)"
  moreover have "dataset_row_ok ((seed_order_row flags env pt u a hist)\<lparr>ai_ID := g, ai_Currency := ''CAD'', ai_AmountDeviation := d\<rparr>)"
    if "draws_ok flags env p q" for d
    using order_row_ok [OF that, of pt u a hist] by (simp add: dataset_row_ok_def)
  ultimately show "seeded_within flags key env p q t0 t'" by (auto simp: seeded_within_def CreateAiDataset_def split: if_splits option.splits)
next
  fix t i t' n
  assume "seeded_within flags key env p q t0 t" "UserRepo_Create (seed_user_row env i) t = Inr (t', n)"
  then show "seeded_within flags key env p q t0 t'" by (auto simp: seeded_within_def UserRepo_Create_def split: if_splits)
qed

text \<open>
  What seeding adds is well formed. When the random numbers lie in [0, 1) and the
  balances asked for are between \<open>p\<close> and \<open>q\<close> dollars, every new account holds a ciphertext that
  decrypts to a whole number of cents in that range (up to a cent), and every new row of the dataset
  has a whole number of cents as its amount, 50 to 200 dollars and a velocity of 1 to 5 when it is
  labelled clean, 1000 to 5000 dollars and a velocity of 1 to 10 when it is labelled fraud.
\<close>

theorem seeded_data_bounds:
  assumes "draws_ok flags env p q"
    and "seed_data flags key env beginFault commitFault t = (out, t')"
  shows "list_all (\<lambda>a. a \<in> set (t_accounts t) \<or> balance_within key p q a) (t_accounts t') \<and>
     list_all (\<lambda>r. r \<in> set (t_ai t) \<or> dataset_row_ok r) (t_ai t')"
proof -
  have "seeded_within flags key env p q t t" by (simp add: seeded_within_def)
  from seeded_bounds.data_keeps [OF this, of beginFault commitFault] show ?thesis
    using assms by (simp add: seeded_within_def list_all_iff)
qed

theorem seeded_data_bounds_witness:
  "\<exists>t'. seed_data (seed_flags_example\<lparr>sf_minBalance := Fin False 700, sf_maxBalance := Fin False 1000, sf_exportAiData := True\<rparr>)
         key_example seed_env_example None None no_rows = (Returned None, t') \<and>
     list_all (balance_within key_example 700 1000) (t_accounts t') \<and> list_all dataset_row_ok (t_ai t')"
proof -
  let ?flags = "seed_flags_example\<lparr>sf_minBalance := Fin False 700, sf_maxBalance := Fin False 1000, sf_exportAiData := True\<rparr>"
  have flags: "sf_noOfUsers ?flags = 2" "sf_maxAccounts ?flags = 2" by (simp_all add: seed_flags_example_def)
  have "seed_undisturbed ?flags key_example seed_env_example"
    using seed_example_undisturbed by (simp add: seed_undisturbed_def)
  moreover have "fresh_users seed_env_example (sf_noOfUsers ?flags) no_rows" by (simp add: flags fresh_users_example)
  ultimately have "fst (seed_data ?flags key_example seed_env_example None None no_rows) = Returned None"
    by (intro seed_data_succeeds no_rows_wf) (auto simp: no_rows_def)
  then obtain t' where run: "seed_data ?flags key_example seed_env_example None None no_rows = (Returned None, t')" by (metis prod.collapse)
  have "draws_ok ?flags seed_env_example 700 1000" by (simp add: draws_ok_def seed_env_example_def)
  from seeded_data_bounds [OF this run] run show ?thesis by (auto simp: no_rows_def list_all_iff)
qed

end
