(* ===== verification/Dataset_Export.thy ===== *)
theory Dataset_Export
  imports Seeded_Data
begin

text \<open>
  The end of \<open>services/user-api/cmd/seed/user_account_seeder.go\<close>: the dataset is read back page by
  page and written to a file; with it the program as a whole.
\<close>

subsection \<open>The export\<close>

text \<open>
  The loop over the pages. \<open>reader p\<close> is what the pool that answers the query for page \<open>p\<close> shows;
  a fault of the query and the number of rows that arrive before a connection is lost are functions
  of the page too, and so is the order of the rows. Without a last page the loop would not end, which is the value \<open>None\<close>.
\<close>

record ExportEnv =
  xe_reader :: "int \<Rightarrow> Tables"
  xe_order :: "int \<Rightarrow> OrderAIModel row_order"
  xe_fault :: "int \<Rightarrow> go_error option"
  xe_lost :: "int \<Rightarrow> nat option"
  xe_uuid_string :: "uuid \<Rightarrow> string"

partial_function (option) export_pages :: "ExportEnv \<Rightarrow> int \<Rightarrow> OrderAIDto list \<Rightarrow> (OrderAIDto list result) option" where
  "export_pages env page orderList =
     (case GetAllAiDataset (xe_order env page) (xe_fault env page) (xe_lost env page) page 100 (xe_reader env page) of
        Inl err \<Rightarrow> Some (Inl err)
      | Inr orders \<Rightarrow>
          if orders = [] then Some (Inr orderList)
          else export_pages env (wrap64 (page + 1)) (orderList @ map (ToOrderAIDto (xe_uuid_string env)) orders))"

declare export_pages.simps [code]

definition AiDatasetFile :: string where
  "AiDatasetFile = ''services/fraud-ml-service/train/ai_dataset.json''"

text \<open>
  The whole program: a fatal error, a panic, or a normal end with the file that was written and
  what is in it. \<open>su_shown\<close> is what the readers show once the primary holds the given tables.
\<close>

record SeederEnv =
  su_load :: "UserApiConfig result"
  su_pools :: PoolWorld
  su_source :: "go_error option"
  su_migrate :: "string \<Rightarrow> go_error option"
  su_up :: "go_error option"
  su_seed :: SeedEnv
  su_begin :: "go_error option"
  su_commit :: "go_error option"
  su_shown :: "Tables \<Rightarrow> int \<Rightarrow> Tables"
  su_order :: "int \<Rightarrow> OrderAIModel row_order"
  su_fault :: "int \<Rightarrow> go_error option"
  su_lost :: "int \<Rightarrow> nat option"
  su_uuid_string :: "uuid \<Rightarrow> string"
  su_now :: time
  su_marshal :: "OrderResult \<Rightarrow> string result"
  su_mkdir :: "go_error option"
  su_write :: "string \<Rightarrow> string \<Rightarrow> go_error option"

datatype seeder_end = SeedFatal go_error | SeedPanic string | SeedDone | SeedExported string OrderResult

definition user_db_config :: "UserApiConfig \<Rightarrow> DbConfig" where
  "user_db_config cfg = \<lparr>dc_PrimaryDSN = uc_PrimaryDbAddr cfg, dc_ReadDSNs = [uc_ReadDbAddr cfg],
     dc_MaxConns = uc_MaxDbCons cfg, dc_MinConns = uc_MinDbCons cfg\<rparr>"

definition export_dataset :: "SeederEnv \<Rightarrow> Tables \<Rightarrow> seeder_end option" where
  "export_dataset env t =
     (case export_pages \<lparr>xe_reader = su_shown env t, xe_order = su_order env, xe_fault = su_fault env, xe_lost = su_lost env, xe_uuid_string = su_uuid_string env\<rparr> 1 [] of
        None \<Rightarrow> None
      | Some (Inl err) \<Rightarrow> Some (SeedFatal err)
      | Some (Inr orderList) \<Rightarrow>
          (let orderResult = \<lparr>res_Orders = orderList, res_Count = int (length orderList), res_CreatedAt = su_now env\<rparr>
           in Some (case su_marshal env orderResult of
                Inl err \<Rightarrow> SeedFatal err
              | Inr jsonData \<Rightarrow>
                  (case su_mkdir env of
                     Some err \<Rightarrow> SeedFatal err
                   | None \<Rightarrow>
                       (case su_write env AiDatasetFile jsonData of
                          Some err \<Rightarrow> SeedFatal err
                        | None \<Rightarrow> SeedExported AiDatasetFile orderResult)))))"

definition user_seeder :: "SeedFlags \<Rightarrow> SeederEnv \<Rightarrow> Tables \<Rightarrow> (seeder_end \<times> Tables) option" where
  "user_seeder flags env t =
     (case su_load env of
        Inl err \<Rightarrow> Some (SeedFatal err, t)
      | Inr cfg \<Rightarrow>
     (case DecodeString (uc_AesKey cfg) of
        Inl err \<Rightarrow> Some (SeedFatal err, t)
      | Inr key \<Rightarrow>
     (case fst (database_New (su_pools env) (user_db_config cfg)) of
        Inl err \<Rightarrow> Some (SeedFatal err, t)
      | Inr db \<Rightarrow>
     (case RunMigrations (su_source env) (su_migrate env) (su_up env) (uc_PrimaryDbAddr cfg) of
        Some err \<Rightarrow> Some (SeedFatal err, t)
      | None \<Rightarrow>
     (case seed_data flags key (su_seed env) (su_begin env) (su_commit env) t of
        (Returned (Some err), t') \<Rightarrow> Some (SeedFatal err, t')
      | (Panicked p, t') \<Rightarrow> Some (SeedPanic p, t')
      | (Returned None, t') \<Rightarrow>
          if sf_exportAiData flags then map_option (\<lambda>r. (r, t')) (export_dataset env t') else Some (SeedDone, t'))))))"

subsection \<open>The export ends and is complete\<close>

lemma dataset_page_bound:
  assumes "GetAllAiDataset ord fault lost p 100 t = Inr orders" "orders \<noteq> []" "1 \<le> p" "(p - 1) * 100 < 2 ^ 63"
  shows "(p - 1) * 100 < int (length (ord (t_ai t)))"
proof -
  have f: "fault = None" using assms(1) by (cases fault) (simp_all add: GetAllAiDataset_def)
  have p: "p < 2 ^ 63" using assms(3,4) by simp
  have off: "wrap64 (wrap64 (p - 1) * 100) = (p - 1) * 100" "\<not> (p - 1) * 100 < 0"
    using offset_in_range [OF assms(3) p, of 100] assms(4) by simp_all
  have "drop (nat ((p - 1) * 100)) (ord (t_ai t)) \<noteq> []"
    using assms(1,2) off by (cases lost) (auto simp: GetAllAiDataset_def page_rows_def f Let_def)
  then show ?thesis using assms(3) by (simp add: not_le zless_nat_eq_int_zless nat_less_iff)
qed

lemma page_step:
  assumes "1 \<le> p" "(p - 1) * 100 < int n" "int n < 2 ^ 62"
  shows "wrap64 (p + 1) = p + 1"
  using assms by (intro wrap64_id) (simp add: int64_ok_def)

lemma page_range:
  assumes "1 \<le> (p :: int)" "(p - 1) * 100 < int n + 100" "int n < 2 ^ 62"
  shows "p < 2 ^ 63" "(p - 1) * 100 < 2 ^ 63"
  using assms by simp_all

lemma export_pages_ends:
  assumes "\<forall>p. row_order (xe_order env p) \<and> length (t_ai (xe_reader env p)) \<le> n" "int n < 2 ^ 62" "1 \<le> p" "(p - 1) * 100 < int n + 100"
  shows "\<exists>r. export_pages env p acc = Some r"
  using assms(3,4)
proof (induction "nat (int n + 100 - (p - 1) * 100)" arbitrary: p acc rule: less_induct)
  case less
  let ?page = "GetAllAiDataset (xe_order env p) (xe_fault env p) (xe_lost env p) p 100 (xe_reader env p)"
  show ?case
  proof (cases ?page)
    case (Inl err)
    then show ?thesis by (simp add: export_pages.simps)
  next
    case (Inr orders)
    show ?thesis
    proof (cases "orders = []")
      case True
      then show ?thesis using Inr by (simp add: export_pages.simps)
    next
      case False
      have "(p - 1) * 100 < 2 ^ 63" using page_range [OF less.prems assms(2)] by simp
      then have b: "(p - 1) * 100 < int n"
        using dataset_page_bound [OF Inr False less.prems(1)] assms(1) row_order_simps(1) by (metis of_nat_le_iff order_less_le_trans)
      have "\<exists>r. export_pages env (p + 1) acc' = Some r" for acc' using less.prems(1) b by (intro less.hyps) auto
      then show ?thesis using Inr False page_step [OF less.prems(1) b assms(2)] by (subst export_pages.simps) simp
    qed
  qed
qed

text \<open>
  What the pages add up to, from readers that show the same rows: as many rows as the table has, all
  of them rows of the table, and with one order for all pages the rows in that order.
\<close>

lemma export_pages_rows:
  assumes "\<forall>p. xe_reader env p = t \<and> xe_lost env p = None \<and> row_order (xe_order env p)" "int (length (t_ai t)) < 2 ^ 62"
    and "1 \<le> p" "(p - 1) * 100 < int (length (t_ai t)) + 100" "export_pages env p acc = Some (Inr l)"
  shows "\<exists>rows. l = acc @ map (ToOrderAIDto (xe_uuid_string env)) rows \<and> set rows \<subseteq> set (t_ai t) \<and>
    length rows = length (t_ai t) - nat ((p - 1) * 100) \<and>
    ((\<forall>q. xe_order env q = ord) \<longrightarrow> rows = drop (nat ((p - 1) * 100)) (ord (t_ai t)))"
  using assms(3-)
proof (induction "nat (int (length (t_ai t)) + 100 - (p - 1) * 100)" arbitrary: p acc rule: less_induct)
  case less
  let ?ord = "xe_order env p" and ?k = "nat ((p - 1) * 100)"
  have env: "xe_reader env p = t" "xe_lost env p = None" "row_order ?ord" using assms(1) by simp_all
  have len: "length (?ord (t_ai t)) = length (t_ai t)" by (rule row_order_simps(1) [OF env(3)])
  note p = page_range [OF less.prems(1,2) assms(2)]
  have f: "xe_fault env p = None"
    using less.prems(3) by (cases "xe_fault env p") (simp_all add: export_pages.simps [of env p] GetAllAiDataset_def)
  obtain orders where o': "GetAllAiDataset ?ord None None p 100 t = Inr orders"
    using ai_pages.page [OF less.prems(1) p(1) _ p(2)] by simp
  have orders: "orders = take 100 (drop ?k (?ord (t_ai t)))" using ai_pages.page [OF less.prems(1) p(1) _ p(2)] o' by simp
  show ?case
  proof (cases "orders = []")
    case True
    have none: "drop ?k (?ord (t_ai t)) = []" using ai_pages.page_empty_iff [OF less.prems(1) p(1) _ p(2) o'] True by simp
    moreover have "l = acc" using less.prems(3) True by (simp add: export_pages.simps [of env p] env f o')
    ultimately show ?thesis using len by (intro exI [of _ "[]"]) auto
  next
    case False
    have b: "(p - 1) * 100 < int (length (t_ai t))" using dataset_page_bound [OF o' False less.prems(1) p(2)] len by simp
    have "export_pages env (p + 1) (acc @ map (ToOrderAIDto (xe_uuid_string env)) orders) = Some (Inr l)"
      using less.prems(3) False page_step [OF less.prems(1) b assms(2)] by (simp add: export_pages.simps [of env p] env f o')
    then have "\<exists>rows. l = (acc @ map (ToOrderAIDto (xe_uuid_string env)) orders) @ map (ToOrderAIDto (xe_uuid_string env)) rows \<and>
        set rows \<subseteq> set (t_ai t) \<and> length rows = length (t_ai t) - nat ((p + 1 - 1) * 100) \<and>
        ((\<forall>q. xe_order env q = ord) \<longrightarrow> rows = drop (nat ((p + 1 - 1) * 100)) (ord (t_ai t)))"
      using less.prems(1) b by (intro less.hyps) auto
    then obtain rows where rows: "l = acc @ map (ToOrderAIDto (xe_uuid_string env)) (orders @ rows)" "set rows \<subseteq> set (t_ai t)"
      "length rows = length (t_ai t) - nat (p * 100)" "(\<forall>q. xe_order env q = ord) \<longrightarrow> rows = drop (nat (p * 100)) (ord (t_ai t))" by auto
    have k: "nat (p * 100) = ?k + 100" using less.prems(1) by (simp add: nat_diff_distrib nat_mult_distrib algebra_simps)
    have "set orders \<subseteq> set (t_ai t)"
      unfolding orders row_order_simps(2) [OF env(3), of "t_ai t", symmetric] by (meson in_set_dropD in_set_takeD subsetI)
    moreover have "length orders + (length (t_ai t) - (?k + 100)) = length (t_ai t) - ?k" using len by (simp add: orders)
    moreover have "orders @ drop (?k + 100) (ord (t_ai t)) = drop ?k (ord (t_ai t))" if "\<forall>q. xe_order env q = ord"
      using that orders append_take_drop_id [of 100 "drop ?k (ord (t_ai t))"] by (simp add: add.commute)
    ultimately show ?thesis using rows by (intro exI [of _ "orders @ rows"]) (auto simp: k)
  qed
qed

text \<open>
  Nothing in the query makes PostgreSQL use one order: with another order for the second page, the
  export of 101 rows repeats one of them and misses another.
\<close>

lemma export_repeats_without_order:
  assumes "length (t_ai t) = 101" "env = \<lparr>xe_reader = \<lambda>_. t, xe_order = \<lambda>p. if p = 1 then (\<lambda>rows. rows) else rev, xe_fault = \<lambda>_. None,
    xe_lost = \<lambda>_. None, xe_uuid_string = us\<rparr>"
  shows "export_pages env 1 [] = Some (Inr (map (ToOrderAIDto us) (take 100 (t_ai t) @ [hd (t_ai t)])))"
proof -
  obtain x xs where t: "t_ai t = x # xs" "length xs = 100" using assms(1) by (cases "t_ai t") auto
  have third: "export_pages env 3 acc = Some (Inr acc)" for acc
    by (subst export_pages.simps) (simp add: assms GetAllAiDataset_def page_rows_def wrap64_def)
  have second: "export_pages env 2 acc = Some (Inr (acc @ [ToOrderAIDto us x]))" for acc
    by (subst export_pages.simps) (simp add: assms(2) t third [unfolded assms(2)] GetAllAiDataset_def page_rows_def wrap64_def)
  show ?thesis
    by (subst export_pages.simps) (simp add: assms(2) t second [unfolded assms(2)] GetAllAiDataset_def page_rows_def wrap64_def)
qed

text \<open>A connection lost before the first row of a page looks like the end of the table.\<close>

lemma export_truncates_silently:
  assumes "xe_fault env p = None" "xe_lost env p = Some 0"
  shows "export_pages env p acc = Some (Inr acc)"
  using assms by (subst export_pages.simps) (simp add: GetAllAiDataset_def Let_def split: sum.split)

text \<open>
  Property C38. The seeder always ends, and its export is as complete as the query allows: as long as no
  reader shows more than \<open>2 ^ 62\<close> rows, the program ends whatever fails and in whatever order the rows
  of each page come. When it reports an exported dataset, read from readers that show what was just
  seeded and over connections that hold, the file holds as many records as the table has rows, each of
  them a row, and the right count; and if PostgreSQL used the same order for every page, which
  the query does not ask for, the file holds every row exactly once.
\<close>

theorem dataset_export_complete:
  assumes "\<forall>t' p. int (length (t_ai (su_shown env t' p))) \<le> int n" "int n < 2 ^ 62" "\<forall>p. row_order (su_order env p)"
  shows "\<exists>out t'. user_seeder flags env t = Some (out, t') \<and>
     (\<forall>file r. out = SeedExported file r \<longrightarrow> (\<forall>p. su_shown env t' p = t' \<and> su_lost env p = None) \<longrightarrow>
        file = AiDatasetFile \<and> length (res_Orders r) = length (t_ai t') \<and> res_Count r = int (length (t_ai t')) \<and>
        set (res_Orders r) \<subseteq> ToOrderAIDto (su_uuid_string env) ` set (t_ai t') \<and>
        ((\<forall>p. su_order env p = su_order env 1) \<longrightarrow> mset (res_Orders r) = mset (map (ToOrderAIDto (su_uuid_string env)) (t_ai t'))))"
proof -
  let ?x = "\<lambda>t'. \<lparr>xe_reader = su_shown env t', xe_order = su_order env, xe_fault = su_fault env, xe_lost = su_lost env,
    xe_uuid_string = su_uuid_string env\<rparr>"
  let ?full = "\<lambda>t' l. length l = length (t_ai t') \<and> set l \<subseteq> ToOrderAIDto (su_uuid_string env) ` set (t_ai t') \<and>
    ((\<forall>p. su_order env p = su_order env 1) \<longrightarrow> mset l = mset (map (ToOrderAIDto (su_uuid_string env)) (t_ai t')))"
  have ends: "\<exists>r. export_pages (?x t') 1 [] = Some r" for t' using assms by (intro export_pages_ends [of _ n]) simp_all
  have export: "\<exists>out. export_dataset env t' = Some out \<and>
      (\<forall>file r. out = SeedExported file r \<longrightarrow> (\<forall>p. su_shown env t' p = t' \<and> su_lost env p = None) \<longrightarrow>
        file = AiDatasetFile \<and> ?full t' (res_Orders r) \<and> res_Count r = int (length (t_ai t')))" for t'
  proof -
    obtain r where r: "export_pages (?x t') 1 [] = Some r" using ends by blast
    have full: "?full t' l" if l: "r = Inr l" and sh: "\<forall>p. su_shown env t' p = t' \<and> su_lost env p = None" for l
    proof -
      have "int (length (t_ai t')) < 2 ^ 62" using assms sh by (metis order_le_less_trans)
      then obtain rows where "l = map (ToOrderAIDto (su_uuid_string env)) rows" "set rows \<subseteq> set (t_ai t')" "length rows = length (t_ai t')"
        "(\<forall>p. su_order env p = su_order env 1) \<longrightarrow> rows = su_order env 1 (t_ai t')"
        using export_pages_rows [of "?x t'" t' 1 "[]" l "su_order env 1"] r l sh assms(3) by auto
      then show ?thesis using assms(3) by (auto simp: row_order_def)
    qed
    show ?thesis
      using full by (cases r) (auto simp: export_dataset_def r Let_def split: sum.split option.split)
  qed
  then show ?thesis
    by (fastforce simp: user_seeder_def split: sum.split option.split prod.split fn_outcome.split)
qed

definition dataset_example :: Tables where
  "dataset_example = no_rows\<lparr>t_ai := [seed_order_row seed_flags_example seed_env_example (AtOrder 1 1 0) 101 1001
     \<lparr>uh_orderCount = 1, uh_totalAmount = f64_zero, uh_avgAmount = f64_zero\<rparr>]\<rparr>"

definition seeder_env_example :: SeederEnv where
  "seeder_env_example = \<lparr>su_load = Inr \<lparr>uc_PrimaryDbAddr = ''primary'', uc_ReadDbAddr = [], uc_MaxDbCons = 4, uc_MinDbCons = 1,
       uc_AesKey = b64_encode key_example\<rparr>,
     su_pools = \<lparr>pw_parse = (\<lambda>_. None), pw_create = (\<lambda>_. None), pw_ping = (\<lambda>_. None)\<rparr>,
     su_source = None, su_migrate = (\<lambda>_. None), su_up = Some ErrNoChange, su_seed = seed_env_example, su_begin = None, su_commit = None,
     su_shown = (\<lambda>t p. if length (t_ai t) \<le> 1000 then t else no_rows), su_order = (\<lambda>_ rows. rows), su_fault = (\<lambda>_. None), su_lost = (\<lambda>_. None),
     su_uuid_string = (\<lambda>u. show_nat (unat u)), su_now = 0, su_marshal = (\<lambda>_. Inr ''{}''), su_mkdir = None, su_write = (\<lambda>_ _. None)\<rparr>"

theorem dataset_export_complete_witness:
  "\<exists>r. user_seeder (seed_flags_example\<lparr>sf_noOfUsers := 0, sf_exportAiData := True\<rparr>) seeder_env_example dataset_example =
       Some (SeedExported AiDatasetFile r, dataset_example) \<and> length (res_Orders r) = 1 \<and> res_Count r = 1"
proof -
  let ?flags = "seed_flags_example\<lparr>sf_noOfUsers := 0, sf_exportAiData := True\<rparr>" and ?t = dataset_example
  let ?x = "\<lparr>xe_reader = su_shown seeder_env_example ?t, xe_order = su_order seeder_env_example, xe_fault = su_fault seeder_env_example, xe_lost = su_lost seeder_env_example,
    xe_uuid_string = su_uuid_string seeder_env_example\<rparr>"
  have "\<forall>t' p. int (length (t_ai (su_shown seeder_env_example t' p))) \<le> int 1000"
    "\<forall>p. row_order (su_order seeder_env_example p)"
    by (simp_all add: seeder_env_example_def no_rows_def)
  from dataset_export_complete [OF this(1) _ this(2), of ?flags ?t] obtain out t' where u: "user_seeder ?flags seeder_env_example ?t = Some (out, t')"
    and full: "\<And>file r. out = SeedExported file r \<Longrightarrow> (\<forall>p. su_shown seeder_env_example t' p = t' \<and> su_lost seeder_env_example p = None) \<Longrightarrow>
      length (res_Orders r) = length (t_ai t') \<and> res_Count r = int (length (t_ai t'))" by auto
  have "export_pages ?x 2 acc = Some (Inr acc)" for acc
    by (subst export_pages.simps) (simp add: seeder_env_example_def dataset_example_def GetAllAiDataset_def page_rows_def wrap64_def)
  then have "\<exists>l. export_pages ?x 1 [] = Some (Inr l)"
    by (subst export_pages.simps) (simp add: seeder_env_example_def dataset_example_def GetAllAiDataset_def page_rows_def wrap64_def)
  then have "\<exists>r. export_dataset seeder_env_example ?t = Some (SeedExported AiDatasetFile r)"
    by (auto simp: export_dataset_def) (simp add: seeder_env_example_def Let_def)
  moreover have "user_seeder ?flags seeder_env_example ?t = map_option (\<lambda>r. (r, ?t)) (export_dataset seeder_env_example ?t)"
    by (simp add: user_seeder_def) (simp add: seeder_env_example_def DecodeString_def key_example_def database_New_def newPool_def user_db_config_def
      RunMigrations_def ErrNoChange_def seed_data_def seed_users_def WithTransaction_def Begin_def Commit_def IsEmpty_def Let_def)
  ultimately obtain r where r: "user_seeder ?flags seeder_env_example ?t = Some (SeedExported AiDatasetFile r, ?t)" by auto
  have "\<forall>p. su_shown seeder_env_example ?t p = ?t \<and> su_lost seeder_env_example p = None"
    by (simp add: seeder_env_example_def dataset_example_def)
  then show ?thesis using r u full by (auto simp: dataset_example_def)
qed

end
