(* ===== verification/Order_Seeder.thy ===== *)
theory Order_Seeder
  imports Order_App Paging
begin

text \<open>
  \<open>services/order-api/cmd/seed/order_seeder.go\<close>: the program that loads the order API. A producer
  walks the users page by page and puts one job per order into a bounded channel; a pool of workers
  takes jobs, waits for the rate limiter and posts each order, counting what happens.

  \<open>enqueue_pages\<close> is the producer alone, with the answers of the database and of the channel as
  arguments; \<open>pstep\<close> interleaves producer, channel and workers, and says when a send finds room. The rate limiter
  (\<open>golang.org/x/time/rate\<close>) is third-party code: a wait ends, with an error or not.
\<close>

subsection \<open>Flags\<close>

record OrderSeedFlags =
  fl_noOfOrders :: int
  fl_maxConcurrentRequests :: int
  fl_maxAccountPerUser :: int
  fl_noOfOrdersPerAccount :: int
  fl_minOrderAmount :: float64
  fl_maxOrderAmount :: float64
  fl_orderApiURL :: string
  fl_userPageSize :: int
  fl_rps :: int
  fl_rpsBurst :: int
  fl_httpClientTimeoutMs :: int
  fl_responseHeaderTimeoutS :: int
  fl_idleConnTimeoutS :: int
  fl_maxIdleConns :: int
  fl_maxIdleConnsPerHost :: int

record SeedOrder =
  so_IdempotencyID :: uuid
  so_AccountID :: uuid
  so_Amount :: float64
  so_Currency :: string

record seed_job =
  jb_userID :: uuid
  jb_order :: SeedOrder

text \<open>The limiter is its rate and its burst; the counters of the struct are in the pool below.\<close>

record Seeder =
  sr_noOfAccountPerUser :: "8 word"
  sr_noOfOrdersPerAccount :: "8 word"
  sr_minAmount :: float64
  sr_maxAmount :: float64
  sr_apiURL :: string
  sr_workers :: int
  sr_limit :: int
  sr_burst :: int

text \<open>The checks and conversions of \<open>main\<close>; an error is where it logs with \<open>Fatal\<close>.\<close>

definition NewSeeder :: "OrderSeedFlags \<Rightarrow> Seeder result" where
  "NewSeeder flags =
     (let (minA, maxA) = (if f64_lt (fl_maxOrderAmount flags) (fl_minOrderAmount flags)
            then (fl_maxOrderAmount flags, fl_minOrderAmount flags) else (fl_minOrderAmount flags, fl_maxOrderAmount flags))
      in if 100 < fl_maxAccountPerUser flags then Inl (ErrorString ''maxAccountPerUser_cannot_be_greater_than_100'')
         else if 100 < fl_noOfOrdersPerAccount flags then Inl (ErrorString ''noOfOrdersPerAccount_cannot_be_greater_than_100'')
         else if fl_rps flags \<le> 0 then Inl (ErrorString ''rps_must_be_positive'')
         else Inr \<lparr>sr_noOfAccountPerUser = of_int (fl_maxAccountPerUser flags),
                sr_noOfOrdersPerAccount = of_int (fl_noOfOrdersPerAccount flags),
                sr_minAmount = minA, sr_maxAmount = maxA, sr_apiURL = fl_orderApiURL flags,
                sr_workers = fl_maxConcurrentRequests flags, sr_limit = fl_rps flags,
                sr_burst = (if fl_rpsBurst flags \<le> 0 then fl_rps flags else fl_rpsBurst flags)\<rparr>)"

text \<open>The HTTP client of the seeder; its durations are products in int64.\<close>

record SeedHttpClient =
  sh_Timeout :: duration
  sh_MaxIdleConns :: int
  sh_MaxIdleConnsPerHost :: int
  sh_IdleConnTimeout :: duration
  sh_ResponseHeaderTimeout :: duration
  sh_ForceAttemptHTTP2 :: bool
  sh_DialTimeout :: duration
  sh_DialKeepAlive :: duration

definition seeder_http_client :: "OrderSeedFlags \<Rightarrow> SeedHttpClient" where
  "seeder_http_client flags = \<lparr>sh_Timeout = wrap64 (fl_httpClientTimeoutMs flags * 1000000),
     sh_MaxIdleConns = fl_maxIdleConns flags, sh_MaxIdleConnsPerHost = fl_maxIdleConnsPerHost flags,
     sh_IdleConnTimeout = wrap64 (fl_idleConnTimeoutS flags * Second),
     sh_ResponseHeaderTimeout = wrap64 (fl_responseHeaderTimeoutS flags * Second),
     sh_ForceAttemptHTTP2 = True, sh_DialTimeout = 3 * Second, sh_DialKeepAlive = 30 * Second\<rparr>"

text \<open>\<open>main\<close> up to the call of \<open>Run\<close>: configuration, database, flags.\<close>

definition order_seeder_start :: "OrderApiConfig result \<Rightarrow> PoolWorld \<Rightarrow> OrderSeedFlags \<Rightarrow> (DbHandle \<times> SeedHttpClient \<times> Seeder) result" where
  "order_seeder_start load pools flags =
     (case load of
        Inl err \<Rightarrow> Inl err
      | Inr cfg \<Rightarrow>
          (case fst (database_New pools (order_db_config cfg)) of
             Inl err \<Rightarrow> Inl err
           | Inr db \<Rightarrow>
               (case NewSeeder flags of
                  Inl err \<Rightarrow> Inl err
                | Inr seeder \<Rightarrow> Inr (db, seeder_http_client flags, seeder))))"

definition go_min :: "int \<Rightarrow> int \<Rightarrow> int" where
  "go_min a b = (if a < b then a else b)"

subsection \<open>The producer\<close>

datatype order_point = OrderPoint int uuid uuid nat

text \<open>
  How the \<open>select\<close> around a send ends: the channel takes the job, the context is done, or neither ever
  happens because the channel is full and nobody receives.
\<close>

datatype send_end = JobTaken | CtxDone | NeverTaken

record EnqueueEnv =
  ne_reader :: "int \<Rightarrow> Tables"
  ne_user_order :: "int \<Rightarrow> User row_order"
  ne_users_fault :: "int \<Rightarrow> go_error option"
  ne_account_reader :: "int \<Rightarrow> uuid \<Rightarrow> Tables"
  ne_account_order :: "int \<Rightarrow> uuid \<Rightarrow> Account row_order"
  ne_accounts_fault :: "int \<Rightarrow> uuid \<Rightarrow> go_error option"
  ne_uuid :: "order_point \<Rightarrow> uuid"
  ne_float :: "order_point \<Rightarrow> float64"
  ne_select :: "order_point \<Rightarrow> send_end"

definition seed_job_at :: "Seeder \<Rightarrow> EnqueueEnv \<Rightarrow> order_point \<Rightarrow> uuid \<Rightarrow> Account \<Rightarrow> seed_job" where
  "seed_job_at s env pt userID acc =
     \<lparr>jb_userID = userID,
      jb_order = \<lparr>so_IdempotencyID = ne_uuid env pt, so_AccountID = ac_ID acc,
        so_Amount = f64_add (f64_mul (ne_float env pt) (f64_sub (sr_maxAmount s) (sr_minAmount s))) (sr_minAmount s),
        so_Currency = ac_Currency acc\<rparr>\<rparr>"

text \<open>
  The loops keep what remains to be enqueued and what was. When the context is done the \<open>break\<close> of the
  inner \<open>select\<close> leaves the \<open>select\<close> only and the loop goes on. A loop that never returns, because a send
  blocks for ever or because the pages do not end, is \<open>None\<close>.
\<close>

type_synonym enqueued = "int \<times> seed_job list"

fun enqueue_orders :: "Seeder \<Rightarrow> EnqueueEnv \<Rightarrow> int \<Rightarrow> uuid \<Rightarrow> Account \<Rightarrow> nat list \<Rightarrow> enqueued \<Rightarrow> enqueued option" where
  "enqueue_orders s env page userID acc [] st = Some st"
| "enqueue_orders s env page userID acc (j # js) (remaining, jobs) =
     (if remaining \<le> 0 then Some (remaining, jobs)
      else let pt = OrderPoint page userID (ac_ID acc) j
        in case ne_select env pt of
          CtxDone \<Rightarrow> enqueue_orders s env page userID acc js (remaining, jobs)
        | JobTaken \<Rightarrow> enqueue_orders s env page userID acc js (remaining - 1, jobs @ [seed_job_at s env pt userID acc])
        | NeverTaken \<Rightarrow> None)"

fun enqueue_accounts :: "Seeder \<Rightarrow> EnqueueEnv \<Rightarrow> int \<Rightarrow> uuid \<Rightarrow> Account list \<Rightarrow> enqueued \<Rightarrow> enqueued option" where
  "enqueue_accounts s env page userID [] st = Some st"
| "enqueue_accounts s env page userID (acc # accs) st =
     (if fst st \<le> 0 then Some st
      else case enqueue_orders s env page userID acc [0..<unat (sr_noOfOrdersPerAccount s)] st of
        None \<Rightarrow> None
      | Some st' \<Rightarrow> enqueue_accounts s env page userID accs st')"

fun enqueue_users :: "Seeder \<Rightarrow> EnqueueEnv \<Rightarrow> int \<Rightarrow> User list \<Rightarrow> enqueued \<Rightarrow> (go_error option \<times> enqueued) option" where
  "enqueue_users s env page [] st = Some (None, st)"
| "enqueue_users s env page (u # us) st =
     (if fst st \<le> 0 then Some (None, st)
      else case GetAccountsByUserID (ne_account_order env page (us_ID u)) (ne_accounts_fault env page (us_ID u)) (us_ID u) 1
             (uint (sr_noOfAccountPerUser s)) (ne_account_reader env page (us_ID u)) of
        Inl err \<Rightarrow> Some (Some (WrapError ''failed_to_get_accounts: '' err), st)
      | Inr accounts \<Rightarrow>
          (case enqueue_accounts s env page (us_ID u) accounts st of
             None \<Rightarrow> None
           | Some st' \<Rightarrow> enqueue_users s env page us st'))"

partial_function (option) enqueue_pages ::
  "Seeder \<Rightarrow> EnqueueEnv \<Rightarrow> int \<Rightarrow> int \<Rightarrow> enqueued \<Rightarrow> (go_error option \<times> enqueued) option" where
  "enqueue_pages s env userPageSize page st =
     (if fst st \<le> 0 then Some (None, st)
      else case FindUsers (ne_user_order env page) (ne_users_fault env page) page userPageSize (ne_reader env page) of
        Inl err \<Rightarrow> Some (Some (WrapError ''failed_to_get_users: '' err), st)
      | Inr users \<Rightarrow>
          if users = [] then Some (None, st)
          else case enqueue_users s env page users st of
            None \<Rightarrow> None
          | Some (Some err, st') \<Rightarrow> Some (Some err, st')
          | Some (None, st') \<Rightarrow> enqueue_pages s env userPageSize (wrap64 (page + 1)) st')"

declare enqueue_pages.simps [code]

subsection \<open>What the producer enqueues\<close>

text \<open>
  The reference: for each user in the order \<open>uo\<close> in which they are read, for each of its first accounts
  in the order \<open>ao\<close> in which these are read, as many orders as asked for; of this sequence the first \<open>tot\<close>.
\<close>

definition job_target :: "seed_job \<Rightarrow> uuid \<times> uuid" where
  "job_target j = (jb_userID j, so_AccountID (jb_order j))"

definition user_targets :: "Seeder \<Rightarrow> (uuid \<Rightarrow> Account row_order) \<Rightarrow> Tables \<Rightarrow> User \<Rightarrow> (uuid \<times> uuid) list" where
  "user_targets s ao t u = concat (map (\<lambda>a. replicate (unat (sr_noOfOrdersPerAccount s)) (us_ID u, ac_ID a))
     (take (unat (sr_noOfAccountPerUser s)) (ao (us_ID u) (filter (\<lambda>a. ac_UserID a = us_ID u) (t_accounts t)))))"

definition seed_targets :: "Seeder \<Rightarrow> User row_order \<Rightarrow> (uuid \<Rightarrow> Account row_order) \<Rightarrow> Tables \<Rightarrow> (uuid \<times> uuid) list" where
  "seed_targets s uo ao t = concat (map (user_targets s ao t) (uo (t_users t)))"

text \<open>
  A state of the loops accounts for \<open>tot\<close> orders: those enqueued and those that remain, never
  fewer than none.
\<close>

definition accounts_for :: "int \<Rightarrow> int \<times> seed_job list \<Rightarrow> bool" where
  "accounts_for tot st \<longleftrightarrow> 0 \<le> fst st \<and> fst st + int (length (snd st)) = tot"

text \<open>Enqueueing along the targets \<open>ts\<close>: the jobs are extended by the first \<open>remaining\<close> of them.\<close>

definition enqueues :: "(uuid \<times> uuid) list \<Rightarrow> int \<times> seed_job list \<Rightarrow> int \<times> seed_job list \<Rightarrow> bool" where
  "enqueues ts st st' \<longleftrightarrow> map job_target (snd st') = map job_target (snd st) @ take (nat (fst st)) ts \<and>
     fst st' = fst st - int (length (take (nat (fst st)) ts))"

lemma enqueues_none: "enqueues [] st st" "fst st \<le> 0 \<Longrightarrow> enqueues ts st st"
  by (simp_all add: enqueues_def)

lemma enqueues_trans:
  assumes "enqueues ts st st1" "enqueues us st1 st2" "0 \<le> fst st"
  shows "enqueues (ts @ us) st st2"
proof -
  have "nat (fst st1) = nat (fst st) - length ts"
    using assms(1,3) by (auto simp: enqueues_def min_def)
  then show ?thesis using assms by (auto simp: enqueues_def)
qed

lemma enqueues_nonneg: "enqueues ts st st' \<Longrightarrow> 0 \<le> fst st \<Longrightarrow> 0 \<le> fst st'"
  by (auto simp: enqueues_def)

lemma enqueue_orders_accounts_for:
  "enqueue_orders s env page u a js st = Some st' \<Longrightarrow> accounts_for tot st \<Longrightarrow> accounts_for tot st'"
  by (induction s env page u a js st rule: enqueue_orders.induct) (auto simp: accounts_for_def Let_def split: if_splits send_end.splits)

lemma enqueue_accounts_accounts_for:
  "enqueue_accounts s env page u as st = Some st' \<Longrightarrow> accounts_for tot st \<Longrightarrow> accounts_for tot st'"
  by (induction s env page u as st rule: enqueue_accounts.induct) (auto dest: enqueue_orders_accounts_for split: if_splits option.splits)

lemma enqueue_users_accounts_for:
  "enqueue_users s env page us st = Some r \<Longrightarrow> accounts_for tot st \<Longrightarrow> accounts_for tot (snd r)"
  by (induction s env page us st rule: enqueue_users.induct)
    (auto dest: enqueue_accounts_accounts_for split: if_splits option.splits sum.splits)

text \<open>As long as no send blocks for ever the loops over orders, accounts and users return.\<close>

definition sends_end :: "EnqueueEnv \<Rightarrow> bool" where
  "sends_end env \<longleftrightarrow> (\<forall>pt. ne_select env pt \<noteq> NeverTaken)"

lemma enqueue_orders_ends: "sends_end env \<Longrightarrow> \<exists>st'. enqueue_orders s env page u a js st = Some st'"
  by (induction s env page u a js st rule: enqueue_orders.induct) (auto simp: sends_end_def Let_def split: send_end.split)

lemma enqueue_accounts_ends: "sends_end env \<Longrightarrow> \<exists>st'. enqueue_accounts s env page u as st = Some st'"
proof (induction "as" arbitrary: st)
  case (Cons a "as")
  obtain st1 where "enqueue_orders s env page u a [0..<unat (sr_noOfOrdersPerAccount s)] st = Some st1"
    using enqueue_orders_ends [OF Cons.prems] by blast
  then show ?case using Cons by simp
qed simp

lemma enqueue_users_ends: "sends_end env \<Longrightarrow> \<exists>r. enqueue_users s env page us st = Some r"
proof (induction us arbitrary: st)
  case (Cons u us)
  have "\<exists>st1. enqueue_accounts s env page (us_ID u) as st = Some st1" for "as" by (rule enqueue_accounts_ends [OF Cons.prems])
  then show ?case using Cons by (auto split: sum.split option.split) (metis option.distinct(1))
qed simp

text \<open>
  Without a cancelled context, a blocked send or a fault, and with one order of the users for all pages,
  each level follows its targets.
\<close>

definition enqueue_undisturbed :: "EnqueueEnv \<Rightarrow> User row_order \<Rightarrow> (uuid \<Rightarrow> Account row_order) \<Rightarrow> Tables \<Rightarrow> bool" where
  "enqueue_undisturbed env uo ao t \<longleftrightarrow> (\<forall>pt. ne_select env pt = JobTaken) \<and>
     (\<forall>p. ne_reader env p = t \<and> ne_users_fault env p = None \<and> ne_user_order env p = uo) \<and>
     (\<forall>p u. ne_account_reader env p u = t \<and> ne_accounts_fault env p u = None \<and> ne_account_order env p u = ao u)"

lemma enqueue_orders_follow:
  assumes "\<forall>pt. ne_select env pt = JobTaken"
  shows "\<exists>st'. enqueue_orders s env page u a js st = Some st' \<and> enqueues (replicate (length js) (u, ac_ID a)) st st'"
proof (induction js arbitrary: st)
  case (Cons j js)
  obtain r q where st: "st = (r, q)" by fastforce
  show ?case
  proof (cases "r \<le> 0")
    case True
    then show ?thesis by (simp add: st enqueues_none)
  next
    case False
    let ?st = "(r - 1, q @ [seed_job_at s env (OrderPoint page u (ac_ID a) j) u a])"
    have one: "enqueues [(u, ac_ID a)] st ?st" using False by (simp add: enqueues_def st job_target_def seed_job_at_def take_Cons')
    obtain st' where st': "enqueue_orders s env page u a js ?st = Some st'" "enqueues (replicate (length js) (u, ac_ID a)) ?st st'"
      using Cons.IH by blast
    from enqueues_trans [OF one st'(2)] st'(1) False assms show ?thesis by (simp add: st)
  qed
qed (simp add: enqueues_none)

lemma enqueue_accounts_follow:
  assumes "\<forall>pt. ne_select env pt = JobTaken" "0 \<le> fst st"
  shows "\<exists>st'. enqueue_accounts s env page u as st = Some st' \<and>
    enqueues (concat (map (\<lambda>a. replicate (unat (sr_noOfOrdersPerAccount s)) (u, ac_ID a)) as)) st st'"
  using assms(2)
proof (induction "as" arbitrary: st)
  case (Cons a "as")
  obtain st1 where one: "enqueue_orders s env page u a [0..<unat (sr_noOfOrdersPerAccount s)] st = Some st1"
    "enqueues (replicate (unat (sr_noOfOrdersPerAccount s)) (u, ac_ID a)) st st1"
    using enqueue_orders_follow [OF assms(1), of s page u a "[0..<unat (sr_noOfOrdersPerAccount s)]" st] by auto
  obtain st' where rest: "enqueue_accounts s env page u as st1 = Some st'"
    "enqueues (concat (map (\<lambda>a. replicate (unat (sr_noOfOrdersPerAccount s)) (u, ac_ID a)) as)) st1 st'"
    using Cons.IH [OF enqueues_nonneg [OF one(2) Cons.prems]] by blast
  show ?case
  proof (cases "fst st \<le> 0")
    case False
    then show ?thesis using enqueues_trans [OF one(2) rest(2) Cons.prems] one(1) rest(1) by simp
  qed (simp add: enqueues_none)
qed (simp add: enqueues_none)

lemma user_accounts_page:
  "GetAccountsByUserID ord None u 1 (uint (n :: 8 word)) t =
     Inr (map (\<lambda>a. a\<lparr>ac_Balance := [], ac_OrderCount := 0, ac_AvgOrderAmount := []\<rparr>)
       (take (unat n) (ord (filter (\<lambda>a. ac_UserID a = u) (t_accounts t)))))"
  by (simp add: GetAccountsByUserID_def page_rows_def wrap64_def Let_def take_map)

lemma enqueue_users_follow:
  assumes "enqueue_undisturbed env uo ao t" "0 \<le> fst st"
  shows "\<exists>st'. enqueue_users s env page us st = Some (None, st') \<and> enqueues (concat (map (user_targets s ao t) us)) st st'"
  using assms(2)
proof (induction us arbitrary: st)
  case (Cons u us)
  let ?rows = "map (\<lambda>a. a\<lparr>ac_Balance := [], ac_OrderCount := 0, ac_AvgOrderAmount := []\<rparr>)
    (take (unat (sr_noOfAccountPerUser s)) (ao (us_ID u) (filter (\<lambda>a. ac_UserID a = us_ID u) (t_accounts t))))"
  have live: "\<forall>pt. ne_select env pt = JobTaken" using assms(1) by (simp add: enqueue_undisturbed_def)
  obtain st1 where one: "enqueue_accounts s env page (us_ID u) ?rows st = Some st1" "enqueues (user_targets s ao t u) st st1"
    using enqueue_accounts_follow [OF live Cons.prems, of s page "us_ID u" ?rows] by (auto simp: user_targets_def o_def)
  obtain st' where rest: "enqueue_users s env page us st1 = Some (None, st')" "enqueues (concat (map (user_targets s ao t) us)) st1 st'"
    using Cons.IH [OF enqueues_nonneg [OF one(2) Cons.prems]] by blast
  have q: "GetAccountsByUserID (ne_account_order env page (us_ID u)) (ne_accounts_fault env page (us_ID u)) (us_ID u) 1
      (uint (sr_noOfAccountPerUser s)) (ne_account_reader env page (us_ID u)) = Inr ?rows"
    using assms(1) user_accounts_page by (simp add: enqueue_undisturbed_def)
  show ?case
  proof (cases "fst st \<le> 0")
    case False
    then show ?thesis using enqueues_trans [OF one(2) rest(2) Cons.prems] one(1) rest(1) by (simp add: q)
  qed (simp add: enqueues_none)
qed (simp add: enqueues_none)

text \<open>The pages: a page that is not empty begins within the table, so the page numbers stay small.\<close>

lemma users_page_bound:
  assumes "FindUsers ord fault p sz t = Inr us" "us \<noteq> []" "1 \<le> p" "p < 2 ^ 63" "0 \<le> sz" "(p - 1) * sz < 2 ^ 63"
  shows "0 < sz" "(p - 1) * sz < int (length (ord (t_users t)))"
proof -
  have f: "fault = None" using assms(1) by (cases fault) (simp_all add: FindUsers_def)
  have page: "us = take (nat sz) (drop (nat ((p - 1) * sz)) (ord (t_users t)))"
    using user_pages.page [OF assms(3-6)] assms(1) by (simp add: f)
  then show sz: "0 < sz" using assms(2,5) by (cases "sz = 0") auto
  show "(p - 1) * sz < int (length (ord (t_users t)))"
    using user_pages.page_bound [OF assms(3,4) sz assms(6)] assms(1,2) by (simp add: f)
qed

lemma enqueue_pages_ends:
  assumes "\<forall>p. row_order (ne_user_order env p) \<and> length (t_users (ne_reader env p)) \<le> n" "int n + sz < 2 ^ 62" "sends_end env"
    and "1 \<le> p" "p \<le> int n + 1" "(p - 1) * sz < int n + max sz 1" "accounts_for tot st"
  shows "\<exists>err st'. enqueue_pages s env sz p st = Some (err, st') \<and> accounts_for tot st'"
  using assms(4-)
proof (induction "nat (int n + 2 - p)" arbitrary: p st rule: less_induct)
  case less
  let ?page = "FindUsers (ne_user_order env p) (ne_users_fault env p) p sz (ne_reader env p)"
  show ?case
  proof (cases "fst st \<le> 0 \<or> (\<exists>err. ?page = Inl err) \<or> ?page = Inr []")
    case True
    then show ?thesis using less.prems(4) by (cases st) (subst enqueue_pages.simps, auto)
  next
    case False
    then obtain us where us: "?page = Inr us" "us \<noteq> []" "0 < fst st" by (cases ?page) auto
    have sz: "0 \<le> sz" using us(1) by (cases "sz < 0") (auto simp: FindUsers_def page_rows_def Let_def split: option.splits)
    have p63: "p < 2 ^ 63" "(p - 1) * sz < 2 ^ 63" using less.prems(2,3) assms(2) sz by auto
    note b = users_page_bound [OF us(1,2) less.prems(1) p63(1) sz p63(2)]
    have "length (ne_user_order env p (t_users (ne_reader env p))) \<le> n" using assms(1) row_order_simps(1) by metis
    then have "(p - 1) * sz < int n" using b(2) by linarith
    moreover have "p - 1 \<le> (p - 1) * sz" using b(1) less.prems(1) by (simp add: mult_le_cancel_left1)
    moreover have "(p + 1 - 1) * sz = (p - 1) * sz + sz" by (simp add: algebra_simps)
    ultimately have next': "p + 1 \<le> int n + 1" "(p + 1 - 1) * sz < int n + max sz 1" by linarith+
    have w: "wrap64 (p + 1) = p + 1" using less.prems(1) next'(1) assms(2) sz by (intro wrap64_id) (simp add: int64_ok_def)
    obtain err st1 where e: "enqueue_users s env p us st = Some (err, st1)" using enqueue_users_ends [OF assms(3)] by (metis prod.collapse)
    have st1: "accounts_for tot st1" using enqueue_users_accounts_for [OF e less.prems(4)] by simp
    have "\<exists>err st'. enqueue_pages s env sz (p + 1) st1 = Some (err, st') \<and> accounts_for tot st'"
      using less.prems(1) next' st1 by (intro less.hyps) auto
    then show ?thesis using us e st1 by (cases st1) (subst enqueue_pages.simps, auto simp: w split: option.split)
  qed
qed

lemma enqueue_pages_follow:
  assumes "enqueue_undisturbed env uo ao t" "0 < sz" "int (length (uo (t_users t))) + sz < 2 ^ 62"
    and "1 \<le> p" "(p - 1) * sz < int (length (uo (t_users t))) + sz" "0 \<le> fst st"
    and "enqueue_pages s env sz p st = Some (err, st')"
  shows "err = None \<and> enqueues (concat (map (user_targets s ao t) (drop (nat ((p - 1) * sz)) (uo (t_users t))))) st st'"
  using assms(4-)
proof (induction "nat (int (length (uo (t_users t))) + sz - (p - 1) * sz)" arbitrary: p st rule: less_induct)
  case less
  have env: "ne_reader env p = t" "ne_users_fault env p = None" "ne_user_order env p = uo"
    using assms(1) by (simp_all add: enqueue_undisturbed_def)
  have "p - 1 \<le> (p - 1) * sz" using assms(2) less.prems(1) by (simp add: mult_le_cancel_left1)
  then have p: "p < 2 ^ 63" "(p - 1) * sz < 2 ^ 63" and w: "wrap64 (p + 1) = p + 1"
    using less.prems(1,2) assms(2,3) by (auto simp: int64_ok_def intro!: wrap64_id)
  obtain us where us: "FindUsers uo None p sz t = Inr us" using user_pages.page [OF less.prems(1) p(1) _ p(2)] assms(2) by simp
  note split = user_pages.page_split [OF less.prems(1) p(1) less_imp_le [OF assms(2)] p(2) us]
  show ?case
  proof (cases "fst st \<le> 0 \<or> us = []")
    case True
    have "us = [] \<Longrightarrow> drop (nat ((p - 1) * sz)) (uo (t_users t)) = []"
      using user_pages.page_empty_iff [OF less.prems(1) p(1) assms(2) p(2) us] by simp
    then show ?thesis using True less.prems(4) by (auto simp: enqueue_pages.simps [of s env sz p] env us enqueues_none split: if_splits)
  next
    case False
    obtain st1 where one: "enqueue_users s env p us st = Some (None, st1)" "enqueues (concat (map (user_targets s ao t) us)) st st1"
      using enqueue_users_follow [OF assms(1) less.prems(3)] by blast
    have rest: "enqueue_pages s env sz (p + 1) st1 = Some (err, st')"
      using less.prems(4) False by (simp add: enqueue_pages.simps [of s env sz p] env us one(1) w)
    have b: "(p - 1) * sz < int (length (uo (t_users t)))" using user_pages.page_bound [OF less.prems(1) p(1) assms(2) p(2) us] False by simp
    have m: "(p + 1 - 1) * sz = (p - 1) * sz + sz" by (simp add: algebra_simps)
    have "err = None \<and> enqueues (concat (map (user_targets s ao t) (drop (nat ((p + 1 - 1) * sz)) (uo (t_users t))))) st1 st'"
      using less.prems(1) b m assms(2) enqueues_nonneg [OF one(2) less.prems(3)] rest by (intro less.hyps) auto
    then show ?thesis using enqueues_trans [OF one(2) _ less.prems(3)] split by simp
  qed
qed

text \<open>
  Property C39. The producer of the order seeder ends and enqueues what was asked for, provided that no
  send on the bounded channel blocks for ever. Whatever the database and the context do, and in whatever
  order rows are returned, it then ends, never enqueues more than the \<open>tot\<close> orders asked for, and
  what it enqueued and what remains add up to \<open>tot\<close>. When moreover nothing fails, nothing is cancelled
  and PostgreSQL returns the users in the same order for every page, the jobs are, user by user and
  account by account in the orders in which these were read, exactly the first \<open>tot\<close> of the orders the
  flags ask for: it stops early only when the accounts are used up.
\<close>

theorem seeder_enqueues_exactly:
  assumes "\<forall>p. row_order (ne_user_order env p) \<and> length (t_users (ne_reader env p)) \<le> n" "int n + sz < 2 ^ 62" "0 \<le> tot" "sends_end env"
  shows "\<exists>err remaining jobs. enqueue_pages s env sz 1 (tot, []) = Some (err, remaining, jobs) \<and>
     0 \<le> remaining \<and> remaining + int (length jobs) = tot \<and>
     (enqueue_undisturbed env uo ao t \<and> 0 < sz \<longrightarrow> err = None \<and> map job_target jobs = take (nat tot) (seed_targets s uo ao t))"
proof -
  have "accounts_for tot (tot, [])" using assms(3) by (simp add: accounts_for_def)
  then have "\<exists>err st'. enqueue_pages s env sz 1 (tot, []) = Some (err, st') \<and> accounts_for tot st'"
    using assms by (intro enqueue_pages_ends [of _ n]) auto
  then obtain err remaining jobs where e: "enqueue_pages s env sz 1 (tot, []) = Some (err, remaining, jobs)"
    and a: "accounts_for tot (remaining, jobs)" by (metis prod.collapse)
  have "err = None \<and> map job_target jobs = take (nat tot) (seed_targets s uo ao t)" if "enqueue_undisturbed env uo ao t" "0 < sz"
  proof -
    have "row_order uo" "length (t_users t) \<le> n" using assms(1) that(1) by (metis enqueue_undisturbed_def)+
    then have "int (length (uo (t_users t))) + sz < 2 ^ 62" using assms(2) row_order_simps(1) [of uo "t_users t"] by linarith
    then show ?thesis
      using enqueue_pages_follow [OF that, of 1 "(tot, [])" s err "(remaining, jobs)"] e assms(3) that(2) by (simp add: enqueues_def seed_targets_def)
  qed
  then show ?thesis using e a by (auto simp: accounts_for_def)
qed

definition order_flags_example :: OrderSeedFlags where
  "order_flags_example = \<lparr>fl_noOfOrders = 3, fl_maxConcurrentRequests = 2, fl_maxAccountPerUser = 1, fl_noOfOrdersPerAccount = 2,
     fl_minOrderAmount = f64_of_int 10, fl_maxOrderAmount = f64_of_int 20, fl_orderApiURL = ''http://localhost:8081'',
     fl_userPageSize = 1, fl_rps = 200, fl_rpsBurst = 0, fl_httpClientTimeoutMs = 4000,
     fl_responseHeaderTimeoutS = 3, fl_idleConnTimeoutS = 30, fl_maxIdleConns = 1000, fl_maxIdleConnsPerHost = 1000\<rparr>"

definition seeder_example :: Seeder where
  "seeder_example = \<lparr>sr_noOfAccountPerUser = 1, sr_noOfOrdersPerAccount = 2, sr_minAmount = f64_of_int 10, sr_maxAmount = f64_of_int 20,
     sr_apiURL = ''http://localhost:8081'', sr_workers = 2, sr_limit = 200, sr_burst = 200\<rparr>"

definition seed_tables_example :: Tables where
  "seed_tables_example = \<lparr>t_users = [\<lparr>us_ID = 1, us_Username = ''user_1'', us_CreatedAt = 0, us_UpdatedAt = 0\<rparr>,
       \<lparr>us_ID = 2, us_Username = ''user_2'', us_CreatedAt = 0, us_UpdatedAt = 0\<rparr>],
     t_accounts = [Account_zero\<lparr>ac_ID := 11, ac_UserID := 1\<rparr>, Account_zero\<lparr>ac_ID := 22, ac_UserID := 2\<rparr>, Account_zero\<lparr>ac_ID := 12, ac_UserID := 1\<rparr>],
     t_orders = [], t_ai = []\<rparr>"

definition enqueue_env_example :: EnqueueEnv where
  "enqueue_env_example = \<lparr>ne_reader = (\<lambda>_. seed_tables_example), ne_user_order = (\<lambda>_ rows. rows), ne_users_fault = (\<lambda>_. None),
     ne_account_reader = (\<lambda>_ _. seed_tables_example), ne_account_order = (\<lambda>_ _. rev), ne_accounts_fault = (\<lambda>_ _. None),
     ne_uuid = (\<lambda>_. 9), ne_float = (\<lambda>_. f64_zero), ne_select = (\<lambda>_. JobTaken)\<rparr>"

theorem seeder_enqueues_exactly_witness:
  "\<exists>jobs. enqueue_pages seeder_example enqueue_env_example 1 1 (3, []) = Some (None, 0, jobs) \<and>
     map job_target jobs = [(1, 12), (1, 12), (2, 22)]"
proof -
  have b: "\<forall>p. row_order (ne_user_order enqueue_env_example p) \<and> length (t_users (ne_reader enqueue_env_example p)) \<le> 2"
    "sends_end enqueue_env_example"
    by (simp_all add: enqueue_env_example_def seed_tables_example_def sends_end_def)
  have u: "enqueue_undisturbed enqueue_env_example (\<lambda>rows. rows) (\<lambda>_. rev) seed_tables_example"
    by (simp add: enqueue_undisturbed_def enqueue_env_example_def)
  have t: "take 3 (seed_targets seeder_example (\<lambda>rows. rows) (\<lambda>_. rev) seed_tables_example) = [(1, 12), (1, 12), (2, 22)]"
    by code_simp
  obtain err remaining jobs where e: "enqueue_pages seeder_example enqueue_env_example 1 1 (3, []) = Some (err, remaining, jobs)"
      "remaining + int (length jobs) = 3" "err = None" "map job_target jobs = [(1, 12), (1, 12), (2, 22)]"
    using seeder_enqueues_exactly [OF b(1) _ _ b(2), of 1 3 seeder_example "\<lambda>rows. rows" "\<lambda>_. rev" seed_tables_example] u t by auto
  then have "length jobs = 3" by (metis length_map list.size(3,4) numeral_3_eq_3 One_nat_def add_0 add_Suc_right add.right_neutral plus_1_eq_Suc)
  then show ?thesis using e by simp
qed

subsection \<open>Sending one order\<close>

record SendEnv =
  sn_newRequest :: "go_error option"
  sn_do :: "int result"
  sn_requestID :: uuid

record SeedRequest =
  sq_Method :: string
  sq_URL :: string
  sq_Headers :: "(string \<times> string) list"
  sq_Body :: SeedOrder

text \<open>
  \<open>sendOrder\<close>: the request it sends, if it could be built, and whether the order counts as a
  success (the answer has status 201) or as a failure.
\<close>

definition sendOrder :: "(uuid \<Rightarrow> string) \<Rightarrow> Seeder \<Rightarrow> SendEnv \<Rightarrow> seed_job \<Rightarrow> SeedRequest option \<times> bool" where
  "sendOrder uuid_string s env j =
     (case sn_newRequest env of
        Some err \<Rightarrow> (None, False)
      | None \<Rightarrow>
          (let req = \<lparr>sq_Method = ''POST'', sq_URL = sr_apiURL s @ ''/api/v1/orders'',
                 sq_Headers = [(''Content-Type'', ''application/json''), (''X-Request-Id'', uuid_string (sn_requestID env)),
                   (''user_id'', uuid_string (jb_userID j))], sq_Body = jb_order j\<rparr>
           in (Some req, case sn_do env of Inl err \<Rightarrow> False | Inr status \<Rightarrow> status = 201)))"

subsection \<open>The channel and the workers\<close>

text \<open>
  A worker is idle at the channel, waits for the limiter with a job, has its request in flight,
  or has returned: because the channel is closed and empty, or because the limiter's wait failed,
  in which case its job is dropped. The producer enqueues while there is room and closes the channel.
  \<open>po_put\<close> are the jobs the channel took, \<open>po_posted\<close> those handed to \<open>sendOrder\<close>; the four counters are the code's.
\<close>

record Pool =
  po_queue :: "seed_job list"
  po_closed :: bool
  po_idle :: nat
  po_waiting :: "seed_job list"
  po_flying :: "seed_job list"
  po_finished :: nat
  po_dropped :: "seed_job list"
  po_put :: "seed_job list"
  po_posted :: "seed_job list"
  po_enqueued :: int
  po_sent :: int
  po_ok :: int
  po_fail :: int

text \<open>\<open>Run\<close> up to its loop: the channel and the wait group panic on negative sizes.\<close>

definition Run_start :: "Seeder \<Rightarrow> int \<Rightarrow> string + Pool" where
  "Run_start s totalOrders =
     (if go_min totalOrders 10000 < 0 then Inl ''makechan: size out of range''
      else if sr_workers s < 0 then Inl ''sync: negative WaitGroup counter''
      else Inr \<lparr>po_queue = [], po_closed = False, po_idle = nat (sr_workers s), po_waiting = [], po_flying = [], po_finished = 0,
             po_dropped = [], po_put = [], po_posted = [], po_enqueued = 0, po_sent = 0, po_ok = 0, po_fail = 0\<rparr>)"

inductive pstep :: "(uuid \<Rightarrow> string) \<Rightarrow> Seeder \<Rightarrow> int \<Rightarrow> Pool \<Rightarrow> Pool \<Rightarrow> bool" for us s totalOrders where
  Enqueue: "\<not> po_closed p \<Longrightarrow> int (length (po_queue p)) < go_min totalOrders 10000 \<Longrightarrow>
    pstep us s totalOrders p (p\<lparr>po_queue := po_queue p @ [j], po_put := j # po_put p, po_enqueued := po_enqueued p + 1\<rparr>)"
| CloseJobs: "\<not> po_closed p \<Longrightarrow> pstep us s totalOrders p (p\<lparr>po_closed := True\<rparr>)"
| TakeJob: "po_queue p = j # q \<Longrightarrow> po_idle p = Suc n \<Longrightarrow>
    pstep us s totalOrders p (p\<lparr>po_queue := q, po_idle := n, po_waiting := j # po_waiting p\<rparr>)"
| Admitted: "po_waiting p = a @ j # b \<Longrightarrow>
    pstep us s totalOrders p (p\<lparr>po_waiting := a @ b, po_flying := j # po_flying p, po_posted := j # po_posted p, po_sent := po_sent p + 1\<rparr>)"
| Interrupted: "po_waiting p = a @ j # b \<Longrightarrow>
    pstep us s totalOrders p (p\<lparr>po_waiting := a @ b, po_dropped := j # po_dropped p\<rparr>)"
| SendOk: "po_flying p = a @ j # b \<Longrightarrow> snd (sendOrder us s env j) \<Longrightarrow>
    pstep us s totalOrders p (p\<lparr>po_flying := a @ b, po_idle := Suc (po_idle p), po_ok := po_ok p + 1\<rparr>)"
| SendFail: "po_flying p = a @ j # b \<Longrightarrow> \<not> snd (sendOrder us s env j) \<Longrightarrow>
    pstep us s totalOrders p (p\<lparr>po_flying := a @ b, po_idle := Suc (po_idle p), po_fail := po_fail p + 1\<rparr>)"
| WorkerEnds: "po_closed p \<Longrightarrow> po_queue p = [] \<Longrightarrow> po_idle p = Suc n \<Longrightarrow>
    pstep us s totalOrders p (p\<lparr>po_idle := n, po_finished := Suc (po_finished p)\<rparr>)"

inductive_cases pstep_elim: "pstep us s totalOrders p p'"

text \<open>\<open>workersWG.Wait()\<close> returns when every worker has.\<close>

definition all_returned :: "Seeder \<Rightarrow> Pool \<Rightarrow> bool" where
  "all_returned s p \<longleftrightarrow> po_finished p + length (po_dropped p) = nat (sr_workers s)"

subsection \<open>Nothing is lost in the pool\<close>

text \<open>Jobs and workers are conserved, and a worker only finishes on an empty closed channel.\<close>

definition pool_inv :: "Seeder \<Rightarrow> Pool \<Rightarrow> bool" where
  "pool_inv s p \<longleftrightarrow>
     mset (po_put p) = mset (po_queue p) + mset (po_waiting p) + mset (po_dropped p) + mset (po_posted p) \<and>
     po_enqueued p = int (length (po_put p)) \<and> po_sent p = int (length (po_posted p)) \<and>
     po_sent p = po_ok p + po_fail p + int (length (po_flying p)) \<and>
     po_idle p + length (po_waiting p) + length (po_flying p) + length (po_dropped p) + po_finished p = nat (sr_workers s) \<and>
     (0 < po_finished p \<longrightarrow> po_closed p \<and> po_queue p = [])"

lemma pool_inv_counts:
  "pool_inv s p \<Longrightarrow> po_enqueued p = int (length (po_queue p)) + int (length (po_waiting p)) + int (length (po_dropped p)) + po_sent p"
  unfolding pool_inv_def by (metis of_nat_add size_mset size_union)

lemma pool_inv_start: "Run_start s tot = Inr p \<Longrightarrow> pool_inv s p"
  by (auto simp: Run_start_def pool_inv_def split: if_splits)

lemma pool_inv_step: "pstep us s tot p p' \<Longrightarrow> pool_inv s p \<Longrightarrow> pool_inv s p'"
  by (erule pstep_elim) (auto simp: pool_inv_def)

lemma pool_inv_reachable:
  assumes "(pstep us s tot)\<^sup>*\<^sup>* p0 p" "Run_start s tot = Inr p0"
  shows "pool_inv s p"
  using assms by (induction rule: rtranclp_induct) (auto intro: pool_inv_start pool_inv_step)

text \<open>After the channel is closed every step brings the pool closer to its end.\<close>

definition pool_work :: "Pool \<Rightarrow> nat" where
  "pool_work p = 4 * length (po_queue p) + 3 * length (po_waiting p) + 2 * length (po_flying p) + po_idle p"

lemma pool_work_decreases: "pstep us s tot p p' \<Longrightarrow> po_closed p \<Longrightarrow> pool_work p' < pool_work p \<and> po_closed p'"
  by (erule pstep_elim) (auto simp: pool_work_def)

lemma pool_stuck:
  assumes "\<forall>p'. \<not> pstep us s tot p p'" "po_closed p"
  shows "po_waiting p = [] \<and> po_flying p = [] \<and> po_idle p = 0"
proof (intro conjI)
  show w: "po_waiting p = []"
  proof (cases "po_waiting p")
    case (Cons j b)
    then have "po_waiting p = [] @ j # b" by simp
    then show ?thesis using pstep.Admitted assms(1) by blast
  qed
  show f: "po_flying p = []"
  proof (cases "po_flying p")
    case (Cons j b)
    then have e: "po_flying p = [] @ j # b" by simp
    show ?thesis using pstep.SendOk [OF e] pstep.SendFail [OF e] assms(1) by blast
  qed
  show "po_idle p = 0"
  proof (cases "po_idle p")
    case (Suc n)
    then show ?thesis using pstep.TakeJob [OF _ Suc] pstep.WorkerEnds [OF assms(2) _ Suc] assms(1) by (cases "po_queue p") blast+
  qed
qed

lemma all_returned_empty:
  assumes "pool_inv s p" "all_returned s p"
  shows "po_idle p = 0" "po_waiting p = []" "po_flying p = []"
proof -
  have "po_idle p + length (po_waiting p) + length (po_flying p) = 0"
    using assms unfolding pool_inv_def all_returned_def by linarith
  then show "po_idle p = 0" "po_waiting p = []" "po_flying p = []" by simp_all
qed

lemma all_returned_iff_stuck:
  assumes "pool_inv s p" "po_closed p"
  shows "all_returned s p \<longleftrightarrow> (\<forall>p'. \<not> pstep us s tot p p')"
proof
  assume "all_returned s p"
  from all_returned_empty [OF assms(1) this] show "\<forall>p'. \<not> pstep us s tot p p'" using assms(2) by (auto elim: pstep_elim)
next
  assume "\<forall>p'. \<not> pstep us s tot p p'"
  from pool_stuck [OF this assms(2)] show "all_returned s p" using assms(1) by (simp add: all_returned_def pool_inv_def)
qed

text \<open>
  Property C40. Once the channel is closed the worker pool drains. Every step the workers can take
  reduces the work left, and no step is left exactly when every worker has returned, so \<open>Run\<close>
  returns however the requests end and whichever worker goes first. Then every order that was sent
  counts as a success or a failure, and the orders the channel took are those that were sent, those
  dropped when the limiter's wait was interrupted, and those left in the channel; when no wait was
  interrupted and there is at least one worker, the orders sent are exactly the orders the channel
  took, each as often as it was enqueued.
\<close>

theorem seeder_pool_drains:
  assumes "Run_start s tot = Inr p0" "(pstep us s tot)\<^sup>*\<^sup>* p0 p" "po_closed p"
  shows "(\<forall>p'. pstep us s tot p p' \<longrightarrow> pool_work p' < pool_work p \<and> po_closed p') \<and>
     (all_returned s p \<longleftrightarrow> (\<forall>p'. \<not> pstep us s tot p p')) \<and>
     (all_returned s p \<longrightarrow> po_sent p = po_ok p + po_fail p \<and> po_sent p = int (length (po_posted p)) \<and>
        mset (po_put p) = mset (po_posted p) + mset (po_dropped p) + mset (po_queue p) \<and>
        (po_dropped p = [] \<and> 0 < sr_workers s \<longrightarrow> mset (po_posted p) = mset (po_put p)))"
proof -
  have inv: "pool_inv s p" by (rule pool_inv_reachable [OF assms(2,1)])
  have "po_sent p = po_ok p + po_fail p \<and> po_sent p = int (length (po_posted p)) \<and>
      mset (po_put p) = mset (po_posted p) + mset (po_dropped p) + mset (po_queue p) \<and>
      (po_dropped p = [] \<and> 0 < sr_workers s \<longrightarrow> mset (po_posted p) = mset (po_put p))" if "all_returned s p"
  proof -
    note empty = all_returned_empty [OF inv that]
    have "0 < po_finished p" if "po_dropped p = []" "0 < sr_workers s" using \<open>all_returned s p\<close> that by (simp add: all_returned_def)
    then show ?thesis using inv empty by (auto simp: pool_inv_def)
  qed
  then show ?thesis using pool_work_decreases assms(3) all_returned_iff_stuck [OF inv assms(3)] by blast
qed

subsection \<open>When a send finds room\<close>

text \<open>
  With a worker that has not been interrupted, a full channel gets room: the workers can finish what they
  hold and take a job. So a send can only block for ever when no worker is left.
\<close>

lemma idle_worker_takes:
  assumes "po_idle p = Suc n" "po_queue p = j # q"
  shows "\<exists>p'. (pstep us s tot)\<^sup>*\<^sup>* p p' \<and> po_queue p' = q \<and> po_closed p' = po_closed p"
  using pstep.TakeJob [OF assms(2,1), of us s tot] by (intro exI [of _ "p\<lparr>po_queue := q, po_idle := n, po_waiting := j # po_waiting p\<rparr>"]) auto

lemma flying_worker_takes:
  assumes "po_flying p = i # b" "po_queue p = j # q"
  shows "\<exists>p'. (pstep us s tot)\<^sup>*\<^sup>* p p' \<and> po_queue p' = q \<and> po_closed p' = po_closed p"
proof -
  let ?env = "\<lparr>sn_newRequest = Some RedisNil, sn_do = Inl RedisNil, sn_requestID = 0\<rparr>"
  let ?p = "p\<lparr>po_flying := b, po_idle := Suc (po_idle p), po_fail := po_fail p + 1\<rparr>"
  have "pstep us s tot p ?p" using pstep.SendFail [of p "[]" i b us s ?env tot] assms(1) by (simp add: sendOrder_def)
  moreover obtain p' where "(pstep us s tot)\<^sup>*\<^sup>* ?p p'" "po_queue p' = q" "po_closed p' = po_closed p"
    using idle_worker_takes [of ?p "po_idle p" j q us s tot] assms(2) by auto
  ultimately show ?thesis by (metis converse_rtranclp_into_rtranclp)
qed

lemma full_channel_gets_room:
  assumes "Run_start s tot = Inr p0" "(pstep us s tot)\<^sup>*\<^sup>* p0 p" "\<not> po_closed p" "0 < sr_workers s" "po_dropped p = []"
    and "po_queue p = j # q"
  shows "\<exists>p'. (pstep us s tot)\<^sup>*\<^sup>* p p' \<and> po_queue p' = q \<and> \<not> po_closed p'"
proof -
  have "pool_inv s p" by (rule pool_inv_reachable [OF assms(2,1)])
  then have "po_idle p + length (po_waiting p) + length (po_flying p) > 0" using assms(3-5) by (auto simp: pool_inv_def)
  then consider (idle) n where "po_idle p = Suc n" | (flying) i b where "po_flying p = i # b" | (waiting) i b where "po_waiting p = i # b"
    by (cases "po_idle p"; cases "po_flying p"; cases "po_waiting p") auto
  then show ?thesis
  proof cases
    case idle
    then show ?thesis using idle_worker_takes [OF _ assms(6)] assms(3) by metis
  next
    case flying
    then show ?thesis using flying_worker_takes [OF _ assms(6)] assms(3) by metis
  next
    case waiting
    let ?p = "p\<lparr>po_waiting := b, po_flying := i # po_flying p, po_posted := i # po_posted p, po_sent := po_sent p + 1\<rparr>"
    have "pstep us s tot p ?p" using pstep.Admitted [of p "[]" i b us s tot] waiting by simp
    moreover obtain p' where "(pstep us s tot)\<^sup>*\<^sup>* ?p p'" "po_queue p' = q" "po_closed p' = po_closed p"
      using flying_worker_takes [of ?p i "po_flying p" j q us s tot] assms(6) by auto
    ultimately show ?thesis using assms(3) by (metis converse_rtranclp_into_rtranclp)
  qed
qed

text \<open>
  Without workers nothing is ever sent. \<open>Run\<close> returns without an error if all jobs fit the channel; a
  producer that finds it full waits for ever, since no other step is left.
\<close>

lemma no_workers_no_orders:
  assumes "Run_start s tot = Inr p0" "(pstep us s tot)\<^sup>*\<^sup>* p0 p" "sr_workers s = 0"
  shows "po_flying p = [] \<and> po_waiting p = [] \<and> po_posted p = [] \<and> all_returned s p"
proof -
  have inv: "pool_inv s p" by (rule pool_inv_reachable [OF assms(2,1)])
  have "po_posted p = []" using assms(2)
  proof (induction rule: rtranclp_induct)
    case base
    then show ?case using assms(1) by (auto simp: Run_start_def split: if_splits)
  next
    case (step y z)
    have "po_waiting y = []" using pool_inv_reachable [OF step.hyps(1) assms(1)] assms(3) by (simp add: pool_inv_def)
    then show ?case using step by (auto elim: pstep_elim)
  qed
  then show ?thesis using inv assms(3) by (simp add: pool_inv_def all_returned_def)
qed

lemma no_workers_full_channel:
  assumes "Run_start s tot = Inr p0" "(pstep us s tot)\<^sup>*\<^sup>* p0 p" "sr_workers s = 0"
    and "int (length (po_queue p)) = go_min tot 10000" "pstep us s tot p p'"
  shows "p' = p\<lparr>po_closed := True\<rparr>"
proof -
  have "po_idle p = 0 \<and> po_waiting p = [] \<and> po_flying p = []"
    using pool_inv_reachable [OF assms(2,1)] assms(3) by (simp add: pool_inv_def)
  then show ?thesis using assms(4,5) by (auto elim: pstep_elim)
qed

text \<open>
  The limits of the flags are checked on the \<open>int\<close>, the conversion to \<open>uint8\<close> comes after: a negative
  flag passes and becomes a number above the limit.
\<close>

lemma NewSeeder_limits:
  assumes "NewSeeder flags = Inr s"
  shows "uint (sr_noOfAccountPerUser s) = fl_maxAccountPerUser flags mod 256"
    and "0 \<le> fl_maxAccountPerUser flags \<Longrightarrow> uint (sr_noOfAccountPerUser s) \<le> 100"
proof -
  have s: "sr_noOfAccountPerUser s = of_int (fl_maxAccountPerUser flags)" "fl_maxAccountPerUser flags \<le> 100"
    using assms by (auto simp: NewSeeder_def Let_def split: if_splits)
  show u: "uint (sr_noOfAccountPerUser s) = fl_maxAccountPerUser flags mod 256" by (simp add: s(1) uint_word_of_int)
  show "0 \<le> fl_maxAccountPerUser flags \<Longrightarrow> uint (sr_noOfAccountPerUser s) \<le> 100" using s(2) by (simp add: u)
qed

text \<open>A seeder that starts has a limiter that lets requests through, and amounts in order.\<close>

lemma order_seeder_start_usable:
  assumes "order_seeder_start load pools flags = Inr (db, client, s)"
  shows "1 \<le> sr_limit s" "1 \<le> sr_burst s" "\<not> f64_lt (sr_maxAmount s) (sr_minAmount s)"
proof -
  have s: "NewSeeder flags = Inr s" using assms by (auto simp: order_seeder_start_def split: sum.splits)
  have asym: "\<not> f64_lt x y" if "f64_lt y x" for x y using that by (cases x; cases y) auto
  show "1 \<le> sr_limit s" "1 \<le> sr_burst s" "\<not> f64_lt (sr_maxAmount s) (sr_minAmount s)"
    using s asym by (auto simp: NewSeeder_def Let_def split: if_splits)
qed

lemma negative_limit_accepted:
  "map_sum id (\<lambda>s. uint (sr_noOfAccountPerUser s)) (NewSeeder (order_flags_example\<lparr>fl_maxAccountPerUser := - 1\<rparr>)) = Inr 255"
  by (simp add: NewSeeder_def order_flags_example_def Let_def unsigned_minus_1_eq_mask mask_eq_exp_minus_1)

subsection \<open>How a run ends\<close>

text \<open>
  \<open>Run\<close> closes the channel in any case; it waits for the workers when all went well, and not when a query
  failed. The four counters are what the progress reporter logs every second and \<open>main\<close> at the end;
  after an error \<open>main\<close> exits with 1.
\<close>

definition Run_returns :: "Seeder \<Rightarrow> go_error option \<Rightarrow> Pool \<Rightarrow> bool" where
  "Run_returns s err p \<longleftrightarrow> po_closed p \<and> (case err of Some e \<Rightarrow> True | None \<Rightarrow> all_returned s p)"

definition progress_tick :: "Pool \<Rightarrow> int \<times> int \<times> int \<times> int" where
  "progress_tick p = (po_enqueued p, po_sent p, po_ok p, po_fail p)"

definition order_seeder_exit :: "go_error option \<Rightarrow> Pool \<Rightarrow> int \<times> (int \<times> int \<times> int \<times> int) option" where
  "order_seeder_exit err p = (case err of Some e \<Rightarrow> (1, None) | None \<Rightarrow> (0, Some (progress_tick p)))"

text \<open>A reported summary adds up: no order in flight is missing from it.\<close>

lemma summary_adds_up:
  assumes "Run_start s tot = Inr p0" "(pstep us s tot)\<^sup>*\<^sup>* p0 p" "Run_returns s err p" "order_seeder_exit err p = (0, Some (enq, sent, ok, fail))"
  shows "sent = ok + fail" "sent \<le> enq"
proof -
  have "all_returned s p" using assms(3,4) by (cases err) (simp_all add: Run_returns_def order_seeder_exit_def)
  note empty = all_returned_empty [OF pool_inv_reachable [OF assms(2,1)] this]
  show "sent = ok + fail" "sent \<le> enq"
    using pool_inv_reachable [OF assms(2,1)] pool_inv_counts [OF pool_inv_reachable [OF assms(2,1)]] empty assms(4)
    by (cases err; simp add: order_seeder_exit_def progress_tick_def pool_inv_def)+
qed

text \<open>A failed query ends the program with orders still in the channel, enqueued and never sent.\<close>

lemma failed_run_abandons_orders:
  assumes "Run_start s tot = Inr p0" "0 < tot"
  shows "\<exists>p. (pstep us s tot)\<^sup>*\<^sup>* p0 p \<and> Run_returns s (Some err) p \<and> po_queue p = [j] \<and> po_sent p = 0"
proof -
  have p0: "po_queue p0 = []" "\<not> po_closed p0" "po_sent p0 = 0" using assms(1) by (auto simp: Run_start_def split: if_splits)
  let ?p1 = "p0\<lparr>po_queue := po_queue p0 @ [j], po_put := j # po_put p0, po_enqueued := po_enqueued p0 + 1\<rparr>" and ?R = "pstep us s tot"
  have "?R p0 ?p1" using p0 assms(2) by (intro pstep.Enqueue) (auto simp: go_min_def)
  moreover have "?R ?p1 (?p1\<lparr>po_closed := True\<rparr>)" using p0(2) by (intro pstep.CloseJobs) simp
  ultimately show ?thesis
    using p0 by (intro exI [of _ "?p1\<lparr>po_closed := True\<rparr>"]) (auto simp: Run_returns_def)
qed

definition pool_example :: Pool where
  "pool_example = \<lparr>po_queue = [], po_closed = False, po_idle = 2, po_waiting = [], po_flying = [], po_finished = 0,
     po_dropped = [], po_put = [], po_posted = [], po_enqueued = 0, po_sent = 0, po_ok = 0, po_fail = 0\<rparr>"

theorem seeder_pool_drains_witness:
  "\<exists>p. (pstep (\<lambda>u. show_nat (unat u)) seeder_example 3)\<^sup>*\<^sup>* pool_example p \<and> po_closed p \<and> po_enqueued p = 1 \<and>
     \<not> all_returned seeder_example p \<and> (\<exists>p'. pstep (\<lambda>u. show_nat (unat u)) seeder_example 3 p p')"
proof -
  let ?R = "pstep (\<lambda>u. show_nat (unat u)) seeder_example 3"
  let ?j = "\<lparr>jb_userID = 1, jb_order = \<lparr>so_IdempotencyID = 9, so_AccountID = 11, so_Amount = f64_zero, so_Currency = ''CAD''\<rparr>\<rparr>"
  let ?p1 = "pool_example\<lparr>po_queue := [?j], po_put := [?j], po_enqueued := 1\<rparr>"
  let ?p = "pool_example\<lparr>po_queue := [?j], po_put := [?j], po_enqueued := 1, po_closed := True\<rparr>"
  have s0: "?R pool_example ?p1"
    using pstep.Enqueue [of pool_example 3 _ seeder_example ?j] by (simp add: pool_example_def go_min_def)
  have s1: "?R ?p1 ?p" using pstep.CloseJobs [of ?p1] by (simp add: pool_example_def)
  have r: "?R\<^sup>*\<^sup>* pool_example ?p" using s0 s1 by (rule converse_rtranclp_into_rtranclp [OF _ r_into_rtranclp])
  have start: "Run_start seeder_example 3 = Inr pool_example" by (simp add: Run_start_def seeder_example_def go_min_def pool_example_def)
  have "\<not> all_returned seeder_example ?p" by (simp add: all_returned_def pool_example_def seeder_example_def)
  then show ?thesis using seeder_pool_drains [OF start r] r by (intro exI [of _ ?p]) (simp add: pool_example_def)
qed

end
