(* ===== verification/Concurrent_Payments.thy ===== *)
theory Concurrent_Payments
  imports Payment
begin

text \<open>
  Several calls of \<open>ProcessPayment\<close> (\<open>payment_service.go\<close>) at once, on one Redis and one database.
  \<open>World\<close> holds the committed tables, the lock keys present in Redis, and how far each call is. One
  tick lets one call make its next access to what is shared: \<open>SetNX\<close>, \<open>Begin\<close>, the read of the account
  row, \<open>Del\<close> of the lock (which runs first of the deferred calls) and the commit. A key of Redis may
  expire at any time, and a \<open>Del\<close> may be lost. What happens between the shared accesses is that of
  theory \<open>Payment\<close>: a call that commits is \<open>ProcessPayment\<close> with the tables it read earlier as its reader.

  The transactions are those of PostgreSQL in read committed: an \<open>UPDATE\<close> keeps its row locked up to
  the commit, and both updates of the code set columns of rows found by their key to values computed
  before, so a transaction takes effect on the tables as they are when it commits. The reader is taken to
  be the primary.
\<close>

datatype phase =
    Ready
  | Asked bool
  | Reading
  | Holding Tables
  | Released Tables
  | Refusing
  | Done "go_error option"

text \<open>\<open>w_log\<close> records the calls in the order they finish, with what \<open>SetNX\<close> answered to each.\<close>

record World =
  w_tables :: Tables
  w_locks :: "string set"
  w_phases :: "phase list"
  w_log :: "(nat \<times> bool result) list"

type_synonym payment_call = "PayEnv \<times> PaymentJob"

text \<open>The end of a call: its transaction commits, and it returns.\<close>

definition finish :: "PaymentProcessor \<Rightarrow> payment_call \<Rightarrow> bool result \<Rightarrow> Tables \<Rightarrow> nat \<Rightarrow> World \<Rightarrow> phase \<times> World" where
  "finish p call answer r i w =
     (let (err, t, tr) = ProcessPayment p ((fst call)\<lparr>pe_setnx := answer, pe_reader := r\<rparr>) (snd call) (w_tables w)
      in (Done err, w\<lparr>w_tables := t, w_log := w_log w @ [(i, answer)]\<rparr>))"

abbreviation call_key :: "payment_call \<Rightarrow> string" where
  "call_key call \<equiv> lock_key (fst call) (snd call)"

text \<open>The next shared access of a call. A failed \<open>Begin\<close> returns without releasing the lock.\<close>

fun call_access :: "PaymentProcessor \<Rightarrow> payment_call \<Rightarrow> nat \<Rightarrow> phase \<Rightarrow> World \<Rightarrow> phase \<times> World" where
  "call_access p call i Ready w =
     (case pe_setnx (fst call) of
        Inl err \<Rightarrow> finish p call (Inl err) (w_tables w) i w
      | Inr _ \<Rightarrow> (Asked (call_key call \<notin> w_locks w), w\<lparr>w_locks := insert (call_key call) (w_locks w)\<rparr>))"
| "call_access p call i (Asked locked) w =
     (case pe_begin (fst call) of
        Some err \<Rightarrow> finish p call (Inr locked) (w_tables w) i w
      | None \<Rightarrow> (if locked then Reading else Refusing, w))"
| "call_access p call i Reading w = (Holding (w_tables w), w)"
| "call_access p call i (Holding r) w = (Released r, w\<lparr>w_locks := w_locks w - {call_key call}\<rparr>)"
| "call_access p call i (Released r) w = finish p call (Inr True) r i w"
| "call_access p call i Refusing w = finish p call (Inr False) (w_tables w) i w"
| "call_access p call i (Done err) w = (Done err, w)"

datatype tick = Call nat | LostDel nat | Expire string

definition call_step :: "PaymentProcessor \<Rightarrow> payment_call list \<Rightarrow> nat \<Rightarrow> World \<Rightarrow> World" where
  "call_step p calls i w =
     (if i < length (w_phases w)
      then let (ph, w') = call_access p (calls ! i) i (w_phases w ! i) w in w'\<lparr>w_phases := (w_phases w)[i := ph]\<rparr>
      else w)"

definition lost_del :: "nat \<Rightarrow> World \<Rightarrow> World" where
  "lost_del i w =
     (if i < length (w_phases w)
      then case w_phases w ! i of Holding r \<Rightarrow> w\<lparr>w_phases := (w_phases w)[i := Released r]\<rparr> | _ \<Rightarrow> w
      else w)"

fun world_step :: "PaymentProcessor \<Rightarrow> payment_call list \<Rightarrow> tick \<Rightarrow> World \<Rightarrow> World" where
  "world_step p calls (Call i) w = call_step p calls i w"
| "world_step p calls (LostDel i) w = lost_del i w"
| "world_step p calls (Expire key) w = w\<lparr>w_locks := w_locks w - {key}\<rparr>"

fun interleave :: "PaymentProcessor \<Rightarrow> payment_call list \<Rightarrow> tick list \<Rightarrow> World \<Rightarrow> World" where
  "interleave p calls [] w = w"
| "interleave p calls (e # es) w = interleave p calls es (world_step p calls e w)"

definition at_rest :: "payment_call list \<Rightarrow> Tables \<Rightarrow> World" where
  "at_rest calls t = \<lparr>w_tables = t, w_locks = {}, w_phases = replicate (length calls) Ready, w_log = []\<rparr>"

subsection \<open>Reads and commits\<close>

text \<open>A call that has read the account and not yet committed, and what it read.\<close>

fun snapshot :: "phase \<Rightarrow> Tables option" where
  "snapshot (Holding r) = Some r"
| "snapshot (Released r) = Some r"
| "snapshot _ = None"

fun holds_lock :: "phase \<Rightarrow> bool" where
  "holds_lock (Asked locked) = locked"
| "holds_lock Reading = True"
| "holds_lock (Holding r) = True"
| "holds_lock _ = False"

fun is_done :: "phase \<Rightarrow> bool" where
  "is_done (Done err) = True"
| "is_done _ = False"

fun outcome :: "phase \<Rightarrow> go_error option" where
  "outcome (Done err) = err"
| "outcome _ = None"

text \<open>Two calls on one account are between their read and their commit at the same time.\<close>

definition overlap :: "payment_call list \<Rightarrow> World \<Rightarrow> bool" where
  "overlap calls w \<longleftrightarrow> (\<exists>i < length calls. \<exists>j < length calls. i \<noteq> j \<and>
     pj_AccountID (snd (calls ! i)) = pj_AccountID (snd (calls ! j)) \<and>
     snapshot (w_phases w ! i) \<noteq> None \<and> snapshot (w_phases w ! j) \<noteq> None)"

fun never_overlaps :: "PaymentProcessor \<Rightarrow> payment_call list \<Rightarrow> tick list \<Rightarrow> World \<Rightarrow> bool" where
  "never_overlaps p calls [] w = (\<not> overlap calls w)"
| "never_overlaps p calls (e # es) w = (\<not> overlap calls w \<and> never_overlaps p calls es (world_step p calls e w))"

text \<open>The finished calls one after the other, in the order of their commits.\<close>

definition history :: "payment_call list \<Rightarrow> World \<Rightarrow> payment_call list" where
  "history calls w = map (\<lambda>(i, answer). ((fst (calls ! i))\<lparr>pe_setnx := answer\<rparr>, snd (calls ! i))) (w_log w)"

text \<open>A payment sees of its reader only the row of its account.\<close>

definition same_row :: "uuid \<Rightarrow> Tables \<Rightarrow> Tables \<Rightarrow> bool" where
  "same_row i r t \<longleftrightarrow> filter (\<lambda>a. ac_ID a = i) (t_accounts r) = filter (\<lambda>a. ac_ID a = i) (t_accounts t)"

lemma FindByID_same_row: "same_row i r t \<Longrightarrow> FindByID us f i r = FindByID us f i t"
  by (cases f) (simp_all add: same_row_def FindByID_def)

lemma reader_independent:
  "updateOrderStatus (env\<lparr>pe_reader := r\<rparr>) = updateOrderStatus env"
  "handleFraudResult (env\<lparr>pe_reader := r\<rparr>) = handleFraudResult env"
  "handleTransactionResult (env\<lparr>pe_reader := r\<rparr>) = handleTransactionResult env"
  "processTransaction (env\<lparr>pe_reader := r\<rparr>) = processTransaction env"
  "UpdateBalanceAvgCount p (env\<lparr>pe_reader := r\<rparr>) = UpdateBalanceAvgCount p env"
proof -
  show u: "updateOrderStatus (env\<lparr>pe_reader := r\<rparr>) = updateOrderStatus env"
    by (intro ext) (simp add: updateOrderStatus_def)
  show "handleFraudResult (env\<lparr>pe_reader := r\<rparr>) = handleFraudResult env"
    by (intro ext) (simp add: handleFraudResult_def u)
  show "handleTransactionResult (env\<lparr>pe_reader := r\<rparr>) = handleTransactionResult env"
    by (intro ext) (simp add: handleTransactionResult_def u split: option.split)
  show "processTransaction (env\<lparr>pe_reader := r\<rparr>) = processTransaction env"
    by (simp add: processTransaction_def)
  have "debited_account p (env\<lparr>pe_reader := r\<rparr>) = debited_account p env"
    by (intro ext) (simp add: debited_account_def Let_def split: sum.split)
  then show "UpdateBalanceAvgCount p (env\<lparr>pe_reader := r\<rparr>) = UpdateBalanceAvgCount p env"
    by (intro ext) (simp add: UpdateBalanceAvgCount_def split: sum.split prod.split)
qed

lemma checkAccountBalance_same_row:
  "same_row (pj_AccountID job) r t \<Longrightarrow>
   checkAccountBalance p (env\<lparr>pe_reader := r\<rparr>) job = checkAccountBalance p (env\<lparr>pe_reader := t\<rparr>) job"
  by (intro ext) (simp add: checkAccountBalance_def FindByID_same_row reader_independent split: sum.split)

lemma ProcessPayment_same_row:
  assumes "same_row (pj_AccountID job) r t"
  shows "ProcessPayment p (env\<lparr>pe_reader := r\<rparr>) job primary = ProcessPayment p (env\<lparr>pe_reader := t\<rparr>) job primary"
proof -
  have f: "pe_fraud (env\<lparr>pe_reader := x\<rparr>) = pe_fraud env" for x by simp
  have "process_locked p (env\<lparr>pe_reader := r\<rparr>) job s = process_locked p (env\<lparr>pe_reader := t\<rparr>) job s" for s
    unfolding process_locked_def checkAccountBalance_same_row [OF assms] reader_independent f by (rule refl)
  moreover have "process_unlocked (env\<lparr>pe_reader := x\<rparr>) job s = process_unlocked env job s" for x s
    by (simp add: process_unlocked_def reader_independent)
  moreover have "lock_key (env\<lparr>pe_reader := x\<rparr>) job = lock_key env job" for x by (simp add: lock_key_def)
  ultimately show ?thesis by (simp add: ProcessPayment_def Let_def split: sum.split option.split prod.split)
qed

text \<open>A payment leaves the rows of the other accounts as they are.\<close>

lemma ProcessPayment_other_rows:
  assumes "i \<noteq> pj_AccountID job"
  shows "same_row i (fst (snd (ProcessPayment p env job t))) t"
proof (rule ProcessPayment_tables [OF refl, of p env job t])
  fix acc avg
  assume d: "decide p env job = Debit acc avg"
    and t': "fst (snd (ProcessPayment p env job t)) = settle (pe_now env) (pj_IdempotencyKey job) (Debit acc avg) t"
  have "ac_ID acc = pj_AccountID job"
    by (rule decide_DebitD [OF d]) (auto simp: debited_account_def Let_def dest!: FindByID_SomeD split: sum.splits)
  then have "filter (\<lambda>a. ac_ID a = i) (map (set_account now acc) xs) = filter (\<lambda>a. ac_ID a = i) xs" for now xs
    using assms by (induction xs) (auto simp: set_account_def)
  then show ?thesis by (simp add: same_row_def t' debit_tables_def)
qed (simp add: same_row_def)


lemma ProcessPayment_no_debit:
  "pe_setnx env \<noteq> Inr True \<or> pe_begin env \<noteq> None \<Longrightarrow> same_row i (fst (snd (ProcessPayment p env job t))) t"
  by (rule ProcessPayment_tables [OF refl, of p env job t]) (auto simp: same_row_def)

lemma same_row_trans: "same_row i r t \<Longrightarrow> same_row i t' t \<Longrightarrow> same_row i r t'"
  by (simp add: same_row_def)

subsection \<open>Interleaved calls that do not overlap are serial\<close>

definition serial_inv :: "PaymentProcessor \<Rightarrow> payment_call list \<Rightarrow> Tables \<Rightarrow> World \<Rightarrow> bool" where
  "serial_inv p calls t w \<longleftrightarrow> length (w_phases w) = length calls \<and>
     pay_all p (history calls w) t = (map (\<lambda>(i, answer). outcome (w_phases w ! i)) (w_log w), w_tables w) \<and>
     distinct (map fst (w_log w)) \<and>
     fst ` set (w_log w) = {i. i < length calls \<and> is_done (w_phases w ! i)} \<and>
     (\<forall>i < length calls. \<forall>r. snapshot (w_phases w ! i) = Some r \<longrightarrow>
        same_row (pj_AccountID (snd (calls ! i))) r (w_tables w))"

lemma outcomes_update:
  "i \<notin> fst ` set xs \<Longrightarrow>
   map (\<lambda>(k, answer). outcome (phs[i := ph] ! k)) xs = map (\<lambda>(k, answer). outcome (phs ! k)) xs"
  by (induction xs) auto

lemma not_overlap:
  "\<not> overlap calls w \<Longrightarrow> i < length calls \<Longrightarrow> j < length calls \<Longrightarrow> j \<noteq> i \<Longrightarrow> snapshot (w_phases w ! i) \<noteq> None \<Longrightarrow>
   snapshot (w_phases w ! j) \<noteq> None \<Longrightarrow> pj_AccountID (snd (calls ! j)) \<noteq> pj_AccountID (snd (calls ! i))"
  unfolding overlap_def by blast

lemma pay_all_snoc:
  "pay_all p (calls @ [(env, job)]) t =
     (let (errs, t1) = pay_all p calls t; (err, t2, tr) = ProcessPayment p (env\<lparr>pe_reader := t1\<rparr>) job t1
      in (errs @ [err], t2))"
  by (induction calls arbitrary: t) (auto simp: Let_def split: prod.split)

text \<open>A step within a call that neither commits nor reads.\<close>

lemma serial_inv_local:
  assumes "serial_inv p calls t w" "i < length calls" "\<not> is_done (w_phases w ! i)" "\<not> is_done ph"
    and "w_tables w' = w_tables w" "w_log w' = w_log w" "w_phases w' = (w_phases w)[i := ph]"
    and "\<And>r. snapshot ph = Some r \<Longrightarrow> same_row (pj_AccountID (snd (calls ! i))) r (w_tables w)"
  shows "serial_inv p calls t w'"
proof -
  have l: "length (w_phases w) = length calls" using assms(1) by (simp add: serial_inv_def)
  have ni: "i \<notin> fst ` set (w_log w)" using assms(1,3) by (simp add: serial_inv_def)
  then have m: "map (\<lambda>(k, answer). outcome ((w_phases w)[i := ph] ! k)) (w_log w) =
      map (\<lambda>(k, answer). outcome (w_phases w ! k)) (w_log w)" by (rule outcomes_update)
  have h: "history calls w' = history calls w" by (simp add: history_def assms(6))
  have d: "{k. k < length calls \<and> is_done ((w_phases w)[i := ph] ! k)} = {k. k < length calls \<and> is_done (w_phases w ! k)}"
    using assms(3,4) l assms(2) by (auto simp: nth_list_update)
  show ?thesis
    using assms(1,2,8) l unfolding serial_inv_def h assms(5,6,7) m d by (auto simp: nth_list_update)
qed

lemma serial_inv_finish:
  assumes "serial_inv p calls t w" "i < length calls" "\<not> is_done (w_phases w ! i)"
    and row: "same_row (pj_AccountID (snd (calls ! i))) r (w_tables w)"
    and fin: "finish p (calls ! i) answer r i w = (ph, w')"
    and alone: "\<And>j. answer = Inr True \<Longrightarrow> pe_begin (fst (calls ! i)) = None \<Longrightarrow> j < length calls \<Longrightarrow> j \<noteq> i \<Longrightarrow>
      snapshot (w_phases w ! j) \<noteq> None \<Longrightarrow> pj_AccountID (snd (calls ! j)) \<noteq> pj_AccountID (snd (calls ! i))"
  shows "serial_inv p calls t (w'\<lparr>w_phases := (w_phases w)[i := ph]\<rparr>)"
proof -
  let ?env = "(fst (calls ! i))\<lparr>pe_setnx := answer\<rparr>" and ?job = "snd (calls ! i)"
  have l: "length (w_phases w) = length calls" using assms(1) by (simp add: serial_inv_def)
  have ni: "i \<notin> fst ` set (w_log w)" using assms(1,3) by (simp add: serial_inv_def)
  obtain err t' tr where pay: "ProcessPayment p (?env\<lparr>pe_reader := w_tables w\<rparr>) ?job (w_tables w) = (err, t', tr)"
    using prod_cases3 by blast
  have w': "ph = Done err" "w' = w\<lparr>w_tables := t', w_log := w_log w @ [(i, answer)]\<rparr>"
    using fin pay ProcessPayment_same_row [OF row, of p ?env "w_tables w"] by (simp_all add: finish_def)
  have hist: "history calls (w'\<lparr>w_phases := (w_phases w)[i := ph]\<rparr>) = history calls w @ [(?env, ?job)]"
    by (simp add: history_def w'(2))
  have d: "{k. k < length calls \<and> is_done ((w_phases w)[i := ph] ! k)} = insert i {k. k < length calls \<and> is_done (w_phases w ! k)}"
    using l assms(2) by (auto simp: nth_list_update w'(1))
  have snap: "same_row (pj_AccountID (snd (calls ! j))) rj t'" if "j < length calls" "snapshot ((w_phases w)[i := ph] ! j) = Some rj" for j rj
  proof -
    have ji: "j \<noteq> i" "snapshot (w_phases w ! j) = Some rj"
      using that l by (cases "j = i"; simp add: w'(1))+
    have "same_row (pj_AccountID (snd (calls ! j))) rj (w_tables w)" using assms(1) that(1) ji(2) by (simp add: serial_inv_def)
    moreover have "same_row (pj_AccountID (snd (calls ! j))) t' (w_tables w)"
    proof (cases "answer = Inr True \<and> pe_begin (fst (calls ! i)) = None")
      case True
      then show ?thesis
        using ProcessPayment_other_rows [of "pj_AccountID (snd (calls ! j))" ?job p "?env\<lparr>pe_reader := w_tables w\<rparr>" "w_tables w"]
          alone [OF _ _ that(1) ji(1)] ji(2) pay by simp
    next
      case False
      then show ?thesis
        using ProcessPayment_no_debit [of "?env\<lparr>pe_reader := w_tables w\<rparr>" "pj_AccountID (snd (calls ! j))" p ?job "w_tables w"] pay by auto
    qed
    ultimately show ?thesis by (rule same_row_trans)
  qed
  have "pay_all p (history calls w @ [(?env, ?job)]) t = (map (\<lambda>(k, answer). outcome (w_phases w ! k)) (w_log w) @ [err], t')"
    using assms(1) pay by (simp add: pay_all_snoc serial_inv_def)
  then show ?thesis
    using assms(1,2) l ni d snap unfolding serial_inv_def hist
    by (simp add: w' outcomes_update [OF ni] del: map_eq_conv)
qed

text \<open>What one access of a call does: it finishes, or moves on without touching tables and log.\<close>

lemma call_access_cases:
  assumes "call_access p call i ph0 w = (ph, w')"
  obtains (fin) answer r where "finish p call answer r i w = (ph, w')" "r = w_tables w \<or> snapshot ph0 = Some r"
      "answer = Inr True \<longrightarrow> snapshot ph0 = Some r \<or> pe_begin (fst call) \<noteq> None"
    | (move) "\<not> is_done ph" "w_tables w' = w_tables w" "w_log w' = w_log w"
      "\<forall>r. snapshot ph = Some r \<longrightarrow> r = w_tables w \<or> snapshot ph0 = Some r"
    | (over) "is_done ph0"
proof (cases ph0)
  case Ready
  show ?thesis
  proof (cases "pe_setnx (fst call)")
    case (Inl err)
    then show ?thesis using that(1) [of "Inl err" "w_tables w"] assms Ready by simp
  qed (use that(2) assms Ready in auto)
next
  case (Asked locked)
  show ?thesis
  proof (cases "pe_begin (fst call)")
    case (Some err)
    then show ?thesis using that(1) [of "Inr locked" "w_tables w"] assms Asked by simp
  qed (use that(2) assms Asked in auto)
next
  case (Released r)
  then show ?thesis using that(1) [of "Inr True" r] assms by simp
next
  case Refusing
  then show ?thesis using that(1) [of "Inr False" "w_tables w"] assms by simp
qed (use that(2,3) assms in auto)

lemma serial_inv_step:
  assumes "serial_inv p calls t w" "\<not> overlap calls w"
  shows "serial_inv p calls t (world_step p calls e w)"
proof (cases e)
  case (Expire key)
  then show ?thesis using assms(1) by (simp add: serial_inv_def history_def)
next
  case (LostDel i)
  show ?thesis
  proof (cases "i < length (w_phases w)")
    case True
    then show ?thesis
      using assms(1) serial_inv_local [OF assms(1), of i "Released r" "w\<lparr>w_phases := (w_phases w)[i := Released r]\<rparr>" for r]
      by (auto simp: LostDel lost_del_def serial_inv_def split: phase.split)
  qed (simp add: LostDel lost_del_def assms(1))
next
  case (Call i)
  show ?thesis
  proof (cases "i < length (w_phases w) \<and> \<not> is_done (w_phases w ! i)")
    case True
    have i: "i < length calls" "\<not> is_done (w_phases w ! i)" using True assms(1) by (simp_all add: serial_inv_def)
    obtain ph w' where adv: "call_access p (calls ! i) i (w_phases w ! i) w = (ph, w')" by fastforce
    have step: "world_step p calls e w = w'\<lparr>w_phases := (w_phases w)[i := ph]\<rparr>"
      using True adv by (simp add: Call call_step_def)
    have "serial_inv p calls t (w'\<lparr>w_phases := (w_phases w)[i := ph]\<rparr>)"
    proof (rule call_access_cases [OF adv])
      fix r answer
      assume fin: "finish p (calls ! i) answer r i w = (ph, w')"
        and r: "r = w_tables w \<or> snapshot (w_phases w ! i) = Some r"
        and ans: "answer = Inr True \<longrightarrow> snapshot (w_phases w ! i) = Some r \<or> pe_begin (fst (calls ! i)) \<noteq> None"
      have row: "same_row (pj_AccountID (snd (calls ! i))) r (w_tables w)"
        using r assms(1) i(1) by (auto simp: serial_inv_def same_row_def)
      show ?thesis
        by (rule serial_inv_finish [OF assms(1) i row fin]) (use ans i(1) not_overlap [OF assms(2)] in auto)
    next
      assume "\<not> is_done ph" "w_tables w' = w_tables w" "w_log w' = w_log w"
        and "\<forall>r. snapshot ph = Some r \<longrightarrow> r = w_tables w \<or> snapshot (w_phases w ! i) = Some r"
      then show ?thesis
        using assms(1) i(1) by (intro serial_inv_local [OF assms(1) i]) (auto simp: serial_inv_def same_row_def)
    qed (use i(2) in simp)
    then show ?thesis by (simp add: step)
  next
    case False
    then have "world_step p calls e w = w"
      by (cases "w_phases w ! i") (auto simp: Call call_step_def list_update_same_conv)
    then show ?thesis using assms(1) by simp
  qed
qed

lemma serial_inv_run:
  "never_overlaps p calls es w \<Longrightarrow> serial_inv p calls t w \<Longrightarrow> serial_inv p calls t (interleave p calls es w)"
  by (induction es arbitrary: w) (simp_all add: serial_inv_step)

lemma serial_inv_at_rest: "serial_inv p calls t (at_rest calls t)"
  by (auto simp: serial_inv_def at_rest_def history_def)

text \<open>
  Property C5. Interleaved payments refine a serial run: as long as no two calls on one account
  are between their read and their commit at the same time, the tables are those of the finished
  calls executed one after the other in the order of their commits, every call returned what it
  returns there, and each finished call occurs once. This holds for any number of calls and workers,
  on any accounts, whatever fails in them, whatever locks expire and whichever deletions are lost.
\<close>

theorem interleaved_payments_serial:
  assumes "never_overlaps p calls es (at_rest calls t)" "w = interleave p calls es (at_rest calls t)"
  shows "pay_all p (history calls w) t = (map (\<lambda>(i, answer). outcome (w_phases w ! i)) (w_log w), w_tables w) \<and>
    distinct (map fst (w_log w)) \<and> fst ` set (w_log w) = {i. i < length calls \<and> is_done (w_phases w ! i)}"
  using serial_inv_run [OF assms(1) serial_inv_at_rest] by (simp add: assms(2) serial_inv_def)

text \<open>What the finished calls took from an account: those that returned nil and whose transaction landed.\<close>

definition taken_cents :: "uuid \<Rightarrow> (PaymentJob \<Rightarrow> nat) \<Rightarrow> payment_call list \<Rightarrow> World \<Rightarrow> nat" where
  "taken_cents i cents calls w =
     (\<Sum>k | k < length calls \<and> w_phases w ! k = Done None \<and> landed (fst (calls ! k)) \<and> pj_AccountID (snd (calls ! k)) = i.
        cents (snd (calls ! k)))"

lemma debited_cents_log:
  "debited_cents i cents (map (\<lambda>(k, answer). ((fst (calls ! k))\<lparr>pe_setnx := answer\<rparr>, snd (calls ! k))) xs)
     (map (\<lambda>(k, answer). outcome (phs ! k)) xs) =
   (\<Sum>k \<leftarrow> map fst xs. if outcome (phs ! k) = None \<and> landed (fst (calls ! k)) \<and> pj_AccountID (snd (calls ! k)) = i
      then cents (snd (calls ! k)) else 0)"
  by (induction xs) (auto simp: landed_def)

lemma debited_cents_history:
  assumes "serial_inv p calls t w"
  shows "debited_cents i cents (history calls w) (map (\<lambda>(i, answer). outcome (w_phases w ! i)) (w_log w)) = taken_cents i cents calls w"
proof -
  let ?f = "\<lambda>k. if outcome (w_phases w ! k) = None \<and> landed (fst (calls ! k)) \<and> pj_AccountID (snd (calls ! k)) = i then cents (snd (calls ! k)) else 0"
  let ?D = "{k. k < length calls \<and> is_done (w_phases w ! k)}"
  have "(\<Sum>k \<leftarrow> map fst (w_log w). ?f k) = (\<Sum>k \<in> ?D. ?f k)"
    using assms sum_list_distinct_conv_sum_set [of "map fst (w_log w)" ?f] by (simp add: serial_inv_def)
  also have "\<dots> = (\<Sum>k | k \<in> ?D \<and> outcome (w_phases w ! k) = None \<and> landed (fst (calls ! k)) \<and> pj_AccountID (snd (calls ! k)) = i. cents (snd (calls ! k)))"
    by (rule sum.inter_filter [symmetric]) simp
  also have "\<dots> = taken_cents i cents calls w"
    unfolding taken_cents_def by (rule sum.cong) (auto elim: is_done.elims)
  finally show ?thesis unfolding history_def debited_cents_log .
qed

text \<open>
  Property C6. Money is conserved by interleaved payments that do not overlap on an account and read current
  rows, whatever else fails: its balance drops by exactly the amounts of the calls for it that returned nil
  and whose status update and commit went through, and never below zero.
\<close>

theorem interleaved_payments_conserve_money:
  assumes "never_overlaps p calls es (at_rest calls t)"
    and "\<forall>(env, job) \<in> set calls. nonce_ok env \<and> holds_cents (pp_EncryptionKey p) (pj_Amount job) (cents job)"
    and "FindByID us None i t = Inr acc" "holds_cents (pp_EncryptionKey p) (ac_Balance acc) b"
    and "w = interleave p calls es (at_rest calls t)"
  shows "\<exists>acc'. FindByID us None i (w_tables w) = Inr acc' \<and> taken_cents i cents calls w \<le> b \<and>
    holds_cents (pp_EncryptionKey p) (ac_Balance acc') (b - taken_cents i cents calls w)"
proof -
  have inv: "serial_inv p calls t w" unfolding assms(5) by (rule serial_inv_run [OF assms(1) serial_inv_at_rest])
  have "nonce_ok env \<and> holds_cents (pp_EncryptionKey p) (pj_Amount job) (cents job)"
    if "(env, job) \<in> set (history calls w)" for env job
  proof -
    obtain k answer where "(k, answer) \<in> set (w_log w)" "env = (fst (calls ! k))\<lparr>pe_setnx := answer\<rparr>" "job = snd (calls ! k)"
      using \<open>(env, job) \<in> set (history calls w)\<close> by (auto simp: history_def)
    moreover have "fst ` set (w_log w) = {i. i < length calls \<and> is_done (w_phases w ! i)}" using inv by (simp add: serial_inv_def)
    ultimately have "k < length calls" by (metis (mono_tags, lifting) fst_conv image_eqI mem_Collect_eq)
    then have "calls ! k \<in> set calls" by simp
    then show ?thesis using assms(2) \<open>env = _\<close> \<open>job = _\<close> by (auto simp: nonce_ok_def)
  qed
  then have "\<forall>(env, job) \<in> set (history calls w). nonce_ok env \<and> holds_cents (pp_EncryptionKey p) (pj_Amount job) (cents job)"
    by blast
  from pay_all_conserves [OF this assms(3,4)] show ?thesis
    using inv debited_cents_history [OF inv, of i cents] by (simp add: serial_inv_def)
qed

subsection \<open>What the lock excludes\<close>

definition lock_inv :: "payment_call list \<Rightarrow> World \<Rightarrow> bool" where
  "lock_inv calls w \<longleftrightarrow> length (w_phases w) = length calls \<and>
     (\<forall>i < length calls. holds_lock (w_phases w ! i) \<longrightarrow> call_key (calls ! i) \<in> w_locks w) \<and>
     (\<forall>i < length calls. \<forall>j < length calls. i \<noteq> j \<longrightarrow> holds_lock (w_phases w ! i) \<longrightarrow> holds_lock (w_phases w ! j) \<longrightarrow>
        call_key (calls ! i) \<noteq> call_key (calls ! j))"

fun is_expiry :: "tick \<Rightarrow> bool" where
  "is_expiry (Expire key) = True"
| "is_expiry _ = False"

lemma finish_lock:
  "finish p call answer r i w = (ph, w') \<Longrightarrow> \<not> holds_lock ph \<and> w_locks w' = w_locks w \<and> w_phases w' = w_phases w"
  by (auto simp: finish_def split: prod.splits)

lemma call_access_lock:
  assumes "call_access p call i ph0 w = (ph, w')"
  shows "w_phases w' = w_phases w \<and>
    (if holds_lock ph
     then holds_lock ph0 \<and> w_locks w' = w_locks w \<or>
       call_key call \<notin> w_locks w \<and> w_locks w' = insert (call_key call) (w_locks w)
     else w_locks w \<subseteq> w_locks w' \<or> holds_lock ph0 \<and> w_locks w' = w_locks w - {call_key call})"
proof (cases ph0)
  case Ready
  then show ?thesis using assms finish_lock by (cases "pe_setnx (fst call)") auto
next
  case (Asked locked)
  then show ?thesis using assms finish_lock by (cases "pe_begin (fst call)") auto
qed (use assms finish_lock in auto)

lemma lock_inv_step:
  assumes "lock_inv calls w" "\<not> is_expiry e"
  shows "lock_inv calls (world_step p calls e w)"
proof (cases e)
  case (LostDel i)
  then show ?thesis
    using assms(1) by (auto simp: lost_del_def lock_inv_def nth_list_update split: phase.split)
next
  case (Call i)
  show ?thesis
  proof (cases "i < length calls")
    case True
    obtain ph w' where adv: "call_access p (calls ! i) i (w_phases w ! i) w = (ph, w')" by fastforce
    have "world_step p calls e w = w'\<lparr>w_phases := (w_phases w)[i := ph]\<rparr>"
      using True adv assms(1) by (simp add: Call call_step_def lock_inv_def)
    then show ?thesis
      using call_access_lock [OF adv] assms(1) True
      by (cases "holds_lock ph") (auto simp: lock_inv_def nth_list_update split: if_splits)
  qed (use assms(1) in \<open>simp add: Call call_step_def lock_inv_def\<close>)
qed (use assms(2) in simp)

lemma lock_inv_run:
  "lock_inv calls w \<Longrightarrow> \<forall>e \<in> set es. \<not> is_expiry e \<Longrightarrow> lock_inv calls (interleave p calls es w)"
  by (induction es arbitrary: w) (simp_all add: lock_inv_step)

lemma lock_inv_at_rest: "lock_inv calls (at_rest calls t)"
  by (simp add: lock_inv_def at_rest_def)

lemma call_key_account:
  "pe_uuid_string (fst c) = pe_uuid_string (fst d) \<Longrightarrow> pj_AccountID (snd c) = pj_AccountID (snd d) \<Longrightarrow> call_key c = call_key d"
  by (simp add: lock_key_def)

text \<open>
  While no lock expires, two calls for one account never hold its lock together,
  whatever the schedule and whatever fails. Two calls that have both read the account and not
  committed can therefore only meet when one of them has released its lock before its commit.
\<close>

theorem lock_excludes_until_release:
  assumes "\<forall>e \<in> set es. \<not> is_expiry e" "i < length calls" "j < length calls" "i \<noteq> j"
    and "pe_uuid_string (fst (calls ! i)) = pe_uuid_string (fst (calls ! j))"
    and "pj_AccountID (snd (calls ! i)) = pj_AccountID (snd (calls ! j))"
    and "w = interleave p calls es (at_rest calls t)"
  shows "\<not> (holds_lock (w_phases w ! i) \<and> holds_lock (w_phases w ! j))"
  using lock_inv_run [OF lock_inv_at_rest assms(1), of calls p t] assms(2-4) call_key_account [OF assms(5,6)]
  unfolding assms(7) lock_inv_def by blast

fun is_released :: "phase \<Rightarrow> bool" where
  "is_released (Released r) = True"
| "is_released _ = False"

text \<open>Schedules in which a call that has released its lock commits before anything else happens.\<close>

fun commits_at_once :: "PaymentProcessor \<Rightarrow> payment_call list \<Rightarrow> tick list \<Rightarrow> World \<Rightarrow> bool" where
  "commits_at_once p calls [] w = True"
| "commits_at_once p calls (e # es) w =
     ((\<forall>i < length calls. is_released (w_phases w ! i) \<longrightarrow> e = Call i) \<and> commits_at_once p calls es (world_step p calls e w))"

definition gap_inv :: "payment_call list \<Rightarrow> World \<Rightarrow> bool" where
  "gap_inv calls w \<longleftrightarrow> lock_inv calls w \<and>
     (\<forall>i < length calls. \<forall>j < length calls. i \<noteq> j \<longrightarrow> is_released (w_phases w ! i) \<longrightarrow>
        \<not> is_released (w_phases w ! j) \<and> (holds_lock (w_phases w ! j) \<longrightarrow> call_key (calls ! i) \<noteq> call_key (calls ! j)))"

text \<open>One tick changes the phase of one call at most; a call is released out of holding the lock.\<close>

lemma call_access_released:
  assumes "call_access p call i ph0 w = (ph, w')"
  shows "is_released ph \<longrightarrow> holds_lock ph0" and "is_released ph0 \<longrightarrow> is_done ph"
  using assms by (cases ph0; auto simp: finish_def split: sum.splits option.splits if_splits prod.splits)+

lemma world_step_phases:
  assumes "length (w_phases w) = length calls"
  obtains (same) "w_phases (world_step p calls e w) = w_phases w"
  | (upd) i ph where "i < length calls" "w_phases (world_step p calls e w) = (w_phases w)[i := ph]"
      "is_released ph \<longrightarrow> holds_lock (w_phases w ! i)" "e = Call i \<and> is_released (w_phases w ! i) \<longrightarrow> is_done ph"
      "e = Call i \<or> e = LostDel i"
proof (cases e)
  case (Expire k)
  then show ?thesis using same by simp
next
  case (LostDel i)
  show ?thesis
  proof (cases "i < length calls \<and> (\<exists>r. w_phases w ! i = Holding r)")
    case True
    then obtain r where "w_phases w ! i = Holding r" by blast
    then show ?thesis using upd [of i "Released r"] True assms LostDel by (simp add: lost_del_def)
  next
    case False
    then have "world_step p calls e w = w" using assms by (auto simp: LostDel lost_del_def split: phase.split)
    then show ?thesis using same by simp
  qed
next
  case (Call i)
  obtain ph w' where adv: "call_access p (calls ! i) i (w_phases w ! i) w = (ph, w')" by fastforce
  show ?thesis
  proof (cases "i < length calls")
    case True
    then show ?thesis using upd [of i ph] adv assms call_access_released [OF adv] by (simp add: Call call_step_def)
  qed (use same assms in \<open>simp add: Call call_step_def\<close>)
qed

lemma gap_inv_step:
  assumes "gap_inv calls w" "\<not> is_expiry e" "\<forall>i < length calls. is_released (w_phases w ! i) \<longrightarrow> e = Call i"
  shows "gap_inv calls (world_step p calls e w)"
proof -
  have l: "length (w_phases w) = length calls" and lw: "lock_inv calls w"
    using assms(1) by (simp_all add: gap_inv_def lock_inv_def)
  have ls: "lock_inv calls (world_step p calls e w)" by (rule lock_inv_step [OF lw assms(2)])
  show ?thesis
  proof (cases rule: world_step_phases [OF l, of p e])
    case 1
    then show ?thesis using assms(1) ls by (simp add: gap_inv_def)
  next
    case (2 k ph)
    have none: "\<not> is_released (w_phases w ! j)" if "j < length calls" "j \<noteq> k" for j
      using assms(3) that 2(5) by auto
    have excl: "call_key (calls ! k) \<noteq> call_key (calls ! j)" if "is_released ph" "j < length calls" "j \<noteq> k" "holds_lock (w_phases w ! j)" for j
      using lw 2(1,3) that unfolding lock_inv_def by metis
    show ?thesis
      unfolding gap_inv_def using ls none excl l 2(1) by (auto simp: 2(2) nth_list_update)
  qed
qed

lemma gap_inv_no_overlap:
  assumes "gap_inv calls w" "\<forall>c \<in> set calls. pe_uuid_string (fst c) = us"
  shows "\<not> overlap calls w"
proof
  assume "overlap calls w"
  then obtain i j where ij: "i < length calls" "j < length calls" "i \<noteq> j" "snapshot (w_phases w ! i) \<noteq> None" "snapshot (w_phases w ! j) \<noteq> None"
    and acc: "pj_AccountID (snd (calls ! i)) = pj_AccountID (snd (calls ! j))" unfolding overlap_def by blast
  have key: "call_key (calls ! i) = call_key (calls ! j)" using call_key_account [OF _ acc] assms(2) ij(1,2) by simp
  have "snapshot ph \<noteq> None \<Longrightarrow> holds_lock ph \<or> is_released ph" for ph by (cases ph) auto
  then show False using assms(1) ij key unfolding gap_inv_def lock_inv_def by metis
qed

text \<open>
  Property C7. The lock does its work up to two gaps: if no lock expires while it is held and
  every call that releases its lock commits before anyone else moves, then no two calls on one account
  ever overlap, so the payments are serial and conserve money.
\<close>

theorem lock_serialises_prompt_commits:
  assumes "\<forall>e \<in> set es. \<not> is_expiry e" "commits_at_once p calls es (at_rest calls t)"
    and "\<forall>c \<in> set calls. pe_uuid_string (fst c) = us"
  shows "never_overlaps p calls es (at_rest calls t)"
proof -
  have "never_overlaps p calls es w" if "gap_inv calls w" "commits_at_once p calls es w" for w
    using that assms(1)
  proof (induction es arbitrary: w)
    case Nil
    then show ?case using gap_inv_no_overlap [OF _ assms(3)] by simp
  next
    case (Cons e es)
    then show ?case using gap_inv_no_overlap [OF _ assms(3)] gap_inv_step [of calls w e p] by simp
  qed
  moreover have "gap_inv calls (at_rest calls t)"
    using lock_inv_at_rest [of calls t] by (simp add: gap_inv_def at_rest_def)
  ultimately show ?thesis using assms(2) by blast
qed

subsection \<open>Every call returns\<close>

fun steps_left :: "phase \<Rightarrow> nat" where
  "steps_left Ready = 5"
| "steps_left (Asked locked) = 4"
| "steps_left Reading = 3"
| "steps_left (Holding r) = 2"
| "steps_left (Released r) = 1"
| "steps_left Refusing = 1"
| "steps_left (Done err) = 0"

lemma steps_left_zero: "steps_left ph = 0 \<longleftrightarrow> is_done ph"
  by (cases ph) auto

lemma call_access_steps_left: "call_access p call i ph0 w = (ph, w') \<Longrightarrow> steps_left ph \<le> steps_left ph0 - 1"
  by (cases ph0) (auto simp: finish_def split: sum.splits option.splits if_splits prod.splits)

lemma world_step_steps_left:
  assumes "length (w_phases w) = length calls" "i < length calls"
  shows "steps_left (w_phases (world_step p calls e w) ! i) \<le> steps_left (w_phases w ! i) - (if e = Call i then 1 else 0)"
    and "length (w_phases (world_step p calls e w)) = length calls"
proof -
  show "length (w_phases (world_step p calls e w)) = length calls"
    by (rule world_step_phases [OF assms(1), of p e]) (use assms(1) in auto)
  show "steps_left (w_phases (world_step p calls e w) ! i) \<le> steps_left (w_phases w ! i) - (if e = Call i then 1 else 0)"
  proof (cases e)
    case (Call k)
    obtain ph w' where adv: "call_access p (calls ! k) k (w_phases w ! k) w = (ph, w')" by fastforce
    then show ?thesis using call_access_steps_left [OF adv] assms by (auto simp: Call call_step_def nth_list_update)
  next
    case (LostDel k)
    then show ?thesis using assms by (cases "w_phases w ! k") (auto simp: lost_del_def nth_list_update)
  qed simp
qed

lemma interleave_steps_left:
  assumes "length (w_phases w) = length calls" "i < length calls"
  shows "steps_left (w_phases (interleave p calls es w) ! i) \<le> steps_left (w_phases w ! i) - count_list es (Call i)"
  using assms(1)
proof (induction es arbitrary: w)
  case (Cons e es)
  note step = world_step_steps_left [OF Cons.prems assms(2), of p e]
  show ?case using Cons.IH [OF step(2)] step(1) by (auto split: if_splits)
qed simp

text \<open>
  Every call returns: whatever the other calls do and whatever expires, a call is done
  once it has had five turns. A taken lock is answered at once, so no call waits for another's.
\<close>

theorem interleaved_payments_return:
  assumes "i < length calls" "5 \<le> count_list es (Call i)"
  shows "\<exists>err. w_phases (interleave p calls es (at_rest calls t)) ! i = Done err"
proof -
  have "steps_left (w_phases (interleave p calls es (at_rest calls t)) ! i) = 0"
    using interleave_steps_left [of "at_rest calls t" calls i p es] assms by (simp add: at_rest_def)
  then show ?thesis unfolding steps_left_zero by (elim is_done.elims) auto
qed

subsection \<open>The two gaps\<close>

lemma undisturbed_update [simp]:
  "undisturbed (env\<lparr>pe_setnx := Inr True, pe_reader := r\<rparr>) = undisturbed (env\<lparr>pe_setnx := Inr True\<rparr>)"
  "random_ok (env\<lparr>pe_setnx := answer, pe_reader := r\<rparr>) = random_ok env"
  by (simp_all add: undisturbed_def random_ok_def)

text \<open>
  Property C8. The release before the commit loses money: whenever an account covers two payments
  and both are clean, there is a schedule without any expiry and without any failure in which both calls
  return nil and the account is left with the second amount taken only. The second call takes the
  lock the first has released, and reads the balance the first has not yet committed.
\<close>

theorem release_gap_loses_debit:
  assumes "undisturbed env1" "random_ok env1" "undisturbed env2" "random_ok env2" "length (pp_EncryptionKey p) = 32"
    and "pe_uuid_string env1 = us" "pe_uuid_string env2 = us" "pj_AccountID job1 = i" "pj_AccountID job2 = i"
    and "holds_cents (pp_EncryptionKey p) (pj_Amount job1) a1" "holds_cents (pp_EncryptionKey p) (pj_Amount job2) a2"
    and "FindByID us None i t = Inr acc" "holds_cents (pp_EncryptionKey p) (ac_Balance acc) b" "a1 + a2 \<le> b"
    and "DecryptToFloat64 (ac_AvgOrderAmount acc) (pp_EncryptionKey p) = Inr v"
    and "0 \<le> ac_OrderCount acc" "ac_OrderCount acc + 1 < 2 ^ 31"
    and "fs_FraudFlag (fst (Analyze (pp_FraudDetector p) (pe_fraud env1) (dollars a1) job1)) = FraudFlagClean"
    and "fs_FraudFlag (fst (Analyze (pp_FraudDetector p) (pe_fraud env2) (dollars a2) job2)) = FraudFlagClean"
  shows "\<exists>es w acc'. filter is_expiry es = [] \<and> w = interleave p [(env1, job1), (env2, job2)] es (at_rest [(env1, job1), (env2, job2)] t) \<and>
    w_phases w = [Done None, Done None] \<and> FindByID us None i (w_tables w) = Inr acc' \<and>
    holds_cents (pp_EncryptionKey p) (ac_Balance acc') (b - a2)"
proof -
  let ?calls = "[(env1, job1), (env2, job2)]"
  let ?e1 = "env1\<lparr>pe_setnx := Inr True, pe_reader := t\<rparr>" and ?e2 = "env2\<lparr>pe_setnx := Inr True, pe_reader := t\<rparr>"
  let ?es = "[Call 0, Call 0, Call 0, Call 0, Call 1, Call 1, Call 1, Call 0, Call 1, Call 1]"
  have u: "pe_setnx env1 = Inr True" "pe_setnx env2 = Inr True" "pe_begin env1 = None" "pe_begin env2 = None"
    using assms(1,3) by (simp_all add: undisturbed_def)
  have und: "undisturbed ?e1" "undisturbed ?e2" "random_ok ?e1" "random_ok ?e2"
    using assms(1-4) by (simp_all add: undisturbed_def)
  have le: "a1 \<le> b" "a2 \<le> b" using assms(14) by simp_all
  obtain t1 tr1 acc1 where pay1: "ProcessPayment p ?e1 job1 t = (None, t1, tr1)" "FindByID us None i t1 = Inr acc1"
    using payment_debits_read [OF und(1,3) assms(5), where t = t and row = acc and acc = acc and job = job1 and a = a1 and b = b and v = v] assms le by auto
  obtain t2 tr2 acc2 where pay2: "ProcessPayment p ?e2 job2 t1 = (None, t2, tr2)" "FindByID us None i t2 = Inr acc2"
    "holds_cents (pp_EncryptionKey p) (ac_Balance acc2) (b - a2)"
    using payment_debits_read [OF und(2,4) assms(5), where t = t1 and row = acc1 and acc = acc and job = job2 and a = a2 and b = b and v = v] assms le pay1(2) by auto
  have run: "w_phases (interleave p ?calls ?es (at_rest ?calls t)) = [Done None, Done None]"
    "w_tables (interleave p ?calls ?es (at_rest ?calls t)) = t2"
    by (simp_all add: at_rest_def call_step_def u finish_def pay1(1) pay2(1) lock_key_def numeral_2_eq_2)
  show ?thesis by (intro exI [of _ ?es] exI [of _ "interleave p ?calls ?es (at_rest ?calls t)"] exI [of _ acc2])
      (simp add: run pay2(2,3) del: interleave.simps One_nat_def)
qed

text \<open>
  The release is unconditional: it deletes the key of the account, whoever holds it. So
  after one expiry, the call that lost its lock deletes that of the next holder, and a third call
  enters: two calls whose locks have not expired hold the lock of one account at the same time.
\<close>

theorem release_after_expiry_frees_strangers_lock:
  assumes "\<forall>(env, job) \<in> {c1, c2, c3}. pe_setnx env = Inr True \<and> pe_begin env = None \<and> lock_key env job = key"
  shows "\<exists>es w. length (filter is_expiry es) = 1 \<and> w = interleave p [c1, c2, c3] es (at_rest [c1, c2, c3] t) \<and>
    holds_lock (w_phases w ! 1) \<and> holds_lock (w_phases w ! 2) \<and> (\<exists>r. w_phases w ! 0 = Released r) \<and> w_locks w = {key}"
proof -
  let ?es = "[Call 0, Call 0, Call 0, Expire key, Call 1, Call 1, Call 0, Call 2]"
  let ?w = "interleave p [c1, c2, c3] ?es (at_rest [c1, c2, c3] t)"
  have u: "pe_setnx (fst c) = Inr True" "pe_begin (fst c) = None" "call_key c = key" if "c \<in> {c1, c2, c3}" for c
    using assms that by auto
  have "w_phases ?w = [Released t, Reading, Asked True]" "w_locks ?w = {key}"
    by (simp_all add: at_rest_def call_step_def u numeral_2_eq_2 numeral_3_eq_3)
  then show ?thesis by (intro exI [of _ ?es] exI [of _ ?w]) (simp add: numeral_2_eq_2 del: interleave.simps)
qed

subsection \<open>Examples\<close>

text \<open>
  Two payments of 25.00 from an account of 100.00 (\<open>calls_example\<close>): the second finds the account
  locked and is refused while the first is under way.
\<close>

definition turns_example :: "tick list" where
  "turns_example = [Call 0, Call 0, Call 1, Call 0, Call 1, Call 1, Call 0, Call 0]"

definition world_example :: World where
  "world_example = interleave processor_example calls_example turns_example (at_rest calls_example (tables_example 10000))"

lemma call_example_answers: "pe_setnx (env_example t) = Inr True" "pe_begin (env_example t) = None"
  by (simp_all add: env_example_def)

lemmas run_example_simps =
  turns_example_def calls_example_def at_rest_def call_step_def call_example_answers finish_def lock_key_def

lemma two_calls:
  "overlap [c, d] w \<longleftrightarrow> pj_AccountID (snd c) = pj_AccountID (snd d) \<and> snapshot (w_phases w ! 0) \<noteq> None \<and> snapshot (w_phases w ! 1) \<noteq> None"
  "(\<forall>i < Suc (Suc 0). P i) \<longleftrightarrow> P 0 \<and> P (Suc 0)"
proof -
  show all: "(\<forall>i < Suc (Suc 0). P i) \<longleftrightarrow> P 0 \<and> P (Suc 0)" for P :: "nat \<Rightarrow> bool" by (auto simp: less_Suc_eq)
  have any: "(\<exists>i < Suc (Suc 0). P i) \<longleftrightarrow> P 0 \<or> P (Suc 0)" for P :: "nat \<Rightarrow> bool" using all [of "\<lambda>i. \<not> P i"] by blast
  show "overlap [c, d] w \<longleftrightarrow> pj_AccountID (snd c) = pj_AccountID (snd d) \<and> snapshot (w_phases w ! 0) \<noteq> None \<and> snapshot (w_phases w ! 1) \<noteq> None"
    by (cases "pj_AccountID (snd c) = pj_AccountID (snd d)") (auto simp: overlap_def any)
qed

lemma turns_example_facts:
  "\<forall>e \<in> set turns_example. \<not> is_expiry e"
  "commits_at_once processor_example calls_example turns_example (at_rest calls_example t)"
  "never_overlaps processor_example calls_example turns_example (at_rest calls_example t)"
  "\<forall>c \<in> set calls_example. pe_uuid_string (fst c) = (\<lambda>u. ''uuid'')"
proof -
  show "commits_at_once processor_example calls_example turns_example (at_rest calls_example t)"
    by (simp add: run_example_simps two_calls split_beta)
  show "never_overlaps processor_example calls_example turns_example (at_rest calls_example t)"
    by (simp add: run_example_simps two_calls split_beta)
qed (simp_all add: turns_example_def calls_example_def env_example_def)

text \<open>What the two calls of the example do on their own.\<close>

lemma refused_example:
  "\<exists>t' tr. ProcessPayment p ((env_example t0)\<lparr>pe_setnx := Inr False, pe_reader := r\<rparr>) job t =
     (Some (ErrorString ''account locked by another process''), t', tr) \<and> t_accounts t' = t_accounts t"
  by (simp add: ProcessPayment_unlocked process_unlocked_def env_example_def status_tx_def tx_Exec_def UpdateStatus_def Begin_def Commit_def)

lemma paid_example:
  assumes "t_accounts t = t_accounts (tables_example 10000)"
  shows "\<exists>t' tr acc'. ProcessPayment processor_example ((env_example t0)\<lparr>pe_setnx := Inr True, pe_reader := tables_example 10000\<rparr>)
       (job_example 2500) t = (None, t', tr) \<and>
     FindByID us None 7 t' = Inr acc' \<and> holds_cents key_example (ac_Balance acc') 7500"
proof -
  let ?env = "(env_example t0)\<lparr>pe_setnx := Inr True, pe_reader := tables_example 10000\<rparr>"
  have c: "cents_ok 2500" by (simp add: cents_ok_def)
  have u: "undisturbed ?env" "random_ok ?env" using example_facts(1,2) by (simp_all add: undisturbed_def random_ok_def env_example_def)
  have f: "FindByID us' None 7 t = Inr (account_example 10000)" for us'
    using FindByID_cong [OF assms] example_facts(13) by simp
  show ?thesis
    using payment_debits_read [OF u example_facts(3), where t = t and row = "account_example 10000" and acc = "account_example 10000"
        and job = "job_example 2500" and a = 2500 and b = 10000 and v = f64_zero]
      f example_premises example_facts fraud_example_verdict [OF c]
    by (auto simp: env_example_def FindByID_def split: if_splits)
qed

lemma world_example_phases: "w_phases world_example = [Done None, Done (Some (ErrorString ''account locked by another process''))]"
proof -
  obtain t1 tr1 where r: "ProcessPayment processor_example ((env_example (tables_example 10000))\<lparr>pe_setnx := Inr False,
      pe_reader := tables_example 10000\<rparr>) (job_example 2500) (tables_example 10000) =
      (Some (ErrorString ''account locked by another process''), t1, tr1)" "t_accounts t1 = t_accounts (tables_example 10000)"
    using refused_example by blast
  show ?thesis using paid_example [OF r(2), of "tables_example 10000" "\<lambda>u. []"]
    by (auto simp: world_example_def run_example_simps r(1))
qed

lemma taken_example: "taken_cents 7 (\<lambda>j. 2500) calls_example world_example = 2500"
proof -
  have l: "landed (env_example t)" for t by (simp add: landed_def env_example_def)
  have "{k. k < length calls_example \<and> w_phases world_example ! k = Done None \<and> landed (fst (calls_example ! k)) \<and>
      pj_AccountID (snd (calls_example ! k)) = 7} = {0}"
    by (auto simp: world_example_phases calls_example_def less_Suc_eq example_facts l)
  then show ?thesis by (simp add: taken_cents_def)
qed

theorem interleaved_payments_serial_witness:
  "pay_all processor_example (history calls_example world_example) (tables_example 10000) =
     (map (\<lambda>(i, answer). outcome (w_phases world_example ! i)) (w_log world_example), w_tables world_example) \<and>
   fst ` set (w_log world_example) = {0, 1}"
proof -
  have "{i. i < length calls_example \<and> is_done (w_phases world_example ! i)} = {0, 1}"
    by (auto simp: world_example_phases calls_example_def less_Suc_eq)
  then show ?thesis using interleaved_payments_serial [OF turns_example_facts(3) world_example_def] by simp
qed

theorem interleaved_payments_conserve_money_witness:
  "\<exists>acc'. FindByID (\<lambda>u. ''uuid'') None 7 (w_tables world_example) = Inr acc' \<and> holds_cents key_example (ac_Balance acc') 7500"
proof -
  have d: "\<forall>(env, job) \<in> set calls_example. nonce_ok env \<and> holds_cents (pp_EncryptionKey processor_example) (pj_Amount job) 2500"
    using example_premises(2) by (simp add: calls_example_def nonce_ok_def env_example_def nonce_example_def)
  have f: "FindByID (\<lambda>u. ''uuid'') None 7 (tables_example 10000) = Inr (account_example 10000)" by (simp add: example_facts)
  show ?thesis
    using interleaved_payments_conserve_money [OF turns_example_facts(3) d f example_premises(3) world_example_def]
    by (simp add: taken_example example_facts)
qed

theorem lock_excludes_until_release_witness:
  "\<not> (holds_lock (w_phases world_example ! 0) \<and> holds_lock (w_phases world_example ! 1))"
  by (rule lock_excludes_until_release [OF turns_example_facts(1) _ _ _ _ _ world_example_def])
    (simp_all add: calls_example_def)

theorem lock_serialises_prompt_commits_witness:
  "never_overlaps processor_example calls_example turns_example (at_rest calls_example (tables_example 10000))"
  by (rule lock_serialises_prompt_commits [OF turns_example_facts(1,2,4)])

theorem interleaved_payments_return_witness:
  "\<exists>err. w_phases (interleave processor_example calls_example (replicate 5 (Call 1) @ turns_example)
     (at_rest calls_example (tables_example 10000))) ! 1 = Done err"
  by (rule interleaved_payments_return) (simp_all add: calls_example_def eval_nat_numeral)

theorem release_gap_loses_debit_witness:
  "\<exists>es w acc'. filter is_expiry es = [] \<and> w = interleave processor_example calls_example es (at_rest calls_example (tables_example 10000)) \<and>
    w_phases w = [Done None, Done None] \<and> FindByID (\<lambda>u. ''uuid'') None 7 (w_tables w) = Inr acc' \<and>
    holds_cents key_example (ac_Balance acc') 7500"
proof -
  have us: "pe_uuid_string (env_example t) = (\<lambda>u. ''uuid'')" for t by (simp add: env_example_def)
  have f: "FindByID (\<lambda>u. ''uuid'') None 7 (tables_example 10000) = Inr (account_example 10000)" by (simp add: example_facts)
  have le: "2500 + 2500 \<le> (10000 :: nat)" "(10000 :: nat) - 2500 = 7500" by simp_all
  show ?thesis
    using release_gap_loses_debit [OF example_facts(1,2,1,2,3) us us example_facts(8,8) example_premises(2,2) f example_premises(3) le(1)
        example_facts(12) example_premises(5,6,7,7)]
    unfolding calls_example_def le(2) example_facts(6) .
qed

theorem release_after_expiry_frees_strangers_lock_witness:
  "\<exists>es w. length (filter is_expiry es) = 1 \<and>
    w = interleave processor_example (hd calls_example # calls_example) es (at_rest (hd calls_example # calls_example) (tables_example 10000)) \<and>
    holds_lock (w_phases w ! 1) \<and> holds_lock (w_phases w ! 2) \<and> w_locks w = {''lock:account:uuid''}"
proof -
  let ?c = "(env_example (tables_example 10000), job_example 2500)"
  have "\<forall>(env, job) \<in> {?c, ?c, ?c}. pe_setnx env = Inr True \<and> pe_begin env = None \<and> lock_key env job = ''lock:account:uuid''"
    by (simp add: env_example_def lock_key_def)
  from release_after_expiry_frees_strangers_lock [OF this, of processor_example "tables_example 10000"]
  show ?thesis unfolding calls_example_def list.sel by blast
qed

end
