(* ===== verification/Redelivery.thy ===== *)
theory Redelivery
  imports Retry_Consumer
begin

text \<open>
  The consumers across restarts: what the broker keeps of a consumer group is the last position
  it committed (\<open>pkg/kafka/commit_manager.go\<close>), and a worker that starts anew
  (\<open>NewKafkaOrderConsumer\<close>, \<open>NewKafkaRetryHandler\<close>: offset reset \<open>earliest\<close>, a fresh commit manager) reads
  the partition from there. A life of a worker is a run of its loop from the start to a crash or a
  shutdown at any moment; \<open>lifetimes\<close> strings lives together. A partition is the list of its messages,
  with their index as offset. Both consumers keep the contract \<open>committing_loop\<close>, from which the lemmas
  are proved once.
\<close>

fun commit_of :: "tp \<Rightarrow> msg_event \<Rightarrow> int list" where
  "commit_of key (OffsetCommit (k, c)) = (if k = key then [c] else [])"
| "commit_of key _ = []"

text \<open>The position of the group after a life that began at \<open>pos\<close>.\<close>

definition position_after :: "tp \<Rightarrow> int \<Rightarrow> OrderLoop \<Rightarrow> int" where
  "position_after key pos s = last (pos # concat (map (commit_of key) (ms_trace (ol_state s))))"

definition partition_reads :: "tp \<Rightarrow> OrderLoop \<Rightarrow> Message list" where
  "partition_reads key s = filter (\<lambda>m. msg_tp m = key) (ol_received s)"

definition reads_from :: "tp \<Rightarrow> Message list \<Rightarrow> int \<Rightarrow> OrderLoop \<Rightarrow> bool" where
  "reads_from key part pos s \<longleftrightarrow>
     partition_reads key s = take (length (partition_reads key s)) (drop (nat pos) part)"

definition partition_ok :: "tp \<Rightarrow> Message list \<Rightarrow> bool" where
  "partition_ok key part \<longleftrightarrow> (\<forall>i < length part. msg_tp (part ! i) = key \<and> msg_offset (part ! i) = int i)"

inductive lifetimes :: "(OrderLoop \<Rightarrow> bool) \<Rightarrow> tp \<Rightarrow> Message list \<Rightarrow> OrderLoop list \<Rightarrow> int \<Rightarrow> bool"
  for reach :: "OrderLoop \<Rightarrow> bool" and key :: tp and part :: "Message list" where
  Fresh: "lifetimes reach key part [] 0"
| Restart: "lifetimes reach key part ss pos \<Longrightarrow> reach s \<Longrightarrow> reads_from key part pos s \<Longrightarrow>
    lifetimes reach key part (ss @ [s]) (position_after key pos s)"

text \<open>The end states of the lives of the two consumers.\<close>

definition order_life :: "WorkerConfig \<Rightarrow> OrderLoop \<Rightarrow> bool" where
  "order_life cfg s \<longleftrightarrow> (\<exists>t. (ostep cfg commits_ok)\<^sup>*\<^sup>* (order_loop_start t) s)"

definition retry_life :: "WorkerConfig \<Rightarrow> OrderLoop \<Rightarrow> bool" where
  "retry_life cfg s \<longleftrightarrow> (\<exists>t. (rstep cfg retry_commits_ok)\<^sup>*\<^sup>* (order_loop_start t) s)"

lemma position_after_commit:
  "position_after key pos s \<noteq> pos \<Longrightarrow> OffsetCommit (key, position_after key pos s) \<in> set (ms_trace (ol_state s))"
proof -
  assume "position_after key pos s \<noteq> pos"
  then have "position_after key pos s \<in> set (concat (map (commit_of key) (ms_trace (ol_state s))))"
    by (cases "concat (map (commit_of key) (ms_trace (ol_state s)))" rule: rev_cases) (auto simp: position_after_def)
  then obtain e where e: "e \<in> set (ms_trace (ol_state s))" "position_after key pos s \<in> set (commit_of key e)" by auto
  then show ?thesis by (cases "(key, e)" rule: commit_of.cases) (auto split: if_splits)
qed

text \<open>What the lemmas need of a consumer: its commits lie behind finished messages, which it has read.\<close>

locale committing_loop =
  fixes reach :: "OrderLoop \<Rightarrow> bool"
  assumes commits: "reach s \<Longrightarrow> commit_inv s"
    and finished_read: "reach s \<Longrightarrow> set (ol_finished s) \<subseteq> set (ol_received s)"
begin

lemma new_position:
  assumes "reach s" "position_after key pos s \<noteq> pos"
  shows "2 \<le> position_after key pos s" "{1..<position_after key pos s} \<subseteq> finished_offsets key s"
  using commits [OF assms(1)] position_after_commit [OF assms(2)] by (simp_all add: commit_inv_def)

lemma lifetimes_position:
  "lifetimes reach key part ss pos \<Longrightarrow>
   (pos = 0 \<or> 2 \<le> pos) \<and> (\<forall>i. 1 \<le> i \<and> i < pos \<longrightarrow> (\<exists>s \<in> set ss. i \<in> finished_offsets key s))"
proof (induction rule: lifetimes.induct)
  case (Restart ss pos s)
  show ?case
  proof (cases "position_after key pos s = pos")
    case True
    then show ?thesis using Restart.IH by auto
  next
    case False
    note new = new_position [OF Restart.hyps(2) False]
    then show ?thesis by (auto simp: subset_iff)
  qed
qed simp

text \<open>Every message a life handles of a partition read from \<open>pos\<close> has at least that offset.\<close>

lemma finished_beyond:
  assumes "reach s" "reads_from key part pos s" "partition_ok key part" "0 \<le> pos" "i \<in> finished_offsets key s"
  shows "pos \<le> i"
proof -
  obtain m where m: "m \<in> set (ol_finished s)" "msg_tp m = key" "msg_offset m = i"
    using assms(5) by (auto simp: finished_offsets_def)
  then have "m \<in> set (partition_reads key s)" using finished_read [OF assms(1)] by (auto simp: partition_reads_def)
  then have "m \<in> set (drop (nat pos) part)" using assms(2) unfolding reads_from_def by (metis in_set_takeD)
  then obtain k where "k < length (drop (nat pos) part)" "drop (nat pos) part ! k = m" by (metis in_set_conv_nth)
  then have "nat pos + k < length part" "m = part ! (nat pos + k)" by (simp_all add: less_diff_conv add.commute)
  then have "msg_offset m = int (nat pos + k)" using assms(3) by (simp add: partition_ok_def)
  then show ?thesis using m(3) assms(4) by simp
qed

lemma position_frozen:
  assumes "lifetimes reach key part ss pos" "pos \<noteq> 0" "partition_ok key part" "reach s" "reads_from key part pos s"
  shows "position_after key pos s = pos"
proof (rule ccontr)
  assume "position_after key pos s \<noteq> pos"
  note new = new_position [OF assms(4) this]
  have pos: "2 \<le> pos" using lifetimes_position [OF assms(1)] assms(2) by blast
  have "1 \<in> finished_offsets key s" using new by (auto simp: subset_iff)
  then have "pos \<le> 1" using finished_beyond [OF assms(4,5,3)] pos by simp
  with pos show False by simp
qed

end

lemma loop_finished_read: "loop_inv slots s \<Longrightarrow> set (ol_finished s) \<subseteq> set (ol_received s)"
  unfolding loop_inv_def by (metis Un_upper2 le_supI1 set_mset_mset set_mset_union)

interpretation order_lives: committing_loop "order_life cfg" for cfg
proof
  fix s assume "order_life cfg s"
  then obtain t where r: "(ostep cfg commits_ok)\<^sup>*\<^sup>* (order_loop_start t) s" by (auto simp: order_life_def)
  then show "commit_inv s" by (induction rule: rtranclp_induct) (auto intro: commit_inv_start ostep_commit_inv)
  show "set (ol_finished s) \<subseteq> set (ol_received s)" by (rule loop_finished_read [OF reachable_inv [OF r]])
qed

interpretation retry_lives: committing_loop "retry_life cfg" for cfg
proof
  fix s assume "retry_life cfg s"
  then obtain t where r: "(rstep cfg retry_commits_ok)\<^sup>*\<^sup>* (order_loop_start t) s" by (auto simp: retry_life_def)
  then show "commit_inv s" by (induction rule: rtranclp_induct) (auto intro: commit_inv_start rstep_commit_inv)
  have "loop_inv (wc_MaxOrdersRetryConcurrentJobs cfg) s" using r
    by (induction rule: rtranclp_induct) (auto intro: loop_start_inv rstep_inv)
  then show "set (ol_finished s) \<subseteq> set (ol_received s)" by (rule loop_finished_read)
qed

text \<open>
  Property C10. At least once, across restarts: however often a worker crashes or is restarted, at
  whatever moments, the position its group has reached lies behind messages that some life of the
  worker has finished (offset 0 excepted), and everything from the position on is read by the next
  life. This holds for the order consumer and for the retry consumer, while the broker accepts
  the commits.
\<close>

theorem restarts_skip_nothing:
  assumes "lifetimes reach key part ss pos" "reach = order_life cfg \<or> reach = retry_life cfg" "1 \<le> i" "i < pos"
  shows "\<exists>s \<in> set ss. \<exists>m \<in> set (ol_finished s). msg_tp m = key \<and> msg_offset m = i"
proof -
  have "\<exists>s \<in> set ss. i \<in> finished_offsets key s"
    using order_lives.lifetimes_position [of cfg key part ss pos] retry_lives.lifetimes_position [of cfg key part ss pos] assms by auto
  then show ?thesis by (force simp: finished_offsets_def)
qed

text \<open>
  Property C11. A restart freezes the position: once a group has committed a position, no later life
  of the worker moves it, since the fresh commit manager of that life waits for offset 1, which lies
  before the position and is never read again. So every later life reads the messages from that
  position on anew, those that earlier lives have finished and acknowledged included.
\<close>

theorem restart_freezes_position:
  assumes "lifetimes reach key part ss pos" "reach = order_life cfg \<or> reach = retry_life cfg" "pos \<noteq> 0"
    and "partition_ok key part" "reach s" "reads_from key part pos s"
  shows "position_after key pos s = pos \<and> (partition_reads key s \<noteq> [] \<longrightarrow> hd (partition_reads key s) = part ! nat pos)"
proof -
  have "position_after key pos s = pos"
    using order_lives.position_frozen [of cfg key part ss pos s] retry_lives.position_frozen [of cfg key part ss pos s] assms by auto
  moreover have "hd (partition_reads key s) = part ! nat pos" if "partition_reads key s \<noteq> []"
  proof -
    have "hd (partition_reads key s) = hd (drop (nat pos) part)" and "drop (nat pos) part \<noteq> []"
      using assms(6) that unfolding reads_from_def by (metis hd_take length_greater_0_conv, metis take_Nil)
    then show ?thesis by (simp add: hd_drop_conv_nth)
  qed
  ultimately show ?thesis by blast
qed

text \<open>
  Property C12. A message that is delivered again is paid again: if the order loop handles one message
  in two lives, both times undisturbed and judged clean, and the account covers the amount twice, both calls succeed, neither parks the message,
  and the account ends lower by twice the amount. The worker does not look at the order's status
  or at the idempotency key before it debits.
\<close>

theorem redelivered_job_debited_again:
  assumes "clean_call p us i cents env1 job" "clean_call p us i cents env2 job" "length (pp_EncryptionKey p) = 32"
    and "FindByID us None i (ms_tables s1) = Inr acc" "holds_cents (pp_EncryptionKey p) (ac_Balance acc) b" "2 * cents job \<le> b"
    and "holds_average (pp_EncryptionKey p) (ac_AvgOrderAmount acc)" "0 \<le> ac_OrderCount acc" "ac_OrderCount acc + 2 < 2 ^ 31"
    and "\<not> me_ctx_done menv1" "me_unmarshal menv1 (msg_Value m) = (job, None)" "me_validate menv1 job = None"
    and "\<not> me_ctx_done menv2" "me_unmarshal menv2 (msg_Value m) = (job, None)" "me_validate menv2 job = None"
    and "s1' = processMessage cfg (ProcessPayment p (env1\<lparr>pe_reader := ms_tables s1\<rparr>)) menv1 m s1"
    and "s2 = ol_state (order_loop_start (ms_tables s1'))"
    and "s2' = processMessage cfg (ProcessPayment p (env2\<lparr>pe_reader := ms_tables s2\<rparr>)) menv2 m s2"
  shows "(\<exists>acc'. FindByID us None i (ms_tables s2') = Inr acc' \<and> holds_cents (pp_EncryptionKey p) (ac_Balance acc') (b - 2 * cents job)) \<and>
    filter is_dlq (ms_trace s1') = filter is_dlq (ms_trace s1) \<and> filter is_dlq (ms_trace s2') = []"
proof -
  let ?k = "pp_EncryptionKey p"
  have le: "cents job \<le> b" "cents job \<le> b - cents job" "ac_OrderCount acc + 1 < 2 ^ 31" using assms(6,9) by simp_all
  obtain t1 tr1 acc1 where pay1: "ProcessPayment p (env1\<lparr>pe_reader := ms_tables s1\<rparr>) job (ms_tables s1) = (None, t1, tr1)"
    "FindByID us None i t1 = Inr acc1" "holds_cents ?k (ac_Balance acc1) (b - cents job)" "holds_average ?k (ac_AvgOrderAmount acc1)"
    "ac_OrderCount acc1 = ac_OrderCount acc + 1"
    by (rule clean_payment [OF assms(1,3,4,5) le(1) assms(7,8) le(3)])
  have n1: "0 \<le> ac_OrderCount acc1" "ac_OrderCount acc1 + 1 < 2 ^ 31" using pay1(5) assms(8,9) by simp_all
  note m1 = processMessage_paid [where process = "ProcessPayment p (env1\<lparr>pe_reader := ms_tables s1\<rparr>)", OF assms(10-12) pay1(1), of cfg]
  have s2: "ms_tables s2 = t1" "ms_trace s2 = []" using m1(1) by (simp_all add: assms(16,17) order_loop_start_def)
  obtain t2 tr2 acc2 where pay2: "ProcessPayment p (env2\<lparr>pe_reader := t1\<rparr>) job t1 = (None, t2, tr2)"
    "FindByID us None i t2 = Inr acc2" "holds_cents ?k (ac_Balance acc2) (b - cents job - cents job)"
    by (rule clean_payment [OF assms(2,3) pay1(2,3) le(2) pay1(4) n1])
  have pay2': "ProcessPayment p (env2\<lparr>pe_reader := ms_tables s2\<rparr>) job (ms_tables s2) = (None, t2, tr2)" using pay2(1) s2(1) by simp
  note m2 = processMessage_paid [where process = "ProcessPayment p (env2\<lparr>pe_reader := ms_tables s2\<rparr>)", OF assms(13-15) pay2', of cfg]
  have "b - cents job - cents job = b - 2 * cents job" by simp
  then show ?thesis using m1(2) m2 pay2(2,3) s2(2) by (simp add: assms(16,18))
qed

subsection \<open>Examples\<close>

text \<open>
  A partition of three messages. The first life reads the first two, finishes the second and crashes,
  the second life reads the third.
\<close>

definition part_example :: "Message list" where
  "part_example = map (\<lambda>i. message_example\<lparr>msg_offset := i\<rparr>) [0, 1, 2]"

definition first_life :: OrderLoop where
  "first_life = (let m0 = part_example ! 0; m1 = part_example ! 1; s0 = order_loop_start (tables_example 10000);
       received = CountReceived (tp_topic (msg_tp m0));
       st = slot_taken m1 (note_event received (slot_taken m0 (note_event received (ol_state s0))))
     in s0\<lparr>ol_received := [m0, m1], ol_inflight := [m0], ol_finished := [m1],
          ol_state := run_message worker_config_example (\<lambda>j t. (None, t, [])) msg_env_example m1 st\<rparr>)"

definition second_life :: OrderLoop where
  "second_life = (let m2 = part_example ! 2; s0 = order_loop_start (tables_example 10000)
     in s0\<lparr>ol_waiting := Some m2, ol_received := [m2],
          ol_state := note_event (CountReceived (tp_topic (msg_tp m2))) (ol_state s0)\<rparr>)"

lemma first_life_reachable: "order_life worker_config_example first_life"
proof -
  let ?R = "ostep worker_config_example commits_ok" and ?m = "part_example ! 0" and ?n = "part_example ! 1"
  let ?s0 = "order_loop_start (tables_example 10000)" and ?e = "CountReceived (tp_topic (msg_tp message_example))"
  let ?s1 = "?s0\<lparr>ol_waiting := Some ?m, ol_received := [?m], ol_state := note_event ?e (ol_state ?s0)\<rparr>"
  let ?s2 = "?s1\<lparr>ol_waiting := None, ol_inflight := [?m], ol_state := slot_taken ?m (ol_state ?s1)\<rparr>"
  let ?s3 = "?s2\<lparr>ol_waiting := Some ?n, ol_received := [?m, ?n], ol_state := note_event ?e (ol_state ?s2)\<rparr>"
  let ?s4 = "?s3\<lparr>ol_waiting := None, ol_inflight := [?n, ?m], ol_state := slot_taken ?n (ol_state ?s3)\<rparr>"
  have cap: "wc_MaxOrdersPlacedConcurrentJobs worker_config_example \<ge> 2" by (simp add: worker_config_example_def)
  have a1: "?R ?s0 ?s1" using ostep.Receive [of ?s0 worker_config_example commits_ok ?m] by (simp add: order_loop_start_def part_example_def)
  have a2: "?R ?s1 ?s2" using ostep.Acquire [of ?s1 ?m worker_config_example commits_ok] cap by (simp add: order_loop_start_def)
  have a3: "?R ?s2 ?s3" using ostep.Receive [of ?s2 worker_config_example commits_ok ?n] by (simp add: order_loop_start_def part_example_def)
  have a4: "?R ?s3 ?s4" using ostep.Acquire [of ?s3 ?n worker_config_example commits_ok] cap by (simp add: order_loop_start_def)
  have a5: "?R ?s4 first_life"
    using ostep.Finish [of ?n ?s4 commits_ok msg_env_example worker_config_example "\<lambda>j t. (None, t, [])"]
    by (simp add: first_life_def order_loop_start_def commits_ok_def msg_env_example_def offset_ok_def part_example_def Let_def)
  note step = rtranclp.rtrancl_into_rtrancl [of ?R]
  show ?thesis unfolding order_life_def
    by (intro exI, rule step [OF step [OF step [OF step [OF step [OF rtranclp.rtrancl_refl a1] a2] a3] a4] a5])
qed

lemma second_life_reachable: "order_life worker_config_example second_life"
  using ostep.Receive [of "order_loop_start (tables_example 10000)" worker_config_example commits_ok "part_example ! 2"]
  unfolding order_life_def second_life_def Let_def
  by (intro exI [of _ "tables_example 10000"] r_into_rtranclp) (simp add: order_loop_start_def)

lemma part_example_ok: "partition_ok tp_example part_example"
  by (auto simp: partition_ok_def part_example_def message_example_def less_Suc_eq numeral_2_eq_2 numeral_3_eq_3)

lemma first_life_position: "position_after tp_example 0 first_life = 2"
  by (simp add: position_after_def first_life_def part_example_def order_loop_start_def processMessage_def msg_env_example_def note_event_def
      slot_taken_def run_message_def
      message_example_def ack_message_def NewCommitManager_def Ack_def advance_eval offset_ok_def wrap64_def Let_def)

lemma lifetimes_example: "lifetimes (order_life worker_config_example) tp_example part_example [first_life] 2"
proof -
  have "reads_from tp_example part_example 0 first_life"
    by (simp add: reads_from_def partition_reads_def first_life_def part_example_def message_example_def Let_def)
  from lifetimes.Restart [where ss = "[]" and reach = "order_life worker_config_example", OF lifetimes.Fresh first_life_reachable this] first_life_position show ?thesis by simp
qed

theorem restarts_skip_nothing_witness:
  "\<exists>m \<in> set (ol_finished first_life). msg_tp m = tp_example \<and> msg_offset m = 1"
  using restarts_skip_nothing [OF lifetimes_example, of worker_config_example 1] by simp

theorem restart_freezes_position_witness:
  "position_after tp_example 2 second_life = 2 \<and> hd (partition_reads tp_example second_life) = part_example ! 2"
proof -
  have r: "reads_from tp_example part_example 2 second_life" "partition_reads tp_example second_life \<noteq> []"
    by (simp_all add: reads_from_def partition_reads_def second_life_def part_example_def message_example_def Let_def)
  show ?thesis
    using restart_freezes_position [OF lifetimes_example _ _ part_example_ok second_life_reachable r(1), of worker_config_example] r(2) by simp
qed

definition handled_once :: MsgState where
  "handled_once = processMessage worker_config_example
     (ProcessPayment processor_example ((env_example (tables_example 10000))\<lparr>pe_reader := ms_tables msg_state_example\<rparr>))
     msg_env_example message_example msg_state_example"

definition handled_twice :: MsgState where
  "handled_twice = (let s = ol_state (order_loop_start (ms_tables handled_once)) in
     processMessage worker_config_example
       (ProcessPayment processor_example ((env_example (tables_example 10000))\<lparr>pe_reader := ms_tables s\<rparr>)) msg_env_example message_example s)"

theorem redelivered_job_debited_again_witness:
  "(\<exists>acc'. FindByID (\<lambda>u. ''uuid'') None 7 (ms_tables handled_twice) = Inr acc' \<and> holds_cents key_example (ac_Balance acc') 5000) \<and>
   filter is_dlq (ms_trace handled_twice) = []"
proof -
  have f: "FindByID (\<lambda>u. ''uuid'') None 7 (ms_tables msg_state_example) = Inr (account_example 10000)"
    by (simp add: msg_state_example_def example_facts)
  have m: "\<not> me_ctx_done msg_env_example" "me_unmarshal msg_env_example (msg_Value message_example) = (job_example 2500, None)"
    "me_validate msg_env_example (job_example 2500) = None" by (simp_all add: msg_env_example_def)
  have n: "2 * 2500 \<le> (10000 :: nat)" "ac_OrderCount (account_example 10000) + 2 < 2 ^ 31" "(10000 :: nat) - 2 * 2500 = 5000"
    by (simp_all add: example_facts)
  show ?thesis
    using redelivered_job_debited_again [OF clean_call_example clean_call_example example_facts(3) f example_premises(3) n(1)
        average_example example_premises(5) n(2) m m handled_once_def refl handled_twice_def [unfolded Let_def]]
    unfolding n(3) example_facts(6) by blast
qed

end
