(* ===== verification/Seeded_Orders.thy ===== *)
theory Seeded_Orders
  imports Order_Seeder Seeded_Data
begin

text \<open>
  The two seeders and the API together: the accounts \<open>user_account_seeder.go\<close> writes are the ones
  \<open>order_seeder.go\<close> reads, and the orders it draws for them are the requests \<open>POST /orders\<close> binds.
\<close>

text \<open>The body of a posted order, as the API binds it: the JSON names of both structs are the same.\<close>

definition seed_request :: "SeedOrder \<Rightarrow> OrderRequest" where
  "seed_request o' = \<lparr>rq_IdempotencyID = so_IdempotencyID o', rq_AccountID = so_AccountID o', rq_Amount = so_Amount o',
     rq_Currency = so_Currency o'\<rparr>"

definition job_binds :: "Tables \<Rightarrow> seed_job \<Rightarrow> bool" where
  "job_binds t j \<longleftrightarrow> OrderRequest_tags (seed_request (jb_order j)) \<and> account_exists t (so_AccountID (jb_order j)) (jb_userID j)"

definition usable_account :: "Account \<Rightarrow> bool" where
  "usable_account a \<longleftrightarrow> ac_ID a \<noteq> uuid_Nil \<and> ac_Currency a \<in> {''USD'', ''CAD''}"

text \<open>The amounts: a draw between one cent and 4999 dollars passes the tag of the API.\<close>

definition order_draws_ok :: "Seeder \<Rightarrow> EnqueueEnv \<Rightarrow> bool" where
  "order_draws_ok s env \<longleftrightarrow> (\<exists>p q. sr_minAmount s = Fin False p \<and> sr_maxAmount s = Fin False q \<and> 1 / 100 \<le> p \<and> p \<le> q \<and> q \<le> 4999) \<and>
     (\<forall>pt. unit_draw (ne_float env pt) \<and> ne_uuid env pt \<noteq> uuid_Nil)"

lemma f64_add_commute: "f64_add x y = f64_add y x"
  by (cases x; cases y) (simp_all add: add.commute conj_commute)

lemma seed_job_binds:
  assumes "order_draws_ok s env" "usable_account a" "account_exists t (ac_ID a) u"
  shows "job_binds t (seed_job_at s env pt u a)"
proof -
  obtain p q where pq: "sr_minAmount s = Fin False p" "sr_maxAmount s = Fin False q" "1 / 100 \<le> p" "p \<le> q" "q \<le> 4999"
    and d: "unit_draw (ne_float env pt)" "ne_uuid env pt \<noteq> uuid_Nil" using assms(1) by (auto simp: order_draws_ok_def)
  obtain w where w: "f64_round False (q - p) = Fin False w" "\<bar>w - (q - p)\<bar> \<le> 1 / 1024" "0 \<le> w"
    using pq f64_round_near [of "q - p"] by auto
  have "p + w \<le> 5000" using w(2) pq by linarith
  then have "p + w < 2 ^ 43" by simp
  then obtain m where m: "f64_add (Fin False p) (f64_mul (ne_float env pt) (Fin False w)) = Fin False m" "p - 1 / 512 \<le> m" "m \<le> p + w + 1 / 512"
    using draw_between [OF d(1), of p w] w(3) pq(3) by auto
  have "so_Amount (jb_order (seed_job_at s env pt u a)) = Fin False m"
    using m(1) w(1) f64_add_commute by (simp add: seed_job_at_def pq f64_sub_def f64_val_def)
  moreover have "0 < m" "m < 5000" using m(2,3) w(2) pq by linarith+
  ultimately show ?thesis
    using assms(2,3) d(2) by (auto simp: job_binds_def OrderRequest_tags_def seed_request_def seed_job_at_def usable_account_def
        f64_of_int_exact f64_val_def)
qed

text \<open>The loops of the producer keep it.\<close>

lemma enqueue_orders_binds:
  "enqueue_orders s env page u a js st = Some st' \<Longrightarrow> order_draws_ok s env \<Longrightarrow> usable_account a \<Longrightarrow> account_exists t (ac_ID a) u \<Longrightarrow>
   list_all (job_binds t) (snd st) \<Longrightarrow> list_all (job_binds t) (snd st')"
  by (induction s env page u a js st rule: enqueue_orders.induct)
    (auto simp: seed_job_binds Let_def split: if_splits send_end.splits)

lemma enqueue_accounts_binds:
  "enqueue_accounts s env page u as st = Some st' \<Longrightarrow> order_draws_ok s env \<Longrightarrow>
   \<forall>a \<in> set as. usable_account a \<and> account_exists t (ac_ID a) u \<Longrightarrow> list_all (job_binds t) (snd st) \<Longrightarrow> list_all (job_binds t) (snd st')"
proof (induction "as" arbitrary: st)
  case (Cons a "as")
  show ?case
  proof (cases "fst st \<le> 0")
    case False
    then obtain st1 where st1: "enqueue_orders s env page u a [0..<unat (sr_noOfOrdersPerAccount s)] st = Some st1"
      "enqueue_accounts s env page u as st1 = Some st'" using Cons.prems(1) by (auto split: option.splits)
    show ?thesis using Cons.IH [OF st1(2) Cons.prems(2)] enqueue_orders_binds [OF st1(1) Cons.prems(2)] Cons.prems(3,4) by simp
  qed (use Cons.prems in simp)
qed simp

lemma page_accounts_usable:
  assumes "GetAccountsByUserID ord f u pg sz t = Inr as" "a \<in> set as" "\<forall>a \<in> set (t_accounts t). usable_account a" "row_order ord"
  shows "usable_account a" "account_exists t (ac_ID a) u"
proof -
  obtain b where b: "b \<in> set (ord (filter (\<lambda>a. ac_UserID a = u) (t_accounts t)))" "a = b\<lparr>ac_Balance := [], ac_OrderCount := 0, ac_AvgOrderAmount := []\<rparr>"
    using assms(1,2) by (auto simp: GetAccountsByUserID_def page_rows_def Let_def split: option.splits if_splits
        dest!: in_set_takeD in_set_dropD)
  then have "b \<in> set (t_accounts t)" "ac_UserID b = u" using row_order_simps(2) [OF assms(4)] by auto
  then show "usable_account a" "account_exists t (ac_ID a) u" using assms(3) b(2) by (auto simp: usable_account_def account_exists_def)
qed

lemma enqueue_users_binds:
  assumes "order_draws_ok s env" "\<forall>p u. ne_account_reader env p u = t \<and> row_order (ne_account_order env p u)" "\<forall>a \<in> set (t_accounts t). usable_account a"
  shows "enqueue_users s env page us st = Some r \<Longrightarrow> list_all (job_binds t) (snd st) \<Longrightarrow> list_all (job_binds t) (snd (snd r))"
proof (induction us arbitrary: st)
  case (Cons u us)
  let ?q = "GetAccountsByUserID (ne_account_order env page (us_ID u)) (ne_accounts_fault env page (us_ID u)) (us_ID u) 1
      (uint (sr_noOfAccountPerUser s)) (ne_account_reader env page (us_ID u))"
  show ?case
  proof (cases "fst st \<le> 0 \<or> (\<exists>e. ?q = Inl e)")
    case False
    then obtain rows st1 where q: "?q = Inr rows" and st1: "enqueue_accounts s env page (us_ID u) rows st = Some st1"
        "enqueue_users s env page us st1 = Some r"
      using Cons.prems(1) by (auto split: sum.splits option.splits)
    have "\<forall>a \<in> set rows. usable_account a \<and> account_exists t (ac_ID a) (us_ID u)"
      using page_accounts_usable [OF _ _ assms(3)] q assms(2) by metis
    then show ?thesis using Cons.IH [OF st1(2)] enqueue_accounts_binds [OF st1(1) assms(1)] Cons.prems(2) by blast
  qed (use Cons.prems in \<open>auto split: sum.splits if_splits\<close>)
qed auto

lemma enqueue_pages_binds:
  assumes "enqueue_pages s env sz page st = Some y" "order_draws_ok s env"
    and "\<forall>p u. ne_account_reader env p u = t \<and> row_order (ne_account_order env p u)"
    and "\<forall>a \<in> set (t_accounts t). usable_account a" "list_all (job_binds t) (snd st)"
  shows "list_all (job_binds t) (snd (snd y))"
  using assms
proof (induction s env sz page st y rule: enqueue_pages.raw_induct [rotated, consumes 1, case_names step])
  case (step rec s env sz page st y)
  let ?q = "FindUsers (ne_user_order env page) (ne_users_fault env page) page sz (ne_reader env page)"
  show ?case
  proof (cases "fst st \<le> 0 \<or> (\<exists>e. ?q = Inl e) \<or> ?q = Inr []")
    case True
    then show ?thesis using step.hyps step.prems(4) by (auto split: if_splits)
  next
    case False
    then obtain us where us: "?q = Inr us" "us \<noteq> []" by (cases ?q) auto
    obtain e st1 where u: "enqueue_users s env page us st = Some (e, st1)" using step.hyps us False by (auto split: option.splits)
    have ok: "list_all (job_binds t) (snd st1)" using enqueue_users_binds [OF step.prems(1-3) u step.prems(4)] by simp
    show ?thesis
      using step.hyps us u ok False step.IH [OF _ step.prems(1-3) ok, of sz "wrap64 (page + 1)" y] by (cases e) auto
  qed
qed

subsection \<open>The seeded accounts are usable\<close>

definition adds_usable :: "SeedEnv \<Rightarrow> Tables \<Rightarrow> Tables \<Rightarrow> bool" where
  "adds_usable env t0 t \<longleftrightarrow> ((\<forall>pt. se_uuid env pt \<noteq> uuid_Nil) \<longrightarrow> (\<forall>a \<in> set (t_accounts t). a \<in> set (t_accounts t0) \<or> usable_account a))"

interpretation usable_seeding: data_seeding flags key env "adds_usable env t0" for flags key env t0
proof
  fix t pt balEnc u t' n
  assume "adds_usable env t0 t" "AccountRepo_Create (seed_account_row env pt u balEnc) t = Inr (t', n)"
  moreover have "usable_account ((seed_account_row env pt u balEnc)\<lparr>ac_OrderCount := 0, ac_AvgOrderAmount := []\<rparr>)" if "se_uuid env pt \<noteq> uuid_Nil"
    using that by (simp add: usable_account_def seed_account_row_def)
  ultimately show "adds_usable env t0 t'" by (auto simp: adds_usable_def AccountRepo_Create_def split: if_splits)
next
  fix t g pt u a hist t' n
  assume "adds_usable env t0 t" "CreateAiDataset (se_numeric env) g (seed_order_row flags env pt u a hist) t = Inr (t', n)"
  then show "adds_usable env t0 t'" by (auto simp: adds_usable_def CreateAiDataset_def split: if_splits option.splits)
next
  fix t i t' n
  assume "adds_usable env t0 t" "UserRepo_Create (seed_user_row env i) t = Inr (t', n)"
  then show "adds_usable env t0 t'" by (auto simp: adds_usable_def UserRepo_Create_def split: if_splits)
qed

text \<open>
  What the seeders produce, the API accepts as a request: if the user seeder filled a
  database (whatever became of its transaction) and the order seeder draws its amounts between one
  cent and 4999 dollars, then every order it enqueues satisfies the binding tags of \<open>POST /orders\<close>, and
  its account exists and belongs to the user it is posted for.
\<close>

theorem seeded_orders_bind:
  assumes "\<forall>pt. se_uuid senv pt \<noteq> uuid_Nil" "\<forall>a \<in> set (t_accounts t). usable_account a"
    and "seed_data flags key senv beginFault commitFault t = (out, t')"
    and "NewSeeder oflags = Inr s" "fl_minOrderAmount oflags = Fin False p" "fl_maxOrderAmount oflags = Fin False q"
    and "1 / 100 \<le> p" "p \<le> q" "q \<le> 4999" "\<forall>pt. unit_draw (ne_float env pt) \<and> ne_uuid env pt \<noteq> uuid_Nil"
    and "\<forall>pg u. ne_account_reader env pg u = t' \<and> row_order (ne_account_order env pg u)" "enqueue_pages s env sz 1 (tot, []) = Some (err, remaining, jobs)"
  shows "list_all (\<lambda>j. OrderRequest_tags (seed_request (jb_order j)) \<and>
      account_exists t' (so_AccountID (jb_order j)) (jb_userID j)) jobs"
proof -
  have "adds_usable senv t t" by (simp add: adds_usable_def)
  from usable_seeding.data_keeps [OF this, of flags key beginFault commitFault]
  have acc: "\<forall>a \<in> set (t_accounts t'). usable_account a" using assms(1,2,3) by (auto simp: adds_usable_def)
  have "\<not> f64_lt (Fin False q) (Fin False p)" using assms(8) by (simp add: f64_val_def)
  then have "sr_minAmount s = Fin False p" "sr_maxAmount s = Fin False q"
    using assms(4) by (auto simp: NewSeeder_def assms(5,6) Let_def split: if_splits)
  then have "order_draws_ok s env" using assms(7-10) by (simp add: order_draws_ok_def)
  from enqueue_pages_binds [OF assms(12) this assms(11) acc] show ?thesis by (simp add: job_binds_def list_all_iff)
qed

definition seed_env_ids :: SeedEnv where
  "seed_env_ids = seed_env_example\<lparr>se_uuid := (\<lambda>pt. if point_uuid pt = uuid_Nil then 1 else point_uuid pt)\<rparr>"

theorem seeded_orders_bind_witness:
  "\<exists>t' err remaining jobs. seed_data seed_flags_example key_example seed_env_ids None None no_rows = (Returned None, t') \<and>
     enqueue_pages seeder_example (enqueue_env_example\<lparr>ne_reader := (\<lambda>_. t'), ne_account_reader := (\<lambda>_ _. t')\<rparr>) 1 1 (3, []) =
       Some (err, remaining, jobs) \<and> remaining + int (length jobs) = 3 \<and>
     list_all (\<lambda>j. OrderRequest_tags (seed_request (jb_order j)) \<and> account_exists t' (so_AccountID (jb_order j)) (jb_userID j)) jobs"
proof -
  have "seed_undisturbed seed_flags_example key_example seed_env_ids"
    using seed_example_undisturbed by (simp add: seed_undisturbed_def seed_env_ids_def)
  moreover have fresh: "fresh_users seed_env_ids (sf_noOfUsers seed_flags_example) no_rows"
    by (simp add: fresh_users_def seed_env_ids_def seed_env_example_def user_known_def no_rows_def upto.simps seed_flags_example_def)
  ultimately have "fst (seed_data seed_flags_example key_example seed_env_ids None None no_rows) = Returned None"
    by (intro seed_data_succeeds no_rows_wf) (auto simp: no_rows_def)
  then obtain t' where run: "seed_data seed_flags_example key_example seed_env_ids None None no_rows = (Returned None, t')" by (metis prod.collapse)
  let ?env = "enqueue_env_example\<lparr>ne_reader := (\<lambda>_. t'), ne_account_reader := (\<lambda>_ _. t')\<rparr>"
  have two: "sf_noOfUsers seed_flags_example = 2" "int64_ok (sf_maxAccounts seed_flags_example)"
    by (simp_all add: seed_flags_example_def int64_ok_def)
  obtain s' where s': "for_each (seed_user seed_flags_example key_example seed_env_ids) [1..2] \<lparr>sd_tx = Begin no_rows, sd_hist = Map.empty\<rparr> =
      (Returned None, s')" "t' = tx_view (sd_tx s')" using seed_data_success [OF run] two(1) by metis
  have "t_users t' = t_users no_rows @ map (seed_user_row seed_env_ids) [1..2]"
    using seed_loop_ok [OF s'(1)] fresh two(2) no_rows_wf by (simp add: s'(2) two(1) Begin_def fresh_users_def)
  then have len: "length (t_users t') = 2" by (simp add: no_rows_def)
  have pages: "\<forall>p. row_order (ne_user_order ?env p) \<and> length (t_users (ne_reader ?env p)) \<le> 2" "sends_end ?env"
    by (simp_all add: len enqueue_env_example_def sends_end_def)
  obtain err remaining jobs where jobs: "enqueue_pages seeder_example ?env 1 1 (3, []) = Some (err, remaining, jobs)"
    "accounts_for 3 (remaining, jobs)"
    using enqueue_pages_ends [OF pages(1) _ pages(2), of 1 1 3 "(3, [])" seeder_example] by (auto simp: accounts_for_def)
  have new: "NewSeeder order_flags_example = Inr seeder_example"
    by (simp add: NewSeeder_def order_flags_example_def seeder_example_def f64_of_int_exact f64_val_def)
  have fl: "fl_minOrderAmount order_flags_example = Fin False 10" "fl_maxOrderAmount order_flags_example = Fin False 20"
    by (simp_all add: order_flags_example_def f64_of_int_exact)
  have draws: "\<forall>pt. unit_draw (ne_float ?env pt) \<and> ne_uuid ?env pt \<noteq> uuid_Nil" by (simp add: enqueue_env_example_def)
  have ids: "\<forall>pt. se_uuid seed_env_ids pt \<noteq> uuid_Nil" by (simp add: seed_env_ids_def)
  have none: "\<forall>a \<in> set (t_accounts no_rows). usable_account a" by (simp add: no_rows_def)
  have rd: "\<forall>pg u. ne_account_reader ?env pg u = t' \<and> row_order (ne_account_order ?env pg u)" by (simp add: enqueue_env_example_def)
  have "1 / 100 \<le> (10 :: rat)" "(10 :: rat) \<le> 20" "(20 :: rat) \<le> 4999" by simp_all
  from seeded_orders_bind [OF ids none run new fl this draws rd jobs(1)]
  show ?thesis using run jobs by (auto simp: accounts_for_def)
qed

end
