(* ===== verification/Metrics.thy ===== *)
theory Metrics
  imports Order_Handler
begin

text \<open>
  The Prometheus collectors: \<open>services/payment-worker/internal/observability/order_handler_metrics.go\<close>,
  \<open>services/order-api/internal/observability/api_metrics.go\<close> and the gauge that
  \<open>NewKafkaOrderConsumer\<close> registers. A collector is what it is declared with. The registry and the
  vectors are third-party code: \<open>promauto\<close> and \<open>MustRegister\<close> panic when a fully qualified name is taken,
  \<open>WithLabelValues\<close> panics when the number of values is not that of the labels. The increments of the
  order handler are the events of its trace (theory \<open>Order_Handler\<close>), so the value of a counter is the
  number of its events.
\<close>

datatype metric_kind = CounterVec | HistogramVec "rat list option" | Gauge | GaugeFunc

record Collector =
  mc_Kind :: metric_kind
  mc_Namespace :: string
  mc_Name :: string
  mc_Help :: string
  mc_Labels :: "string list"

definition MessagesReceived :: Collector where
  "MessagesReceived = \<lparr>mc_Kind = CounterVec, mc_Namespace = ''pw_order_handler'', mc_Name = ''messages_received_total'',
     mc_Help = ''Kafka messages pulled by the worker'', mc_Labels = [''topic'']\<rparr>"

definition PaymentsProcessed :: Collector where
  "PaymentsProcessed = \<lparr>mc_Kind = CounterVec, mc_Namespace = ''pw_order_handler'', mc_Name = ''processed_total'',
     mc_Help = ''Successfully processed payment jobs'', mc_Labels = [''topic'']\<rparr>"

definition PaymentsFailed :: Collector where
  "PaymentsFailed = \<lparr>mc_Kind = CounterVec, mc_Namespace = ''pw_order_handler'', mc_Name = ''failed_total'',
     mc_Help = ''Failed payment jobs by reason'', mc_Labels = [''topic'', ''reason'']\<rparr>"

definition DLQPublished :: Collector where
  "DLQPublished = \<lparr>mc_Kind = CounterVec, mc_Namespace = ''pw_order_handler'', mc_Name = ''dlq_total'',
     mc_Help = ''Jobs sent to DLQ by reason'', mc_Labels = [''topic'', ''reason'']\<rparr>"

text \<open>No bucket list stands for \<open>prometheus.DefBuckets\<close>.\<close>

definition ProcessLatency :: Collector where
  "ProcessLatency = \<lparr>mc_Kind = HistogramVec None, mc_Namespace = ''pw_order_handler'', mc_Name = ''process_duration_seconds'',
     mc_Help = ''End-to-end processing latency per message'', mc_Labels = [''topic'']\<rparr>"

definition InflightJobs :: Collector where
  "InflightJobs = \<lparr>mc_Kind = Gauge, mc_Namespace = ''pw_order_handler'', mc_Name = ''inflight_jobs'',
     mc_Help = ''Number of jobs currently being processed (semaphore depth)'', mc_Labels = []\<rparr>"

definition semaphore_used :: Collector where
  "semaphore_used = \<lparr>mc_Kind = GaugeFunc, mc_Namespace = [], mc_Name = ''payment_worker_semaphore_used'',
     mc_Help = ''How many slots are currently in use in the order semaphore'', mc_Labels = []\<rparr>"

definition httpRequestDuration :: Collector where
  "httpRequestDuration = \<lparr>mc_Kind = HistogramVec (Some [5 / 1000, 1 / 100, 25 / 1000, 5 / 100, 1 / 10, 25 / 100, 5 / 10, 1, 25 / 10, 5, 10]),
     mc_Namespace = ''order_api'', mc_Name = ''http_request_duration_seconds'',
     mc_Help = ''Duration of HTTP requests in seconds'', mc_Labels = [''method'', ''path'', ''status'']\<rparr>"

definition httpRequestsTotal :: Collector where
  "httpRequestsTotal = \<lparr>mc_Kind = CounterVec, mc_Namespace = ''order_api'', mc_Name = ''http_requests_total'',
     mc_Help = ''Total number of HTTP requests'', mc_Labels = [''method'', ''path'', ''status'']\<rparr>"

lemmas collector_defs = MessagesReceived_def PaymentsProcessed_def PaymentsFailed_def DLQPublished_def ProcessLatency_def
  InflightJobs_def semaphore_used_def httpRequestDuration_def httpRequestsTotal_def

text \<open>What each process registers, in order: package variables first, then the gauge of the handler.\<close>

definition worker_collectors :: "Collector list" where
  "worker_collectors = [MessagesReceived, PaymentsProcessed, PaymentsFailed, DLQPublished, ProcessLatency, InflightJobs, semaphore_used]"

definition api_collectors :: "Collector list" where
  "api_collectors = [httpRequestDuration, httpRequestsTotal]"

definition fq_name :: "Collector \<Rightarrow> string" where
  "fq_name c = (if mc_Namespace c = [] then mc_Name c else mc_Namespace c @ ''_'' @ mc_Name c)"

text \<open>
  The use of a collector by an event of the order handler, with its label values. The timer of a message
  looks up its histogram when it is made; \<open>ObserveDuration\<close> then observes the one it holds, and the gauge of
  jobs in flight has no labels.
\<close>

fun metric_of :: "msg_event \<Rightarrow> (Collector \<times> string list) option" where
  "metric_of (CountReceived topic) = Some (MessagesReceived, [topic])"
| "metric_of (CountFailed topic reason) = Some (PaymentsFailed, [topic, reason])"
| "metric_of (CountProcessed topic) = Some (PaymentsProcessed, [topic])"
| "metric_of (CountDLQ topic reason) = Some (DLQPublished, [topic, reason])"
| "metric_of (TimerStarted topic) = Some (ProcessLatency, [topic])"
| "metric_of InflightInc = Some (InflightJobs, [])"
| "metric_of InflightDec = Some (InflightJobs, [])"
| "metric_of _ = None"

text \<open>The value of a counter summed over its labels.\<close>

definition metric_total :: "Collector \<Rightarrow> msg_event list \<Rightarrow> nat" where
  "metric_total c tr = length (filter (\<lambda>e. map_option fst (metric_of e) = Some c) tr)"

text \<open>The value of the gauge \<open>InflightJobs\<close>, and the number of observations of \<open>ProcessLatency\<close>.\<close>

fun gauge_change :: "msg_event \<Rightarrow> int" where
  "gauge_change InflightInc = 1"
| "gauge_change InflightDec = -1"
| "gauge_change _ = 0"

definition inflight_gauge :: "msg_event list \<Rightarrow> int" where
  "inflight_gauge tr = sum_list (map gauge_change tr)"

fun is_observation :: "msg_event \<Rightarrow> bool" where
  "is_observation (DurationObserved topic) = True"
| "is_observation _ = False"

definition latency_observations :: "msg_event list \<Rightarrow> nat" where
  "latency_observations tr = length (filter is_observation tr)"

subsection \<open>Registration and labels\<close>

text \<open>No process registers a name twice, and every use gives as many values as there are labels.\<close>

lemma collectors_distinct: "distinct (map fq_name worker_collectors)" "distinct (map fq_name api_collectors)"
  by (simp_all add: worker_collectors_def api_collectors_def fq_name_def collector_defs)

lemma labels_match: "metric_of e = Some (c, values) \<Longrightarrow> c \<in> set worker_collectors \<and> length values = length (mc_Labels c)"
  by (cases e) (auto simp: worker_collectors_def collector_defs)

lemma buckets_increase: "mc_Kind httpRequestDuration = HistogramVec (Some bs) \<Longrightarrow> sorted_wrt (<) bs"
  by (auto simp: httpRequestDuration_def)

subsection \<open>The counters agree with the consumer\<close>

lemma collectors_differ [simp]:
  "MessagesReceived \<noteq> PaymentsProcessed" "MessagesReceived \<noteq> PaymentsFailed" "MessagesReceived \<noteq> DLQPublished"
  "PaymentsProcessed \<noteq> MessagesReceived" "PaymentsProcessed \<noteq> PaymentsFailed" "PaymentsProcessed \<noteq> DLQPublished"
  "PaymentsFailed \<noteq> MessagesReceived" "PaymentsFailed \<noteq> PaymentsProcessed" "PaymentsFailed \<noteq> DLQPublished"
  "DLQPublished \<noteq> MessagesReceived" "DLQPublished \<noteq> PaymentsProcessed" "DLQPublished \<noteq> PaymentsFailed"
  "ProcessLatency \<noteq> MessagesReceived" "ProcessLatency \<noteq> PaymentsProcessed" "ProcessLatency \<noteq> PaymentsFailed"
  "ProcessLatency \<noteq> DLQPublished" "ProcessLatency \<noteq> InflightJobs" "InflightJobs \<noteq> ProcessLatency"
  "InflightJobs \<noteq> MessagesReceived" "InflightJobs \<noteq> PaymentsProcessed" "InflightJobs \<noteq> PaymentsFailed"
  "InflightJobs \<noteq> DLQPublished" "MessagesReceived \<noteq> ProcessLatency" "PaymentsProcessed \<noteq> ProcessLatency"
  "PaymentsFailed \<noteq> ProcessLatency" "DLQPublished \<noteq> ProcessLatency"
  by (simp_all add: collector_defs)

lemma metric_total_simps [simp]:
  "metric_total c [] = 0" "metric_total c (tr @ tr') = metric_total c tr + metric_total c tr'"
  "metric_total c (e # tr) = (if map_option fst (metric_of e) = Some c then 1 else 0) + metric_total c tr"
  by (simp_all add: metric_total_def)

lemma metric_total_ack [simp]: "metric_total c (ms_trace (ack_message env m s)) = metric_total c (ms_trace s)"
  by (auto simp: ack_message_def split: prod.split option.split)

lemma metric_total_dlq:
  "c \<noteq> DLQPublished \<Longrightarrow> metric_total c (ms_trace (sendToDLQ q env job r e s)) = metric_total c (ms_trace s)"
  "metric_total DLQPublished (ms_trace (sendToDLQ q env job r e s)) \<le> metric_total DLQPublished (ms_trace s) + 1"
  "dlq_available env \<Longrightarrow> metric_total DLQPublished (ms_trace (sendToDLQ q env job r e s)) = metric_total DLQPublished (ms_trace s) + 1"
  by (auto simp: sendToDLQ_def dlq_available_def Let_def split: option.split)

text \<open>The handling of a message touches neither the gauge nor the timers; taking and giving back the slot do.\<close>

lemma gauge_simps [simp]:
  "inflight_gauge [] = 0" "inflight_gauge (tr @ tr') = inflight_gauge tr + inflight_gauge tr'"
  "inflight_gauge (e # tr) = gauge_change e + inflight_gauge tr"
  "latency_observations [] = 0" "latency_observations (tr @ tr') = latency_observations tr + latency_observations tr'"
  "latency_observations (e # tr) = (if is_observation e then 1 else 0) + latency_observations tr"
  by (simp_all add: inflight_gauge_def latency_observations_def)

definition timing_of :: "msg_event list \<Rightarrow> int \<times> nat \<times> nat" where
  "timing_of tr = (inflight_gauge tr, metric_total ProcessLatency tr, latency_observations tr)"

lemma timing_of_ack: "timing_of (ms_trace (ack_message env m s)) = timing_of (ms_trace s)"
  by (auto simp: timing_of_def ack_message_def split: prod.split option.split)

lemma timing_of_dlq: "timing_of (ms_trace (sendToDLQ q env job r e s)) = timing_of (ms_trace s)"
  by (auto simp: timing_of_def sendToDLQ_def Let_def split: option.split)

lemma timing_of_plain:
  "timing_of (tr @ e # tr') = timing_of (tr @ tr')" if "gauge_change e = 0" "map_option fst (metric_of e) \<noteq> Some ProcessLatency"
    "\<not> is_observation e"
  using that by (simp add: timing_of_def)

lemma timing_of_processMessage: "timing_of (ms_trace (processMessage cfg process env m s)) = timing_of (ms_trace s)"
  by (simp add: processMessage_def Let_def timing_of_ack timing_of_dlq timing_of_plain split: prod.split option.split)

text \<open>What gauge and timers say about a loop state.\<close>

definition timing_agrees :: "OrderLoop \<Rightarrow> bool" where
  "timing_agrees s \<longleftrightarrow> (let tr = ms_trace (ol_state s) in
     inflight_gauge tr = int (length (ol_inflight s)) \<and>
     metric_total ProcessLatency tr = latency_observations tr + length (ol_inflight s) \<and>
     length (ol_finished s) \<le> latency_observations tr \<and>
     latency_observations tr \<le> length (ol_finished s) + length (ol_abandoned s))"

lemma timing_agrees_leave:
  assumes "m \<in> set (ol_inflight s)" "timing_agrees s"
  shows "timing_agrees (s\<lparr>ol_inflight := remove1 m (ol_inflight s), ol_finished := m # ol_finished s,
      ol_state := run_message cfg process env m (ol_state s)\<rparr>)"
    and "timing_agrees (s\<lparr>ol_inflight := remove1 m (ol_inflight s), ol_abandoned := m # ol_abandoned s,
      ol_state := run_message cfg process env m (ol_state s)\<rparr>)"
proof -
  have "length (ol_inflight s) = Suc (length (remove1 m (ol_inflight s)))" using length_pos_if_in_set [OF assms(1)] assms(1) by (simp add: length_remove1)
  then show "timing_agrees (s\<lparr>ol_inflight := remove1 m (ol_inflight s), ol_finished := m # ol_finished s,
      ol_state := run_message cfg process env m (ol_state s)\<rparr>)"
    "timing_agrees (s\<lparr>ol_inflight := remove1 m (ol_inflight s), ol_abandoned := m # ol_abandoned s,
      ol_state := run_message cfg process env m (ol_state s)\<rparr>)"
    using assms(2) timing_of_processMessage [of cfg process env m "ol_state s"]
    by (simp_all add: timing_agrees_def timing_of_def run_message_def Let_def)
qed

lemma ostep_timing: "ostep cfg ok s s' \<Longrightarrow> timing_agrees s \<Longrightarrow> timing_agrees s'"
  by (induction rule: ostep.induct) (simp_all add: timing_agrees_leave, simp_all add: timing_agrees_def slot_taken_def Let_def)

text \<open>What the counters say about a loop state.\<close>

definition counters_agree :: "OrderLoop \<Rightarrow> bool" where
  "counters_agree s \<longleftrightarrow> (let tr = ms_trace (ol_state s) in
     metric_total MessagesReceived tr = length (ol_received s) \<and>
     metric_total PaymentsProcessed tr + metric_total PaymentsFailed tr = length (ol_finished s) \<and>
     metric_total DLQPublished tr \<le> metric_total PaymentsFailed tr)"

text \<open>A message that is processed is counted as failed and maybe parked, or counted as processed.\<close>

lemma processMessage_shape:
  assumes "\<not> me_ctx_done env"
  obtains (failed) s0 topic reason q job r e where
      "processMessage cfg process env m s = ack_message env m (sendToDLQ q env job r e (note_event (CountFailed topic reason) s0))"
      "\<And>c. metric_total c (ms_trace s0) = metric_total c (ms_trace s)"
    | (paid) s0 topic where "processMessage cfg process env m s = ack_message env m (note_event (CountProcessed topic) s0)"
      "\<And>c. metric_total c (ms_trace s0) = metric_total c (ms_trace s)"
proof -
  obtain job err where u: "me_unmarshal env (msg_Value m) = (job, err)" by fastforce
  show ?thesis
  proof (cases err)
    case (Some e)
    then show ?thesis using failed assms u by (simp add: processMessage_def Let_def)
  next
    case None
    note n = None
    show ?thesis
    proof (cases "me_validate env job")
      case (Some e)
      then show ?thesis using failed assms u n by (simp add: processMessage_def Let_def)
    next
      case None
      obtain pe t evs where p: "process job (ms_tables s) = (pe, t, evs)" using prod_cases3 by blast
      have "metric_total c (ms_trace (note_event (PaymentRun job evs) (s\<lparr>ms_tables := t\<rparr>))) = metric_total c (ms_trace s)" for c by simp
      then show ?thesis using failed paid assms u n None p by (cases pe) (simp_all add: processMessage_def Let_def)
    qed
  qed
qed

lemma processMessage_counters:
  assumes "\<not> me_ctx_done env" "s' = processMessage cfg process env m s"
  shows "metric_total MessagesReceived (ms_trace s') = metric_total MessagesReceived (ms_trace s)"
    and "metric_total PaymentsProcessed (ms_trace s') + metric_total PaymentsFailed (ms_trace s') =
      metric_total PaymentsProcessed (ms_trace s) + metric_total PaymentsFailed (ms_trace s) + 1"
    and "metric_total DLQPublished (ms_trace s) \<le> metric_total PaymentsFailed (ms_trace s) \<Longrightarrow>
      metric_total DLQPublished (ms_trace s') \<le> metric_total PaymentsFailed (ms_trace s')"
    and "dlq_available env \<Longrightarrow> metric_total DLQPublished (ms_trace s) = metric_total PaymentsFailed (ms_trace s) \<Longrightarrow>
      metric_total DLQPublished (ms_trace s') = metric_total PaymentsFailed (ms_trace s')"
proof -
  consider (failed) s0 topic reason q job r e where "s' = ack_message env m (sendToDLQ q env job r e (note_event (CountFailed topic reason) s0))"
      "\<And>c. metric_total c (ms_trace s0) = metric_total c (ms_trace s)"
    | (paid) s0 topic where "s' = ack_message env m (note_event (CountProcessed topic) s0)"
      "\<And>c. metric_total c (ms_trace s0) = metric_total c (ms_trace s)"
    using processMessage_shape [OF assms(1), of cfg process m s] assms(2) by metis
  note cases = this
  show "metric_total MessagesReceived (ms_trace s') = metric_total MessagesReceived (ms_trace s)"
    by (cases rule: cases) (simp_all add: metric_total_dlq)
  show "metric_total PaymentsProcessed (ms_trace s') + metric_total PaymentsFailed (ms_trace s') =
      metric_total PaymentsProcessed (ms_trace s) + metric_total PaymentsFailed (ms_trace s) + 1"
    by (cases rule: cases) (simp_all add: metric_total_dlq)
  show "metric_total DLQPublished (ms_trace s') \<le> metric_total PaymentsFailed (ms_trace s')"
    if "metric_total DLQPublished (ms_trace s) \<le> metric_total PaymentsFailed (ms_trace s)"
  proof (cases rule: cases)
    case failed
    then show ?thesis
      using that metric_total_dlq(2) [of q env job r e "note_event (CountFailed topic reason) s0"]
      by (simp add: metric_total_dlq(1))
  qed (use that in simp)
  show "metric_total DLQPublished (ms_trace s') = metric_total PaymentsFailed (ms_trace s')"
    if "dlq_available env" "metric_total DLQPublished (ms_trace s) = metric_total PaymentsFailed (ms_trace s)"
    by (cases rule: cases) (use that in \<open>simp_all add: metric_total_dlq(1,3)\<close>)
qed

definition parks_all :: "MsgEnv \<Rightarrow> Message \<Rightarrow> bool" where
  "parks_all env m \<longleftrightarrow> dlq_available env"

definition parked_agree :: "OrderLoop \<Rightarrow> bool" where
  "parked_agree s \<longleftrightarrow> metric_total DLQPublished (ms_trace (ol_state s)) = metric_total PaymentsFailed (ms_trace (ol_state s))"

lemma ostep_counters:
  "ostep cfg ok s s' \<Longrightarrow> counters_agree s \<Longrightarrow> counters_agree s'"
proof (induction rule: ostep.induct)
  case (Finish m s env process)
  note c = processMessage_counters [OF Finish.hyps(3) refl, where cfg = cfg and process = process and m = m and s = "ol_state s"]
  show ?case using Finish.prems c(1,2) c(3) by (simp add: counters_agree_def run_message_def Let_def)
next
  case (Drop m s env process)
  then show ?case by (simp add: counters_agree_def run_message_def processMessage_def Let_def)
qed (simp_all add: counters_agree_def slot_taken_def Let_def)

lemma ostep_parked: "ostep cfg parks_all s s' \<Longrightarrow> parked_agree s \<Longrightarrow> parked_agree s'"
proof (induction rule: ostep.induct)
  case (Finish m s env process)
  note c = processMessage_counters(4) [OF Finish.hyps(3) refl, where cfg = cfg and process = process and m = m and s = "ol_state s"]
  show ?case using Finish.prems Finish.hyps(2) c by (simp add: parked_agree_def parks_all_def run_message_def)
next
  case (Drop m s env process)
  then show ?case by (simp add: parked_agree_def run_message_def processMessage_def)
qed (simp_all add: parked_agree_def slot_taken_def)

text \<open>
  Property C27. The metrics tell the truth: in every state the order consumer can reach, the counter of
  received messages is the number of messages read, processed and failed together are the messages
  finished, and no more dead letters are counted than failures, whatever the interleaving and whatever
  fails. The gauge of jobs in flight is the number of messages that hold a slot, every such message has one
  latency timer, and every finished one was observed. Every use of a collector, the latency histogram and the
  gauge included, gives as many values as it declares labels, and no two collectors of the process share a
  name, so neither registration nor counting panics.
\<close>

theorem metrics_agree_with_consumer:
  assumes "(ostep cfg ok)\<^sup>*\<^sup>* (order_loop_start t) s" "tr = ms_trace (ol_state s)"
  shows "metric_total MessagesReceived tr = length (ol_received s) \<and>
    metric_total PaymentsProcessed tr + metric_total PaymentsFailed tr = length (ol_finished s) \<and>
    metric_total DLQPublished tr \<le> metric_total PaymentsFailed tr \<and>
    inflight_gauge tr = int (length (ol_inflight s)) \<and>
    metric_total ProcessLatency tr = latency_observations tr + length (ol_inflight s) \<and>
    length (ol_finished s) \<le> latency_observations tr \<and>
    latency_observations tr \<le> length (ol_finished s) + length (ol_abandoned s) \<and>
    list_all (\<lambda>e. case metric_of e of None \<Rightarrow> True | Some (c, values) \<Rightarrow> c \<in> set worker_collectors \<and> length values = length (mc_Labels c)) tr \<and>
    distinct (map fq_name worker_collectors)"
proof -
  have "counters_agree (order_loop_start t)" by (simp add: counters_agree_def order_loop_start_def Let_def)
  with assms(1) have "counters_agree s"
    by (induction rule: rtranclp_induct) (auto intro: ostep_counters)
  moreover have "timing_agrees (order_loop_start t)" by (simp add: timing_agrees_def order_loop_start_def Let_def)
  with assms(1) have "timing_agrees s"
    by (induction rule: rtranclp_induct) (auto intro: ostep_timing)
  moreover have "list_all (\<lambda>e. case metric_of e of None \<Rightarrow> True
      | Some (c, values) \<Rightarrow> c \<in> set worker_collectors \<and> length values = length (mc_Labels c)) tr"
    using labels_match by (auto simp: list_all_iff split: option.split)
  ultimately show ?thesis
    using collectors_distinct(1) unfolding counters_agree_def timing_agrees_def assms(2) Let_def by blast
qed

theorem metrics_agree_with_consumer_witness:
  "metric_total PaymentsProcessed (ms_trace (ol_state loop_done_example)) + metric_total PaymentsFailed (ms_trace (ol_state loop_done_example)) = 1 \<and>
   metric_total MessagesReceived (ms_trace (ol_state loop_done_example)) = 1 \<and>
   inflight_gauge (ms_trace (ol_state loop_done_example)) = 0"
  using metrics_agree_with_consumer [OF loop_done_example_reachable refl]
  by (simp add: loop_done_example_def loop_example_def order_loop_start_def Let_def)

text \<open>While dead letters can be written, each failure is counted as one.\<close>

lemma failures_are_parked:
  assumes "(ostep cfg parks_all)\<^sup>*\<^sup>* (order_loop_start t) s"
  shows "metric_total DLQPublished (ms_trace (ol_state s)) = metric_total PaymentsFailed (ms_trace (ol_state s))"
proof -
  have "parked_agree (order_loop_start t)" by (simp add: parked_agree_def order_loop_start_def)
  with assms have "parked_agree s" by (induction rule: rtranclp_induct) (auto intro: ostep_parked)
  then show ?thesis by (simp add: parked_agree_def)
qed

end
