(* ===== verification/Logger.thy ===== *)
theory Logger
  imports Errors
begin

text \<open>
  \<open>pkg/logger.go\<close>: the choice of the configuration of the global logger. The two base configurations and
  \<open>Build\<close> are code of \<open>go.uber.org/zap\<close>, the mode is that of gin: arguments. An error of \<open>Build\<close> is a panic.
  \<open>ZapConfig\<close> has the fields the code sets; what else a configuration holds is the extension of the
  record and passes through.
\<close>

record ZapConfig =
  zc_OutputPaths :: "string list"
  zc_ErrorOutputPaths :: "string list"
  zc_Sampling :: "(int \<times> int) option"
  zc_EncodeLevel :: string

definition logger_config :: "'a ZapConfig_scheme \<Rightarrow> 'a ZapConfig_scheme \<Rightarrow> string \<Rightarrow> 'a ZapConfig_scheme" where
  "logger_config production development ginMode =
     (if ginMode = ''release''
      then production\<lparr>zc_OutputPaths := [''stdout''], zc_ErrorOutputPaths := [''stderr''], zc_Sampling := Some (1000, 100)\<rparr>
      else development\<lparr>zc_EncodeLevel := ''CapitalColorLevelEncoder'', zc_Sampling := None\<rparr>)"

text \<open>\<open>AddStacktrace(DPanicLevel)\<close> is the option given to \<open>Build\<close>.\<close>

definition InitLogger ::
  "'a ZapConfig_scheme \<Rightarrow> 'a ZapConfig_scheme \<Rightarrow> ('a ZapConfig_scheme \<Rightarrow> string \<Rightarrow> 'logger result) \<Rightarrow> string \<Rightarrow> go_error + 'logger" where
  "InitLogger production development Build ginMode =
     (case Build (logger_config production development ginMode) ''DPanicLevel'' of
        Inl err \<Rightarrow> Inl err
      | Inr lg \<Rightarrow> Inr lg)"

text \<open>
  Entries are sampled in release mode only; any other mode, the default \<open>debug\<close> included, logs
  everything with the development configuration.
\<close>

lemma sampling_iff_release: "zc_Sampling (logger_config production development mode) \<noteq> None \<longleftrightarrow> mode = ''release''"
  by (simp add: logger_config_def)

lemma default_mode_is_development:
  "ZapConfig.more (logger_config production development ''debug'') = ZapConfig.more development"
  by (simp add: logger_config_def)

lemma InitLogger_panics_iff:
  "(\<exists>err. InitLogger production development Build mode = Inl err) \<longleftrightarrow>
   (\<exists>err. Build (logger_config production development mode) ''DPanicLevel'' = Inl err)"
  by (simp add: InitLogger_def split: sum.split)

end
