(* ===== verification/Worker_Process.thy ===== *)
theory Worker_Process
  imports Worker Order_App "HOL-Library.Sublist"
begin

text \<open>
  The process around the worker: the metrics server of \<open>services/payment-worker/cmd/main.go\<close>, what the
  start opens (whatever becomes of it), \<open>Start\<close> and the closing functions of the two Kafka handlers, the
  reader of delivery reports, and \<open>main\<close> itself with its shutdown and its deferred calls. \<open>Fatal\<close> exits
  without running what is deferred, and so does a panic of another goroutine, which may end the process at
  any moment: the moment and the goroutine are an argument of \<open>worker_main\<close>.
\<close>

datatype resource = MetricsServer | DbPools | RedisConn | RetryProducer | RetryDlqProducer | RetryTopicConsumer
  | OrderTopicConsumer | OrderDlqProducer

datatype proc_event = Opened resource | Flushed resource int | Closed resource "go_error option" | ContextCancel | RetryChannelClose | ShutdownWait

subsection \<open>The metrics server\<close>

record HttpServer =
  hs_Addr :: string
  hs_Routes :: "string list"
  hs_ReadHeaderTimeout :: duration

definition metrics_server :: "WorkerConfig \<Rightarrow> HttpServer" where
  "metrics_server cfg = \<lparr>hs_Addr = wc_MetricsAddr cfg, hs_Routes = [''/metrics''], hs_ReadHeaderTimeout = 3 * Second\<rparr>"

text \<open>The goroutine that serves: the error it ends the process with, if any.\<close>

definition serve_metrics :: "go_error option \<Rightarrow> go_error option" where
  "serve_metrics listen = (case listen of None \<Rightarrow> None | Some err \<Rightarrow> if err \<noteq> ErrServerClosed then Some err else None)"

subsection \<open>The handlers\<close>

text \<open>
  \<open>SubscribeTopics\<close> of the two consumers: its error is fatal. \<open>main\<close> makes the call of the order consumer
  itself, that of the retry consumer is made in its goroutine.
\<close>

definition order_Start :: "WorkerConfig \<Rightarrow> (string list \<Rightarrow> go_error option) \<Rightarrow> go_error option" where
  "order_Start cfg subscribe = subscribe [wc_KafkaOrderTopic cfg]"

definition retry_Start :: "WorkerConfig \<Rightarrow> (string list \<Rightarrow> go_error option) \<Rightarrow> go_error option" where
  "retry_Start cfg subscribe = subscribe [wc_KafkaRetryTopic cfg]"

text \<open>
  The functions \<open>Start\<close> returns. What closing a resource answers is kept in the event: the error of a
  consumer is only logged, a producer has none.
\<close>

definition order_close :: "go_error option \<Rightarrow> proc_event list" where
  "order_close err = [Flushed OrderDlqProducer 5000, Closed OrderDlqProducer None, Closed OrderTopicConsumer err]"

definition retry_close :: "go_error option \<Rightarrow> proc_event list" where
  "retry_close err = [Flushed RetryProducer 5000, Closed RetryProducer None, Flushed RetryDlqProducer 5000, Closed RetryDlqProducer None,
     Closed RetryTopicConsumer err]"

text \<open>The reader of the retry producer's events logs every delivery report.\<close>

fun delivery_entry :: "producer_event \<Rightarrow> log_entry list" where
  "delivery_entry (Delivery (Some err)) = [LogError ''retry_topic_delivery_failed'']"
| "delivery_entry (Delivery None) = [LogDebug ''retry_topic_delivered_successfully'']"
| "delivery_entry OtherEvent = []"

definition startDeliveryReportLogger :: "producer_event list \<Rightarrow> log_entry list" where
  "startDeliveryReportLogger evs = concat (map delivery_entry evs)"

subsection \<open>What the start opens\<close>

definition retry_opens :: "WorkerEnv \<Rightarrow> WorkerConfig \<Rightarrow> proc_event list" where
  "retry_opens env cfg =
     (let dlq = [(''bootstrap.servers'', wc_KafkaBrokers cfg), (''acks'', ''all''), (''enable.idempotence'', ''true'')]
      in case we_init env (retry_topics cfg) of
        Some err \<Rightarrow> []
      | None \<Rightarrow>
          (case we_newProducer env (dlq @ [(''retries'', ''1'')]) of
             Some err \<Rightarrow> []
           | None \<Rightarrow> Opened RetryProducer #
               (case we_newProducer env dlq of
                  Some err \<Rightarrow> []
                | None \<Rightarrow> Opened RetryDlqProducer #
                    (case we_newConsumer env (retry_consumer_config (we_hostname env) cfg) of
                       Some err \<Rightarrow> []
                     | None \<Rightarrow> [Opened RetryTopicConsumer]))))"

definition order_opens :: "WorkerEnv \<Rightarrow> WorkerConfig \<Rightarrow> proc_event list" where
  "order_opens env cfg =
     (case we_init env (dlq_topics cfg) of
        Some err \<Rightarrow> []
      | None \<Rightarrow>
          (case we_orderConsumer env of
             Some err \<Rightarrow> []
           | None \<Rightarrow> Opened OrderTopicConsumer #
               (case we_orderProducer env of Some err \<Rightarrow> [] | None \<Rightarrow> [Opened OrderDlqProducer])))"

definition worker_opens :: "WorkerEnv \<Rightarrow> proc_event list" where
  "worker_opens env =
     (case we_load env of
        Inl err \<Rightarrow> []
      | Inr cfg \<Rightarrow> Opened MetricsServer #
          (case fst (database_New (we_pools env) (worker_db_config cfg)) of
             Inl err \<Rightarrow> []
           | Inr db \<Rightarrow> Opened DbPools #
               (case fst (redis_New (we_ping env) (worker_redis_config cfg)) of
                  Inl err \<Rightarrow> []
                | Inr redis \<Rightarrow> Opened RedisConn #
                    (case DecodeString (wc_AesKey cfg) of
                       Inl err \<Rightarrow> []
                     | Inr key \<Rightarrow> retry_opens env cfg @
                         (case NewKafkaRetryHandler (we_init env) (we_newProducer env) (we_newConsumer env) (we_hostname env) cfg of
                            Inl err \<Rightarrow> []
                          | Inr retry \<Rightarrow> order_opens env cfg)))))"

subsection \<open>The process\<close>

text \<open>The answers of the closing calls that can fail; \<open>main\<close> and the closer of Redis discard theirs.\<close>

record CloseResults =
  cr_metrics :: "go_error option"
  cr_order :: "go_error option"
  cr_redis :: "go_error option"
  cr_retry :: "go_error option"

text \<open>
  The calls by which \<open>main\<close> reaches a stage of its shutdown (theory \<open>Worker\<close>): the metrics server and the
  context, the order consumer, Redis, the retry handler, the channel, the rest of the ten seconds; then the
  deferred calls, of which \<open>disconnect\<close> closes the pools.
\<close>

fun stage_calls :: "CloseResults \<Rightarrow> stage \<Rightarrow> proc_event list" where
  "stage_calls res ContextCancelled = [Closed MetricsServer (cr_metrics res), ContextCancel]"
| "stage_calls res OrderConsumerClosed = order_close (cr_order res)"
| "stage_calls res RedisClosed = [Closed RedisConn (cr_redis res)]"
| "stage_calls res RetryHandlerClosed = retry_close (cr_retry res)"
| "stage_calls res ChannelClosed = [RetryChannelClose]"
| "stage_calls res Exited = [ShutdownWait, ContextCancel, Closed DbPools None]"
| "stage_calls res _ = []"

definition worker_shutdown :: "CloseResults \<Rightarrow> proc_event list" where
  "worker_shutdown res = stage_calls res ContextCancelled @ stage_calls res OrderConsumerClosed @ stage_calls res RedisClosed @
     stage_calls res RetryHandlerClosed @ stage_calls res ChannelClosed @ stage_calls res Exited"

text \<open>The goroutine of \<open>main\<close>, in a worker that is signalled once it has started.\<close>

definition main_run :: "WorkerEnv \<Rightarrow> CloseResults \<Rightarrow> (string list \<Rightarrow> go_error option) \<Rightarrow> main_exit \<times> proc_event list" where
  "main_run env res orderSubscribe =
     (case start_worker env of
        Inl err \<Rightarrow> (MainFatal err, worker_opens env)
      | Inr w \<Rightarrow>
          (case we_load env of
             Inl err \<Rightarrow> (MainFatal err, [])
           | Inr cfg \<Rightarrow>
               (case order_Start cfg orderSubscribe of
                  Some err \<Rightarrow> (MainFatal err, worker_opens env)
                | None \<Rightarrow> (MainDone, worker_opens env @ worker_shutdown res))))"

text \<open>
  How another goroutine may end the process: \<open>ListenAndServe\<close> returns, the retry consumer subscribes, a
  goroutine of the handlers panics, or a sender waits on the retry channel when it is closed. Each exists
  only once \<open>main\<close> has come so far.
\<close>

datatype goroutine_end = ServerReturns "go_error option" | RetrySubscribes "string list \<Rightarrow> go_error option"
  | HandlerPanics go_error | SendOnClosedChannel

fun goroutine_exit :: "WorkerConfig \<Rightarrow> goroutine_end \<Rightarrow> main_exit option" where
  "goroutine_exit cfg (ServerReturns listen) = map_option MainFatal (serve_metrics listen)"
| "goroutine_exit cfg (RetrySubscribes subscribe) = map_option MainFatal (retry_Start cfg subscribe)"
| "goroutine_exit cfg (HandlerPanics err) = Some (MainPanic err)"
| "goroutine_exit cfg SendOnClosedChannel = Some (MainPanic (ErrorString ''send on closed channel''))"

fun goroutine_runs :: "goroutine_end \<Rightarrow> proc_event list \<Rightarrow> bool" where
  "goroutine_runs (ServerReturns listen) ev \<longleftrightarrow> Opened MetricsServer \<in> set ev"
| "goroutine_runs (RetrySubscribes subscribe) ev \<longleftrightarrow> Opened RetryTopicConsumer \<in> set ev"
| "goroutine_runs (HandlerPanics err) ev \<longleftrightarrow> Opened RetryTopicConsumer \<in> set ev"
| "goroutine_runs SendOnClosedChannel ev \<longleftrightarrow> RetryChannelClose \<in> set ev"

text \<open>
  The process: \<open>other\<close> says after how many calls of \<open>main\<close> another goroutine comes to its end, and which.
\<close>

definition worker_main ::
  "WorkerEnv \<Rightarrow> CloseResults \<Rightarrow> (string list \<Rightarrow> go_error option) \<Rightarrow> (nat \<times> goroutine_end) option \<Rightarrow> main_exit \<times> proc_event list" where
  "worker_main env res orderSubscribe other =
     (let (out, ev) = main_run env res orderSubscribe
      in case (we_load env, other) of
        (Inr cfg, Some (n, g)) \<Rightarrow>
          (case goroutine_exit cfg g of
             Some exit \<Rightarrow> if n < length ev \<and> goroutine_runs g (take n ev) then (exit, take n ev) else (out, ev)
           | None \<Rightarrow> (out, ev))
      | _ \<Rightarrow> (out, ev))"

fun opened_of :: "proc_event \<Rightarrow> resource list" where
  "opened_of (Opened r) = [r]"
| "opened_of _ = []"

fun closed_of :: "proc_event \<Rightarrow> resource list" where
  "closed_of (Closed r err) = [r]"
| "closed_of _ = []"

abbreviation all_opened :: "proc_event list \<Rightarrow> resource list" where
  "all_opened ev \<equiv> concat (map opened_of ev)"

abbreviation all_closed :: "proc_event list \<Rightarrow> resource list" where
  "all_closed ev \<equiv> concat (map closed_of ev)"

lemma handlers_open:
  "NewKafkaRetryHandler (we_init env) (we_newProducer env) (we_newConsumer env) (we_hostname env) cfg = Inr r \<Longrightarrow>
   retry_opens env cfg = map Opened [RetryProducer, RetryDlqProducer, RetryTopicConsumer]"
  "NewKafkaOrderConsumer (we_init env) (we_orderConsumer env) (we_orderProducer env) cfg = Inr o' \<Longrightarrow>
   order_opens env cfg = map Opened [OrderTopicConsumer, OrderDlqProducer]"
  by (auto simp: retry_opens_def NewKafkaRetryHandler_def Let_def split: option.splits)
    (auto simp: order_opens_def NewKafkaOrderConsumer_def split: option.splits)

text \<open>
  The calls of \<open>main\<close> in a run that nothing interrupts. Every run, however it ends, makes a part of them from
  the first on: \<open>prefix\<close>.
\<close>

definition full_run :: "CloseResults \<Rightarrow> proc_event list" where
  "full_run res = map Opened [MetricsServer, DbPools, RedisConn, RetryProducer, RetryDlqProducer, RetryTopicConsumer,
     OrderTopicConsumer, OrderDlqProducer] @ worker_shutdown res"

lemma opens_prefix: "prefix (worker_opens env) (full_run res)"
proof -
  let ?all = "map Opened [RetryProducer, RetryDlqProducer, RetryTopicConsumer]" and ?order = "map Opened [OrderTopicConsumer, OrderDlqProducer]"
  have retry: "prefix (retry_opens env cfg) (?all @ rest)" for cfg rest
    by (simp add: retry_opens_def Let_def split: option.split)
  have order: "prefix (order_opens env cfg) (?order @ rest)" for cfg rest
    by (simp add: order_opens_def split: option.split)
  have "prefix (retry_opens env cfg @ (case NewKafkaRetryHandler (we_init env) (we_newProducer env) (we_newConsumer env) (we_hostname env) cfg of
      Inl err \<Rightarrow> [] | Inr r \<Rightarrow> order_opens env cfg)) (?all @ ?order @ rest)" for cfg rest
    using retry [of cfg "?order @ rest"] order [of cfg rest] by (auto simp: handlers_open split: sum.split)
  then show ?thesis by (simp add: worker_opens_def full_run_def split: sum.split)
qed

lemma started_opens:
  assumes "start_worker env = Inr w"
  shows "worker_opens env @ worker_shutdown res = full_run res"
  using assms by (auto simp: start_worker_def worker_opens_def full_run_def handlers_open Let_def split: sum.splits)

lemma opens_close_nothing: "RetryChannelClose \<notin> set (worker_opens env)"
  by (simp add: worker_opens_def retry_opens_def order_opens_def Let_def split: sum.split option.split)

lemma worker_main_prefix:
  assumes "worker_main env res orderSubscribe other = (out, ev)"
  shows "\<exists>n \<le> length (full_run res). ev = take n (full_run res) \<and> (out = MainDone \<longleftrightarrow> n = length (full_run res))"
proof -
  obtain o' ev' where run: "main_run env res orderSubscribe = (o', ev')" by fastforce
  have pre: "prefix ev' (full_run res) \<and> (o' = MainDone \<longleftrightarrow> ev' = full_run res)"
  proof (cases "o' = MainDone")
    case True
    then show ?thesis using run started_opens [of env _ res] by (auto simp: main_run_def split: sum.splits option.splits)
  next
    case False
    have "RetryChannelClose \<in> set (full_run res)" by (simp add: full_run_def worker_shutdown_def)
    then have "worker_opens env \<noteq> full_run res" using opens_close_nothing [of env] by auto
    then show ?thesis using False run opens_prefix [of env res]
      by (auto simp: main_run_def split: sum.splits option.splits)
  qed
  have full: "\<exists>n \<le> length (full_run res). ev' = take n (full_run res) \<and> (o' = MainDone \<longleftrightarrow> n = length (full_run res))"
    using pre by (intro exI [of _ "length ev'"]) (auto simp: prefix_def)
  have exit: "goroutine_exit cfg g \<noteq> Some MainDone" for cfg g by (cases g) auto
  consider (whole) "(out, ev) = (o', ev')" | (cut) n where "n < length ev'" "ev = take n ev'" "out \<noteq> MainDone"
  proof (cases "worker_main env res orderSubscribe other = (o', ev')")
    case True
    then show ?thesis using assms whole by simp
  next
    case False
    then obtain cfg n g where o: "we_load env = Inr cfg" "other = Some (n, g)"
      using run by (cases "we_load env"; cases other) (auto simp: worker_main_def)
    have main: "worker_main env res orderSubscribe other = (case goroutine_exit cfg g of None \<Rightarrow> (o', ev')
        | Some x \<Rightarrow> if n < length ev' \<and> goroutine_runs g (take n ev') then (x, take n ev') else (o', ev'))"
      by (simp add: worker_main_def run o split: option.split)
    then obtain x where x: "goroutine_exit cfg g = Some x" "n < length ev'" "worker_main env res orderSubscribe other = (x, take n ev')"
      using False by (cases "goroutine_exit cfg g") (simp_all split: if_split_asm)
    show ?thesis by (rule cut [of n]) (use x assms exit [of cfg g] in simp_all)
  qed
  then show ?thesis
  proof cases
    case whole
    then show ?thesis using full by simp
  next
    case cut
    obtain m where "m \<le> length (full_run res)" "ev' = take m (full_run res)" using full by blast
    then show ?thesis using cut by (intro exI [of _ n]) auto
  qed
qed

text \<open>Every producer that is closed was flushed by the call before.\<close>

fun flushed_after :: "proc_event option \<Rightarrow> proc_event list \<Rightarrow> bool" where
  "flushed_after before [] = True"
| "flushed_after before (e # ev) = ((case e of
       Closed r err \<Rightarrow> r \<in> {RetryProducer, RetryDlqProducer, OrderDlqProducer} \<longrightarrow> before = Some (Flushed r 5000)
     | _ \<Rightarrow> True) \<and> flushed_after (Some e) ev)"

definition producers_flushed :: "proc_event list \<Rightarrow> bool" where
  "producers_flushed ev = flushed_after None ev"

text \<open>What holds of the calls of a run, depending on whether it came to its end.\<close>

definition accounted :: "bool \<Rightarrow> proc_event list \<Rightarrow> bool" where
  "accounted finished ev \<longleftrightarrow> distinct (all_opened ev) \<and> distinct (all_closed ev) \<and> set (all_closed ev) \<subseteq> set (all_opened ev) \<and>
     producers_flushed ev \<and>
     (if finished then set (all_closed ev) = set (all_opened ev) \<and> last ev = Closed DbPools None else DbPools \<notin> set (all_closed ev)) \<and>
     (if RetryChannelClose \<in> set ev then set (all_opened ev) \<subseteq> insert DbPools (set (all_closed ev)) else True)"

lemma prefixes_accounted:
  assumes "n \<le> length (full_run res)"
  shows "accounted (n = length (full_run res)) (take n (full_run res))"
proof -
  have len: "length (full_run res) = 23"
    by (simp add: full_run_def worker_shutdown_def order_close_def retry_close_def)
  then have "n \<in> set [0..<24]" using assms by simp
  then have "n \<in> {0, 1, 2, 3, 4, 5, 6, 7, 8, 9, 10, 11, 12, 13, 14, 15, 16, 17, 18, 19, 20, 21, 22, 23}"
    by (simp add: upt_rec numeral_eq_Suc del: set_upt atLeastLessThan_iff)
  then show ?thesis unfolding len
    by (elim insertE) (simp_all add: accounted_def producers_flushed_def full_run_def worker_shutdown_def order_close_def retry_close_def, blast)
qed

text \<open>
  Property C28. The worker accounts for what it opens, however it ends. At the end of every run, be it the
  orderly one, a fatal exit or a panic of any goroutine at any moment: no resource was opened or closed twice,
  only what was opened was closed, and every producer that was closed was flushed right before. The orderly end
  has closed all servers, pools, connections, producers and consumers, the pools last; any other end leaves the
  pools open, and one that comes after the retry channel was closed (as when a sender still waits on it) leaves
  nothing else open.
\<close>

theorem worker_accounts_for_resources:
  "case worker_main env res orderSubscribe other of (out, ev) \<Rightarrow>
     distinct (all_opened ev) \<and> distinct (all_closed ev) \<and> set (all_closed ev) \<subseteq> set (all_opened ev) \<and>
     producers_flushed ev \<and>
     (if out = MainDone then set (all_closed ev) = set (all_opened ev) \<and> last ev = Closed DbPools None else DbPools \<notin> set (all_closed ev)) \<and>
     (if RetryChannelClose \<in> set ev then set (all_opened ev) \<subseteq> insert DbPools (set (all_closed ev)) else True)"
proof -
  obtain out ev where r: "worker_main env res orderSubscribe other = (out, ev)" by fastforce
  then obtain n where "n \<le> length (full_run res)" "ev = take n (full_run res)" "out = MainDone \<longleftrightarrow> n = length (full_run res)"
    using worker_main_prefix by blast
  then have "accounted (out = MainDone) ev" using prefixes_accounted [of n res] by simp
  then show ?thesis unfolding r prod.case accounted_def .
qed

text \<open>
  The crash that \<open>shutdown_can_panic\<close> (theory \<open>Worker\<close>) exhibits, in the process: the sender that waits when
  the channel is closed ends a started worker before its deferred calls, so the pools stay open.
\<close>

lemma waiting_sender_leaves_pools_open:
  assumes "start_worker env = Inr w" "we_load env = Inr cfg" "order_Start cfg orderSubscribe = None"
  shows "\<exists>n. case worker_main env res orderSubscribe (Some (n, SendOnClosedChannel)) of (out, ev) \<Rightarrow>
    out = MainPanic (ErrorString ''send on closed channel'') \<and> last ev = RetryChannelClose \<and>
    set (all_opened ev) - set (all_closed ev) = {DbPools}"
proof -
  have run: "main_run env res orderSubscribe = (MainDone, full_run res)"
    using assms started_opens [OF assms(1)] by (simp add: main_run_def)
  have cut20: "take 20 (full_run res) = map Opened [MetricsServer, DbPools, RedisConn, RetryProducer, RetryDlqProducer, RetryTopicConsumer,
      OrderTopicConsumer, OrderDlqProducer] @ stage_calls res ContextCancelled @ stage_calls res OrderConsumerClosed @
      stage_calls res RedisClosed @ stage_calls res RetryHandlerClosed @ stage_calls res ChannelClosed" and "20 < length (full_run res)"
    by (simp_all add: full_run_def worker_shutdown_def order_close_def retry_close_def)
  then show ?thesis
    by (intro exI [of _ 20]) (simp add: worker_main_def run assms(2) order_close_def retry_close_def, auto)
qed

end
