(* ===== verification/Order_Http.thy ===== *)
theory Order_Http
  imports Order_App
begin

text \<open>
  The HTTP surface of the order API as \<open>services/order-api/app/app.go\<close> puts it together: the four routes
  of the gin engine (\<open>RegisterRoutes\<close> of the two handlers among them), with the replies of the swagger
  and Prometheus handlers and of gin itself as arguments, and what the replies tell a client. The
  texts of error replies come from the program; the causes (of PostgreSQL, the decoder, the cipher) reach
  a client only where \<open>ExposeErrorDetails\<close> is set.
\<close>

subsection \<open>The engine\<close>

datatype 'page app_reply = Replied HttpReply | Page 'page

record 'page AppWorld =
  aw_ginMode :: string
  aw_quote :: "string \<Rightarrow> string"
  aw_uuid_parse :: "string \<Rightarrow> uuid result"
  aw_new_trace :: string
  aw_bind :: "string \<Rightarrow> OrderRequest result"
  aw_swagger :: "string \<Rightarrow> 'page"
  aw_prometheus :: 'page
  aw_unrouted :: "string \<Rightarrow> string \<Rightarrow> 'page"

definition app_serve ::
  "'page AppWorld \<Rightarrow> App \<Rightarrow> OrderEnv \<Rightarrow> string \<Rightarrow> string \<Rightarrow> HttpRequest \<Rightarrow> Tables \<Rightarrow>
   'page app_reply \<times> Tables \<times> OrderMessage list \<times> string list list" where
  "app_serve w app env verb path c t =
     (if verb = ''POST'' \<and> path = ''/api/v1/orders''
      then (case serve_order (init_ExposeErrorDetails (aw_ginMode w)) (aw_quote w) (aw_uuid_parse w) (aw_new_trace w) (aw_bind w)
              (CreateOrder (app_cfg app) (app_aesKey app) env) c t of
              (reply, t', ms, metrics) \<Rightarrow> (Replied reply, t', ms, metrics))
      else if verb = ''GET'' \<and> path = ''/health'' then (Replied GetHealth, t, [], [])
      else if verb = ''GET'' \<and> path = ''/metrics'' then (Page (aw_prometheus w), t, [], [])
      else if verb = ''GET'' \<and> take 9 path = ''/swagger/'' then (Page (aw_swagger w path), t, [], [])
      else (Page (aw_unrouted w verb path), t, [], []))"

text \<open>A pattern of gin with a wildcard matches every path that continues what stands before the wildcard.\<close>

definition route_matches :: "string \<Rightarrow> string \<Rightarrow> bool" where
  "route_matches pattern path =
     (let fixed = takeWhile (\<lambda>c. c \<noteq> CHR ''*'') pattern
      in if fixed = pattern then path = pattern else take (length fixed) path = fixed)"

text \<open>What is not one of the registered routes is left to gin, and has no effect.\<close>

lemma app_serve_unrouted:
  assumes "\<forall>(m, pattern, mws) \<in> set app_routes. \<not> (verb = m \<and> route_matches pattern path)"
  shows "app_serve w app env verb path c t = (Page (aw_unrouted w verb path), t, [], [])"
  using assms
  by (auto simp: app_routes_def OrderHandler_RegisterRoutes_def BaseHandler_RegisterRoutes_def route_matches_def app_serve_def eval_nat_numeral)

subsection \<open>What error replies say\<close>

text \<open>The texts of the program's own errors on the way of an order, and the codes they carry.\<close>

definition public_messages :: "string list" where
  "public_messages =
     [''internal server error'', ''request ID is missing in header'', ''failed to parse request ID'', ''failed to retrieve trace id'',
      ''failed to parse user UUID from header'', ''invalid input'', ''no records found'', ''sql error'',
      ''duplicate value violates unique constraint'', ''foreign key violation'', ''invalid input syntax'',
      ''value too long for column'', ''numeric value out of range'', ''idempotency_key_already_exists'',
      ''decryption_failed'', ''parse_failed'', ''insufficient_balance'', ''encryption_failed'']"

definition order_error_codes :: "ErrorCode list" where
  "order_error_codes = [ErrInvalidInputCode, ErrServerCode, ErrRecordNotFoundCode, ErrInsufficientFundsCode,
     ErrIdempotencyConflictCode, ErrSQLUnknownCode, ErrSQLConflictCode, ErrSQLDuplicateCode, ErrSQLInvalidInput]"

definition public_error :: "go_error \<Rightarrow> bool" where
  "public_error err \<longleftrightarrow>
     (case as_app_error err of None \<Rightarrow> True | Some (code, msg) \<Rightarrow> code \<in> set order_error_codes \<and> msg \<in> set public_messages)"

lemma public_errors [simp]:
  "public_error (NewAppError code msg cause) \<longleftrightarrow> code \<in> set order_error_codes \<and> msg \<in> set public_messages"
  "as_app_error err = None \<Longrightarrow> public_error err"
  by (simp_all add: public_error_def NewAppError_def)

lemma public_HandleSQLError [simp]: "public_error (HandleSQLError err)"
  by (auto simp: HandleSQLError_def order_error_codes_def public_messages_def split: option.split)

lemma encrypted_amount_public: "encrypted_amount aesKey env req = Inl err \<Longrightarrow> public_error err"
  by (auto simp: encrypted_amount_def order_error_codes_def public_messages_def split: sum.splits bool.splits if_splits)

text \<open>The transaction passes the errors of \<open>Begin\<close> and \<open>Commit\<close> on as they are; they are pgx's, not the program's.\<close>

lemma CreateOrder_public:
  assumes "CreateOrder cfg aesKey env userId req t = (Inl err, t', ms)"
    and "\<forall>e. oe_begin env = Some e \<or> oe_commit env = Some e \<longrightarrow> as_app_error e = None"
  shows "public_error err"
  using assms encrypted_amount_public [of aesKey env req]
  by (auto simp: CreateOrder_def WithTransaction_def create_order_tx_def Commit_def Let_def ErrTxCommitRollback_def
      split: option.splits prod.splits sum.splits fn_outcome.splits if_splits)

text \<open>The route of orders replies with the id of a created order, or with one of these errors and no effect.\<close>

lemma TraceID_refuses:
  assumes "TraceID expose quote uuid_parse new_trace c = Inl reply"
  obtains err where "reply = error_reply expose quote None err" "public_error err"
  using assms that
  by (auto simp: TraceID_def Let_def order_error_codes_def public_messages_def split: sum.splits if_splits)

lemma handler_replies:
  assumes "OrderHandler_CreateOrder expose quote uuid_parse bind (CreateOrder cfg aesKey env) tr c t = (reply, t', ms)"
    and "\<forall>e. oe_begin env = Some e \<or> oe_commit env = Some e \<longrightarrow> as_app_error e = None"
  obtains (created) oid where "rp_Body reply = OrderCreated oid" "rp_Status reply = 201"
    | (refused) err where "reply = error_reply expose quote (Some tr) err" "public_error err" "t' = t" "ms = []"
proof (cases "\<exists>user req. GetTraceID tr = Inr tr \<and> uuid_parse (hq_Header c ''user_id'') = Inr user \<and> bind (hq_Body c) = Inr req")
  case True
  then obtain user req where ok: "GetTraceID tr = Inr tr" "uuid_parse (hq_Header c ''user_id'') = Inr user" "bind (hq_Body c) = Inr req" by blast
  obtain r t1 m1 where r: "CreateOrder cfg aesKey env user req t = (r, t1, m1)" using prod_cases3 by blast
  show ?thesis
  proof (cases r)
    case (Inl err)
    then show ?thesis
      using refused [of err] assms(1) ok r CreateOrder_public [OF r [unfolded Inl] assms(2)] orders.error_no_effect [OF r [unfolded Inl]]
      by (simp add: OrderHandler_CreateOrder_def)
  next
    case (Inr oid)
    then show ?thesis using created [of oid] assms(1) ok r by (auto simp: OrderHandler_CreateOrder_def)
  qed
next
  case False
  then show ?thesis
    using refused assms(1)
    by (auto simp: OrderHandler_CreateOrder_def GetTraceID_def order_error_codes_def public_messages_def split: sum.splits if_splits)
qed

lemma error_reply_public:
  assumes "public_error err" "rp_Body (error_reply expose quote tr err) = ErrorBody resp"
  shows "er_Message resp \<in> set public_messages" "(er_Status resp, er_Code resp) \<in> set (map (\<lambda>c. (ec_Status c, ec_Code c)) order_error_codes)"
    "400 \<le> er_Status resp \<and> er_Status resp \<le> 500" "rp_Status (error_reply expose quote tr err) = er_Status resp"
    "\<not> expose \<Longrightarrow> er_Details resp = []"
proof -
  have resp: "resp = ToErrorResponse expose quote err" using assms(2) by (simp add: error_reply_def Let_def)
  show "rp_Status (error_reply expose quote tr err) = er_Status resp" by (simp add: resp error_reply_def Let_def)
  show "\<not> expose \<Longrightarrow> er_Details resp = []" by (simp add: resp ToErrorResponse_def Let_def split: option.split)
  have codes: "\<forall>c \<in> set order_error_codes. 400 \<le> ec_Status c \<and> ec_Status c \<le> 500"
    by (simp add: order_error_codes_def error_code_defs)
  obtain code msg where cm: "code \<in> set order_error_codes" "msg \<in> set public_messages" "er_Message resp = msg"
    "er_Status resp = ec_Status code" "er_Code resp = ec_Code code"
  proof (cases "as_app_error err")
    case None
    then show ?thesis
      using that [of ErrServerCode "ec_Message ErrServerCode"]
      by (simp add: resp ToErrorResponse_def Let_def order_error_codes_def public_messages_def error_code_defs)
  next
    case (Some cm)
    then show ?thesis
      using that [of "fst cm" "snd cm"] assms(1) by (auto simp: resp ToErrorResponse_def Let_def public_error_def split: prod.splits)
  qed
  then show "er_Message resp \<in> set public_messages"
    "(er_Status resp, er_Code resp) \<in> set (map (\<lambda>c. (ec_Status c, ec_Code c)) order_error_codes)"
    "400 \<le> er_Status resp \<and> er_Status resp \<le> 500"
    using codes by auto
qed

text \<open>
  Property C36. What the API tells its clients. Only \<open>POST /api/v1/orders\<close> changes the database or publishes,
  and then the reply is 201 with the order's id. Every error reply carries the status and code of one
  entry of the catalogue, between 400 and 500, and one of eighteen fixed texts: no text of PostgreSQL, the
  cipher, the decoder or the key reaches it, and in release mode there are no details either. (The
  errors pgx returns from \<open>Begin\<close> and \<open>Commit\<close> are not application errors.)
\<close>

theorem app_replies_confidential:
  assumes "app_serve w app env verb path c t = (answer, t', ms, metrics)"
    and "\<forall>e. oe_begin env = Some e \<or> oe_commit env = Some e \<longrightarrow> as_app_error e = None"
  shows "(t' \<noteq> t \<or> ms \<noteq> [] \<longrightarrow> verb = ''POST'' \<and> path = ''/api/v1/orders'' \<and>
      (\<exists>reply oid. answer = Replied reply \<and> rp_Status reply = 201 \<and> rp_Body reply = OrderCreated oid)) \<and>
    (\<forall>reply resp. answer = Replied reply \<and> rp_Body reply = ErrorBody resp \<longrightarrow>
      er_Message resp \<in> set public_messages \<and> (er_Status resp, er_Code resp) \<in> set (map (\<lambda>c. (ec_Status c, ec_Code c)) order_error_codes) \<and>
      400 \<le> er_Status resp \<and> er_Status resp \<le> 500 \<and> rp_Status reply = er_Status resp \<and>
      (aw_ginMode w = ''release'' \<longrightarrow> er_Details resp = []))"
proof (cases "verb = ''POST'' \<and> path = ''/api/v1/orders''")
  case False
  then show ?thesis using assms(1) by (auto simp: app_serve_def GetHealth_def split: if_splits)
next
  case True
  let ?x = "init_ExposeErrorDetails (aw_ginMode w)"
  obtain reply where s: "answer = Replied reply"
    "serve_order ?x (aw_quote w) (aw_uuid_parse w) (aw_new_trace w) (aw_bind w) (CreateOrder (app_cfg app) (app_aesKey app) env) c t = (reply, t', ms, metrics)"
    using assms(1) True by (auto simp: app_serve_def split: prod.splits)
  consider oid where "rp_Body reply = OrderCreated oid" "rp_Status reply = 201"
    | tr err where "reply = error_reply ?x (aw_quote w) tr err" "public_error err" "t' = t" "ms = []"
  proof (cases "TraceID ?x (aw_quote w) (aw_uuid_parse w) (aw_new_trace w) c")
    case (Inl r)
    then show ?thesis using TraceID_refuses [OF Inl] that(2) s(2) by (auto simp: serve_order_def)
  next
    case (Inr tr)
    then have h: "OrderHandler_CreateOrder ?x (aw_quote w) (aw_uuid_parse w) (aw_bind w) (CreateOrder (app_cfg app) (app_aesKey app) env) tr c t = (reply, t', ms)"
      using s(2) by (auto simp: serve_order_def split: prod.splits)
    show ?thesis by (rule handler_replies [OF h assms(2)]) (use that in blast)+
  qed
  then show ?thesis
  proof cases
    case 1
    then show ?thesis using True s(1) by simp
  next
    case 2
    note e = error_reply_public [OF 2(2), of ?x "aw_quote w" tr]
    have "er_Details resp = []" if "rp_Body reply = ErrorBody resp" "aw_ginMode w = ''release''" for resp
      using e(5) [of resp] that 2(1) by (simp add: init_ExposeErrorDetails_def)
    then show ?thesis using 2(3,4) s(1) e(1-4) [folded 2(1)] by simp
  qed
qed

definition app_example :: App where
  "app_example = \<lparr>app_Addr = '':8080'', app_db = \<lparr>dh_writer = 0, dh_readers = []\<rparr>,
     app_publisher = \<lparr>kp_topics = order_topics order_config_example, kp_producer = []\<rparr>, app_aesKey = key_example,
     app_cfg = order_config_example\<rparr>"

definition app_world_example :: "string AppWorld" where
  "app_world_example = \<lparr>aw_ginMode = ''release'', aw_quote = id,
     aw_uuid_parse = (\<lambda>s. if s = ''id'' then Inr 1 else Inl (LibError ''invalid UUID length'')), aw_new_trace = ''trace'',
     aw_bind = (\<lambda>b. Inr (request_example 2500)), aw_swagger = id, aw_prometheus = ''# HELP'',
     aw_unrouted = (\<lambda>m p. ''404 page not found'')\<rparr>"

theorem app_replies_confidential_witness:
  "\<exists>reply resp t' ms metrics. app_serve app_world_example app_example (order_env_example (tables_example 10000)) ''POST'' ''/api/v1/orders''
       http_request_example (tables_example 10000) = (Replied reply, t', ms, metrics) \<and>
     rp_Body reply = ErrorBody resp \<and> er_Message resp \<in> set public_messages \<and> er_Details resp = []"
proof -
  let ?env = "order_env_example (tables_example 10000)"
  obtain answer t' ms metrics where x: "app_serve app_world_example app_example ?env ''POST'' ''/api/v1/orders''
      http_request_example (tables_example 10000) = (answer, t', ms, metrics)" by (metis prod_cases4)
  have "as_app_error e = None" if "oe_begin ?env = Some e \<or> oe_commit ?env = Some e" for e
    using that by (simp add: order_env_example_def)
  then have "\<forall>e. oe_begin ?env = Some e \<or> oe_commit ?env = Some e \<longrightarrow> as_app_error e = None" by blast
  note conf = app_replies_confidential [OF x this]
  have "\<exists>reply resp. answer = Replied reply \<and> rp_Body reply = ErrorBody resp"
    using x by (auto simp: app_serve_def app_world_example_def serve_order_def TraceID_def http_request_example_def IsEmpty_def
        OrderHandler_CreateOrder_def GetTraceID_def error_reply_def Let_def)
  then show ?thesis using conf x by (auto simp: app_world_example_def)
qed

end
