(* ===== verification/Replica_Reads.thy ===== *)
theory Replica_Reads
  imports Concurrent_Payments
begin

text \<open>
  Payments on a primary with read replicas (\<open>pkg/database/db.go\<close>). \<open>Query\<close> and \<open>QueryRow\<close> go to a random
  reader, \<open>Exec\<close> and transactions to the writer; \<open>FindByID\<close>, with which a payment reads the balance, is a
  \<open>QueryRow\<close>, and so is the read of the fraud detector. A replica follows the primary at its own pace: a run
  is a list of payments and of moments at which a replica catches up. Where the readers lag, debits are lost.
\<close>

subsection \<open>Routing\<close>

definition DB_Query :: "(nat \<Rightarrow> nat) \<Rightarrow> (Tables \<Rightarrow> 'rows) \<Rightarrow> DB \<Rightarrow> 'rows" where
  "DB_Query intn sql db = sql (getReader intn db)"

definition DB_QueryRow :: "(nat \<Rightarrow> nat) \<Rightarrow> (Tables \<Rightarrow> 'row) \<Rightarrow> DB \<Rightarrow> 'row" where
  "DB_QueryRow intn sql db = sql (getReader intn db)"

definition DB_Exec :: "(Tables \<Rightarrow> (Tables \<times> int) result) \<Rightarrow> DB \<Rightarrow> int result \<times> DB" where
  "DB_Exec sql db =
     (case sql (db_writer db) of
        Inl err \<Rightarrow> (Inl err, db)
      | Inr (t, n) \<Rightarrow> (Inr n, db\<lparr>db_writer := t\<rparr>))"

definition DB_Begin :: "DB \<Rightarrow> Tx" where
  "DB_Begin db = Begin (db_writer db)"

definition DB_Rollback :: "Tx \<Rightarrow> DB \<Rightarrow> DB" where
  "DB_Rollback tx db = db"

text \<open>Every reader shows what the writer holds.\<close>

definition in_sync :: "DB \<Rightarrow> bool" where
  "in_sync db \<longleftrightarrow> (\<forall>t. ReplicaPool t \<in> set (db_readers db) \<longrightarrow> t = db_writer db)"

text \<open>\<open>rand.Intn n\<close> lies below \<open>n\<close> for a positive \<open>n\<close>.\<close>

definition intn_ok :: "(nat \<Rightarrow> nat) \<Rightarrow> bool" where
  "intn_ok intn \<longleftrightarrow> (\<forall>n > 0. intn n < n)"

lemma getReader_in_sync:
  assumes "in_sync db" "intn_ok intn"
  shows "getReader intn db = db_writer db"
proof (cases "db_readers db = []")
  case False
  then have "intn (length (db_readers db)) < length (db_readers db)" using assms(2) by (simp add: intn_ok_def)
  then have "db_readers db ! intn (length (db_readers db)) \<in> set (db_readers db)" by simp
  then show ?thesis using False assms(1) by (auto simp: getReader_def in_sync_def split: reader_pool.split)
qed (simp add: getReader_def)

lemma reads_own_writes:
  "DB_Exec sql db = (Inr n, db') \<Longrightarrow> in_sync db' \<Longrightarrow> intn_ok intn \<Longrightarrow> DB_Query intn q db' = q (db_writer db')"
  by (simp add: DB_Query_def getReader_in_sync)

subsection \<open>Runs of payments and replication\<close>

datatype db_event = Pay "nat \<Rightarrow> nat" "nat \<Rightarrow> nat" PayEnv PaymentJob | Replicate nat

text \<open>
  A payment makes two reads through \<open>QueryRow\<close>, its own and the fraud detector's, each with a draw of its own
  (\<open>intn\<close> and \<open>fintn\<close>), and commits on the writer.
\<close>

definition reading_from :: "Tables \<Rightarrow> Tables \<Rightarrow> PayEnv \<Rightarrow> PayEnv" where
  "reading_from r fr env = env\<lparr>pe_reader := r, pe_fraud := (pe_fraud env)\<lparr>en_reader := fr\<rparr>\<rparr>"

definition pay_on ::
  "PaymentProcessor \<Rightarrow> (nat \<Rightarrow> nat) \<Rightarrow> (nat \<Rightarrow> nat) \<Rightarrow> PayEnv \<Rightarrow> PaymentJob \<Rightarrow> DB \<Rightarrow> go_error option \<times> DB" where
  "pay_on p intn fintn env job db =
     (case DB_QueryRow intn (\<lambda>r. DB_QueryRow fintn (\<lambda>fr. ProcessPayment p (reading_from r fr env) job (db_writer db)) db) db of
        (err, t, tr) \<Rightarrow> (err, db\<lparr>db_writer := t\<rparr>))"

definition replicate_to :: "nat \<Rightarrow> DB \<Rightarrow> DB" where
  "replicate_to k db =
     (if k < length (db_readers db) \<and> db_readers db ! k \<noteq> WriterPool
      then db\<lparr>db_readers := (db_readers db)[k := ReplicaPool (db_writer db)]\<rparr> else db)"

fun run_db :: "PaymentProcessor \<Rightarrow> db_event list \<Rightarrow> DB \<Rightarrow> go_error option list \<times> DB" where
  "run_db p [] db = ([], db)"
| "run_db p (Pay intn fintn env job # evs) db =
     (let (err, db1) = pay_on p intn fintn env job db; (errs, db2) = run_db p evs db1 in (err # errs, db2))"
| "run_db p (Replicate k # evs) db = run_db p evs (replicate_to k db)"

lemma replicate_to_writer [simp]: "db_writer (replicate_to k db) = db_writer db"
  by (simp add: replicate_to_def)

subsection \<open>A replica that lags\<close>

abbreviation only_replica :: "DB \<Rightarrow> Tables \<Rightarrow> bool" where
  "only_replica db r \<equiv> db_readers db = [ReplicaPool r]"

lemma getReader_only:
  assumes "only_replica db r" "intn_ok intn"
  shows "getReader intn db = r"
proof -
  have "intn 1 < 1" by (rule assms(2) [unfolded intn_ok_def, rule_format]) simp
  then show ?thesis by (simp add: getReader_def assms(1))
qed

text \<open>One payment debits what the replica shows, whatever the primary holds by then.\<close>

lemma lagging_payment:
  assumes "only_replica db r" "intn_ok intn" "intn_ok fintn" "clean_call p us i cents (reading_from r r env) job" "length (pp_EncryptionKey p) = 32"
    and "FindByID us None i (db_writer db) = Inr row" "FindByID us None i r = Inr acc"
    and "holds_cents (pp_EncryptionKey p) (ac_Balance acc) b" "cents job \<le> b"
    and "holds_average (pp_EncryptionKey p) (ac_AvgOrderAmount acc)" "0 \<le> ac_OrderCount acc" "ac_OrderCount acc + 1 < 2 ^ 31"
  obtains t' acc' where "pay_on p intn fintn env job db = (None, db\<lparr>db_writer := t'\<rparr>)" "FindByID us None i t' = Inr acc'"
    "holds_cents (pp_EncryptionKey p) (ac_Balance acc') (b - cents job)" "ac_OrderCount acc' = ac_OrderCount acc + 1"
proof -
  let ?env = "reading_from r r env"
  have c: "undisturbed ?env" "random_ok ?env" "pe_uuid_string ?env = us" "pj_AccountID job = i"
    "holds_cents (pp_EncryptionKey p) (pj_Amount job) (cents job)"
    "fs_FraudFlag (fst (Analyze (pp_FraudDetector p) (pe_fraud ?env) (dollars (cents job)) job)) = FraudFlagClean"
    using assms(4) by (simp_all add: clean_call_def)
  have rd: "pe_reader ?env = r" by (simp add: reading_from_def)
  obtain v where v: "DecryptToFloat64 (ac_AvgOrderAmount acc) (pp_EncryptionKey p) = Inr v"
    using assms(10) by (auto simp: holds_average_def split: sum.splits)
  have f: "FindByID (pe_uuid_string ?env) None (pj_AccountID job) (db_writer db) = Inr row"
    "FindByID (pe_uuid_string ?env) None (pj_AccountID job) (pe_reader ?env) = Inr acc" using assms(6,7) c(3,4) rd by simp_all
  from payment_debits_read [OF c(1,2) assms(5) f(1) c(5) f(2) assms(8,9) v assms(11,12) c(6)]
  obtain t' tr acc' where "ProcessPayment p ?env job (db_writer db) = (None, t', tr)" "FindByID us None i t' = Inr acc'"
    "holds_cents (pp_EncryptionKey p) (ac_Balance acc') (b - cents job)" "ac_OrderCount acc' = ac_OrderCount acc + 1"
    unfolding c(3,4) by blast
  then show ?thesis using that by (simp add: pay_on_def DB_QueryRow_def getReader_only [OF assms(1)] assms(2,3))
qed

text \<open>
  Property C9. A replica that lags forgets debits: as long as the only replica shows an account with
  \<open>b\<close> cents, any number of payments of at most \<open>b\<close> cents each, undisturbed and judged clean by a detector that
  reads the same replica, all return nil, and the account ends
  with \<open>b\<close> less the last amount only and one more order, however many were paid. Nothing fails and
  nothing runs at the same time; the sum of what was paid out may exceed the balance without bound.
\<close>

theorem lagging_replica_forgets_debits:
  assumes "only_replica db r" "calls \<noteq> []" "\<forall>(intn, fintn, env, job) \<in> set calls. intn_ok intn \<and> intn_ok fintn \<and>
      clean_call p us i cents (reading_from r r env) job \<and> cents job \<le> b"
    and "length (pp_EncryptionKey p) = 32" "FindByID us None i (db_writer db) = Inr row" "FindByID us None i r = Inr acc"
    and "holds_cents (pp_EncryptionKey p) (ac_Balance acc) b" "holds_average (pp_EncryptionKey p) (ac_AvgOrderAmount acc)"
    and "0 \<le> ac_OrderCount acc" "ac_OrderCount acc + 1 < 2 ^ 31"
    and "(errs, db') = run_db p (map (\<lambda>(intn, fintn, env, job). Pay intn fintn env job) calls) db"
  shows "errs = replicate (length calls) None \<and> (\<exists>acc'. FindByID us None i (db_writer db') = Inr acc' \<and>
    holds_cents (pp_EncryptionKey p) (ac_Balance acc') (b - cents (snd (snd (snd (last calls))))) \<and> ac_OrderCount acc' = ac_OrderCount acc + 1)"
  using assms(1-3,5,11)
proof (induction calls arbitrary: db row errs)
  case (Cons c calls)
  obtain intn fintn env job where c: "c = (intn, fintn, env, job)" using prod_cases4 by blast
  have ok: "intn_ok intn" "intn_ok fintn" "clean_call p us i cents (reading_from r r env) job" "cents job \<le> b"
    using Cons.prems(3) c by simp_all
  obtain t' acc' where pay: "pay_on p intn fintn env job db = (None, db\<lparr>db_writer := t'\<rparr>)" "FindByID us None i t' = Inr acc'"
    "holds_cents (pp_EncryptionKey p) (ac_Balance acc') (b - cents job)" "ac_OrderCount acc' = ac_OrderCount acc + 1"
    by (rule lagging_payment [OF Cons.prems(1) ok(1-3) assms(4) Cons.prems(4) assms(6,7) ok(4) assms(8-10)])
  show ?case
  proof (cases "calls = []")
    case True
    then show ?thesis using Cons.prems(5) pay by (simp add: c)
  next
    case False
    obtain errs' where run: "(errs', db') = run_db p (map (\<lambda>(intn, fintn, env, job). Pay intn fintn env job) calls) (db\<lparr>db_writer := t'\<rparr>)"
      and errs: "errs = None # errs'"
      using Cons.prems(5) pay(1) by (auto simp: c split: prod.splits)
    have "only_replica (db\<lparr>db_writer := t'\<rparr>) r" "FindByID us None i (db_writer (db\<lparr>db_writer := t'\<rparr>)) = Inr acc'"
      using Cons.prems(1) pay(2) by simp_all
    from Cons.IH [OF this(1) False _ this(2) run] show ?thesis using Cons.prems(3) False errs by simp
  qed
qed simp

subsection \<open>Examples\<close>

definition lag_example :: DB where
  "lag_example = \<lparr>db_writer = tables_example 10000, db_readers = [ReplicaPool (tables_example 10000)]\<rparr>"

definition pay_example :: "(nat \<Rightarrow> nat) \<times> (nat \<Rightarrow> nat) \<times> PayEnv \<times> PaymentJob" where
  "pay_example = (\<lambda>n. 0, \<lambda>n. 0, env_example (tables_example 10000), job_example 2500)"

theorem lagging_replica_forgets_debits_witness:
  "\<exists>errs db' acc'. run_db processor_example (map (\<lambda>(intn, fintn, env, job). Pay intn fintn env job) [pay_example, pay_example]) lag_example = (errs, db') \<and>
     errs = [None, None] \<and> FindByID (\<lambda>u. ''uuid'') None 7 (db_writer db') = Inr acc' \<and> holds_cents key_example (ac_Balance acc') 7500"
proof -
  obtain errs db' where run: "(errs, db') =
      run_db processor_example (map (\<lambda>(intn, fintn, env, job). Pay intn fintn env job) [pay_example, pay_example]) lag_example" by (metis prod.exhaust)
  have "reading_from (tables_example 10000) (tables_example 10000) (env_example (tables_example 10000)) = env_example (tables_example 10000)"
    by (simp add: reading_from_def env_example_def fraud_env_example_def)
  then have calls: "\<forall>(intn, fintn, env, job) \<in> set [pay_example, pay_example]. intn_ok intn \<and> intn_ok fintn \<and>
      clean_call processor_example (\<lambda>u. ''uuid'') 7 (\<lambda>j. 2500) (reading_from (tables_example 10000) (tables_example 10000) env) job \<and>
      (2500 :: nat) \<le> 10000"
    using clean_call_example by (simp add: pay_example_def intn_ok_def)
  have d: "only_replica lag_example (tables_example 10000)" "[pay_example, pay_example] \<noteq> []"
    "FindByID (\<lambda>u. ''uuid'') None 7 (db_writer lag_example) = Inr (account_example 10000)"
    "FindByID (\<lambda>u. ''uuid'') None 7 (tables_example 10000) = Inr (account_example 10000)"
    "ac_OrderCount (account_example 10000) + 1 < 2 ^ 31"
    by (simp_all add: lag_example_def example_facts)
  note r = lagging_replica_forgets_debits [OF d(1,2) calls example_facts(3) d(3,4) example_premises(3) average_example example_premises(5) d(5) run]
  show ?thesis
    by (rule exI [of _ errs], rule exI [of _ db']) (use r run [symmetric] in \<open>auto simp: example_facts numeral_2_eq_2\<close>)
qed

end
