(* ===== verification/Retry_Flow.thy ===== *)
theory Retry_Flow
  imports Retry_Consumer
begin

text \<open>
  The course of one job through the worker: the message of the order topic, the retry channel, the retry
  topic, and so on until it is paid or given up. A round takes the job that a payment put on the
  channel (\<open>startRetryChannelHandler\<close>), publishes it, and hands what was published to
  \<open>processRetryMessage\<close>, decoded as it was encoded. Each payment runs against the tables its predecessor
  left, with an up to date reader.
\<close>

record Round =
  rd_channel :: RetryEnv
  rd_consumer :: RetryEnv
  rd_message :: Message
  rd_pay :: PayEnv

text \<open>The jobs put on the retry channel, and the jobs published to the retry topic, in order.\<close>

fun send_of :: "pay_event \<Rightarrow> PaymentJob list" where
  "send_of (RetrySend job) = [job]"
| "send_of _ = []"

fun event_sends :: "msg_event \<Rightarrow> PaymentJob list" where
  "event_sends (PaymentRun job evs) = concat (map send_of evs)"
| "event_sends _ = []"

fun event_publishes :: "msg_event \<Rightarrow> PaymentJob list" where
  "event_publishes (RetryProduced topic key job) = [job]"
| "event_publishes _ = []"

definition sends :: "msg_event list \<Rightarrow> PaymentJob list" where
  "sends tr = concat (map event_sends tr)"

definition publishes :: "msg_event list \<Rightarrow> PaymentJob list" where
  "publishes tr = concat (map event_publishes tr)"

definition newly :: "(msg_event list \<Rightarrow> PaymentJob list) \<Rightarrow> MsgState \<Rightarrow> MsgState \<Rightarrow> PaymentJob list" where
  "newly f s s' = drop (length (f (ms_trace s))) (f (ms_trace s'))"

definition deliver :: "PaymentJob \<Rightarrow> RetryEnv \<Rightarrow> RetryEnv" where
  "deliver job env = env\<lparr>re_msg := (re_msg env)\<lparr>me_unmarshal := (\<lambda>v. (job, None))\<rparr>\<rparr>"

definition pay_now :: "PaymentProcessor \<Rightarrow> PayEnv \<Rightarrow> MsgState \<Rightarrow> processor" where
  "pay_now p env s = ProcessPayment p (env\<lparr>pe_reader := ms_tables s\<rparr>)"

fun retry_rounds :: "WorkerConfig \<Rightarrow> PaymentProcessor \<Rightarrow> Round list \<Rightarrow> PaymentJob \<Rightarrow> MsgState \<Rightarrow> MsgState" where
  "retry_rounds cfg p [] job s = s"
| "retry_rounds cfg p (r # rs) job s =
     (case retry_channel_job cfg (rd_channel r) job s of
        None \<Rightarrow> s
      | Some s1 \<Rightarrow>
          (case newly publishes s s1 of
             [] \<Rightarrow> s1
           | job1 # _ \<Rightarrow>
               (let s2 = processRetryMessage cfg (pay_now p (rd_pay r) s1) (deliver job1 (rd_consumer r)) (rd_message r) s1
                in case newly sends s1 s2 of
                  [] \<Rightarrow> s2
                | job2 # _ \<Rightarrow> retry_rounds cfg p rs job2 s2)))"

definition job_course ::
  "WorkerConfig \<Rightarrow> PaymentProcessor \<Rightarrow> MsgEnv \<Rightarrow> Message \<Rightarrow> PayEnv \<Rightarrow> Round list \<Rightarrow> MsgState \<Rightarrow> MsgState" where
  "job_course cfg p env msg penv rs s =
     (let s1 = processMessage cfg (pay_now p penv s) env msg s
      in case newly sends s s1 of
        [] \<Rightarrow> s1
      | job # _ \<Rightarrow> retry_rounds cfg p rs job s1)"

subsection \<open>What the traces say\<close>

lemma sends_simps [simp]: "sends [] = []" "sends (a @ b) = sends a @ sends b" "sends (e # tr) = event_sends e @ sends tr"
  by (simp_all add: sends_def)

lemma publishes_simps [simp]:
  "publishes [] = []" "publishes (a @ b) = publishes a @ publishes b" "publishes (e # tr) = event_publishes e @ publishes tr"
  by (simp_all add: publishes_def)

lemma sends_runs: "sends tr = sends (filter is_run_event tr)"
proof (induction tr)
  case (Cons e tr)
  then show ?case by (cases e) simp_all
qed simp

lemma publishes_msgs: "publishes tr = publishes (filter is_retry_msg tr)"
proof (induction tr)
  case (Cons e tr)
  then show ?case by (cases e) simp_all
qed simp

lemma sends_filter: "concat (map send_of evs) = concat (map send_of (filter is_send evs))"
proof (induction evs)
  case (Cons e evs)
  then show ?case by (cases e) simp_all
qed simp

subsection \<open>Refused payments\<close>

text \<open>
  A call that does not decide the payment: the account is locked by another, or the analysis is
  inconclusive. The database takes the status and the commit.
\<close>

definition refused_call :: "PaymentProcessor \<Rightarrow> PayEnv \<Rightarrow> nat \<Rightarrow> PaymentJob \<Rightarrow> bool" where
  "refused_call p env a job \<longleftrightarrow> pe_begin env = None \<and> pe_status_fault env = None \<and> pe_commit env = None \<and> pe_update_fault env = None \<and>
     (pe_setnx env = Inr False \<or> pe_setnx env = Inr True \<and> pe_find_fault env = None \<and>
        fs_FraudFlag (fst (Analyze (pp_FraudDetector p) (pe_fraud env) (dollars a) job)) = FraudFlagUnknown)"

text \<open>A retry does not change what the analysis sees of a job.\<close>

lemma Analyze_account: "pj_AccountID job = pj_AccountID job' \<Longrightarrow> Analyze f env a job = Analyze f env a job'"
  by (simp add: Analyze_def)

lemma refused_payment:
  assumes "refused_call p env a job" "pe_reader env = t" "FindByID (pe_uuid_string env) None (pj_AccountID job) t = Inr acc"
    and "holds_cents (pp_EncryptionKey p) (pj_Amount job) a" "holds_cents (pp_EncryptionKey p) (ac_Balance acc) b" "a \<le> b"
  obtains err m tr where "ProcessPayment p env job t = (Some err, set_status (pe_now env) (pj_IdempotencyKey job) OrderStatusRetrying m t, tr)"
    "filter is_send tr = [RetrySend job]"
proof (cases "pe_setnx env = Inr False")
  case True
  let ?m = "''Account locked by another process''"
  have na: "\<not> tx_aborted (Begin t)" by (simp add: Begin_def)
  have e: "pe_begin env = None" "pe_status_fault env = None" "pe_commit env = None" using assms(1) by (simp_all add: refused_call_def)
  have "status_tx env (pj_IdempotencyKey job) OrderStatusRetrying ?m (Begin t) =
      \<lparr>tx_view = set_status (pe_now env) (pj_IdempotencyKey job) OrderStatusRetrying ?m t, tx_aborted = False\<rparr>"
    using status_tx_view(1) [OF _ na e(2), of ?m] by (simp add: Begin_def)
  then have "ProcessPayment p env job t = (Some (ErrorString ''account locked by another process''),
      set_status (pe_now env) (pj_IdempotencyKey job) OrderStatusRetrying ?m t,
      [LockSetNX (lock_key env job) (20 * Second), TxBegin, StatusUpdate (pj_IdempotencyKey job) OrderStatusRetrying ?m, RetrySend job, TxCommit None])"
    by (simp add: ProcessPayment_unlocked [OF True e(1)] process_unlocked_def Commit_def e(3))
  then show ?thesis by (rule that) simp
next
  case False
  then have e: "pe_setnx env = Inr True" "pe_begin env = None" "pe_update_fault env = None" "pe_status_fault env = None" "pe_commit env = None"
    "pe_find_fault env = None" "fs_FraudFlag (fst (Analyze (pp_FraudDetector p) (pe_fraud env) (dollars a) job)) = FraudFlagUnknown"
    using assms(1) by (simp_all add: refused_call_def)
  have dec: "decide p env job = Retry ErrFraudDetectionFailed ''Failed due to fraud detection failure''"
    using decide_known [OF assms(4) e(6), of acc b] assms(2,3,5,6) e(7) by simp
  then have fits: "count_fits (decide p env job)" by (simp add: count_fits_def)
  note res = payment_carries_out_decision [OF e(1-5) fits, of t]
  have "filter is_send (snd (snd (ProcessPayment p env job t))) = [RetrySend job]"
    by (simp add: ProcessPayment_locked [OF e(1,2)] process_locked_sends dec)
  then show ?thesis
    using that [of ErrFraudDetectionFailed "''Failed due to fraud detection failure''" "snd (snd (ProcessPayment p env job t))"] res
    by (simp add: dec prod_eq_iff)
qed

subsection \<open>One round\<close>

text \<open>Nothing but the payment itself goes wrong: the channel, the topics and the validator work.\<close>

definition round_ok :: "Round \<Rightarrow> bool" where
  "round_ok r \<longleftrightarrow> int63n_ok (re_int63n (rd_channel r)) \<and> (\<forall>j. re_marshal (rd_channel r) j = None) \<and> re_produce (rd_channel r) = None \<and>
     re_status_fault (rd_channel r) = None \<and> dlq_available (re_msg (rd_channel r)) \<and> dlq_available (re_msg (rd_consumer r)) \<and>
     \<not> me_ctx_done (re_msg (rd_consumer r)) \<and> \<not> re_ctx_done_after (rd_consumer r) \<and>
     (\<forall>j. PaymentJob_tags j \<longrightarrow> me_validate (re_msg (rd_consumer r)) j = None)"

definition retry_config_ok :: "WorkerConfig \<Rightarrow> bool" where
  "retry_config_ok cfg \<longleftrightarrow> WorkerConfig_tags cfg \<and> 4 \<le> wc_RetryBaseBackoff cfg \<and> wc_RetryBaseBackoff cfg < 2 ^ 58 \<and> 0 \<le> wc_MaxRetryBackoff cfg"

lemma retry_message_run:
  assumes "\<not> me_ctx_done (re_msg env)" "\<not> re_ctx_done_after env" "dlq_available (re_msg env)"
    and "me_unmarshal (re_msg env) (msg_Value msg) = (job, None)" "me_validate (re_msg env) job = None"
    and "pj_RetryCount job \<le> wc_MaxRetryCount cfg" "process job (ms_tables s) = (err, t, evs)"
    and s': "s' = processRetryMessage cfg process env msg s"
  shows "ms_tables s' = t" "sends (ms_trace s') = sends (ms_trace s) @ concat (map send_of evs)"
    "publishes (ms_trace s') = publishes (ms_trace s)"
    "length (filter is_run_event (ms_trace s')) = length (filter is_run_event (ms_trace s)) + 1"
    "length (filter is_dlq (ms_trace s')) = length (filter is_dlq (ms_trace s)) + (if err = None then 0 else 1)"
proof -
  note d = sendToRetryDLQ_dlq [OF assms(3)]
  have ack: "filter is_retry_msg (ms_trace (ack_message me m x)) = filter is_retry_msg (ms_trace x)" for me m x
    by (simp add: ack_message_def split: prod.split option.split)
  have runs: "filter is_run_event (ms_trace s') = filter is_run_event (ms_trace s) @ [PaymentRun job evs]"
    and msgs: "filter is_retry_msg (ms_trace s') = filter is_retry_msg (ms_trace s)"
    and "ms_tables s' = t" "length (filter is_dlq (ms_trace s')) = length (filter is_dlq (ms_trace s)) + (if err = None then 0 else 1)"
    using assms(1,2,4-7) by (cases err; simp add: s' processRetryMessage_def Let_def check_within d ack)+
  then show "ms_tables s' = t" "length (filter is_dlq (ms_trace s')) = length (filter is_dlq (ms_trace s)) + (if err = None then 0 else 1)"
    by blast+
  show "sends (ms_trace s') = sends (ms_trace s) @ concat (map send_of evs)"
    unfolding sends_runs [of "ms_trace s'"] sends_runs [of "ms_trace s"] runs by simp
  show "publishes (ms_trace s') = publishes (ms_trace s)"
    unfolding publishes_msgs [of "ms_trace s'"] publishes_msgs [of "ms_trace s"] msgs by simp
  show "length (filter is_run_event (ms_trace s')) = length (filter is_run_event (ms_trace s)) + 1" by (simp add: runs)
qed

lemma retry_round:
  assumes "retry_config_ok cfg" "round_ok r" "PaymentJob_tags job" "pj_RetryCount job < wc_MaxRetryCount cfg"
  obtains nxt job1 s2 err t evs where "job1 = job\<lparr>pj_RetryCount := pj_RetryCount job + 1, pj_NextRetryTime := nxt\<rparr>"
    "ProcessPayment p ((rd_pay r)\<lparr>pe_reader := ms_tables s\<rparr>) job1 (ms_tables s) = (err, t, evs)"
    "retry_rounds cfg p (r # rs) job s =
       (case concat (map send_of evs) of [] \<Rightarrow> s2 | job2 # _ \<Rightarrow> retry_rounds cfg p rs job2 s2)"
    "ms_tables s2 = t" "publishes (ms_trace s2) = publishes (ms_trace s) @ [job1]"
    "length (filter is_run_event (ms_trace s2)) = length (filter is_run_event (ms_trace s)) + 1"
    "length (filter is_dlq (ms_trace s2)) = length (filter is_dlq (ms_trace s)) + (if err = None then 0 else 1)"
proof -
  have n: "0 \<le> pj_RetryCount job" using assms(3) by (simp add: PaymentJob_tags_def)
  obtain nxt where pub: "retry_channel_job cfg (rd_channel r) job s = Some (note_event (RetryProduced (wc_KafkaRetryTopic cfg) (pj_IdempotencyKey job)
      (job\<lparr>pj_RetryCount := pj_RetryCount job + 1, pj_NextRetryTime := nxt\<rparr>)) s)"
    using retry_publishes [of cfg "rd_channel r" job s] assms(1,2,4) n by (auto simp: retry_config_ok_def round_ok_def)
  define job1 where "job1 = job\<lparr>pj_RetryCount := pj_RetryCount job + 1, pj_NextRetryTime := nxt\<rparr>"
  define s1 where "s1 = note_event (RetryProduced (wc_KafkaRetryTopic cfg) (pj_IdempotencyKey job) job1) s"
  define env where "env = deliver job1 (rd_consumer r)"
  define s2 where "s2 = processRetryMessage cfg (pay_now p (rd_pay r) s1) env (rd_message r) s1"
  obtain err t evs where pay: "ProcessPayment p ((rd_pay r)\<lparr>pe_reader := ms_tables s\<rparr>) job1 (ms_tables s) = (err, t, evs)"
    using prod_cases3 by blast
  have tags: "PaymentJob_tags job1" using assms(3) n by (simp add: job1_def PaymentJob_tags_def)
  have env: "\<not> me_ctx_done (re_msg env)" "\<not> re_ctx_done_after env" "dlq_available (re_msg env)"
    "me_unmarshal (re_msg env) (msg_Value (rd_message r)) = (job1, None)" "me_validate (re_msg env) job1 = None"
    "pj_RetryCount job1 \<le> wc_MaxRetryCount cfg"
    using assms(2,4) tags by (simp_all add: env_def deliver_def round_ok_def dlq_available_def job1_def)
  have proc: "pay_now p (rd_pay r) s1 job1 (ms_tables s1) = (err, t, evs)" using pay by (simp add: pay_now_def s1_def)
  note run = retry_message_run [OF env proc s2_def]
  have new: "newly publishes s s1 = [job1]" "newly sends s1 s2 = concat (map send_of evs)"
    using run(2) by (simp_all add: newly_def s1_def)
  have "retry_rounds cfg p (r # rs) job s = (case concat (map send_of evs) of [] \<Rightarrow> s2 | job2 # _ \<Rightarrow> retry_rounds cfg p rs job2 s2)"
    using pub new by (simp add: job1_def [symmetric] s1_def [symmetric] env_def [symmetric] s2_def [symmetric])
  then show ?thesis using that [OF job1_def pay _ run(1)] run(3-5) by (simp add: s1_def)
qed

text \<open>Refused rounds: the same job comes back, one count higher, with no account touched.\<close>

lemma refused_round:
  assumes "retry_config_ok cfg" "round_ok r" "PaymentJob_tags job" "pj_RetryCount job < wc_MaxRetryCount cfg"
    and "refused_call p (rd_pay r) a job" "pe_uuid_string (rd_pay r) = us" "FindByID us None (pj_AccountID job) (ms_tables s) = Inr acc"
    and "holds_cents (pp_EncryptionKey p) (pj_Amount job) a" "holds_cents (pp_EncryptionKey p) (ac_Balance acc) b" "a \<le> b"
  obtains nxt job1 s2 m where "job1 = job\<lparr>pj_RetryCount := pj_RetryCount job + 1, pj_NextRetryTime := nxt\<rparr>"
    "retry_rounds cfg p (r # rs) job s = retry_rounds cfg p rs job1 s2"
    "ms_tables s2 = set_status (pe_now (rd_pay r)) (pj_IdempotencyKey job) OrderStatusRetrying m (ms_tables s)"
    "publishes (ms_trace s2) = publishes (ms_trace s) @ [job1]"
    "length (filter is_run_event (ms_trace s2)) = length (filter is_run_event (ms_trace s)) + 1"
    "length (filter is_dlq (ms_trace s2)) = length (filter is_dlq (ms_trace s)) + 1"
proof -
  obtain nxt job1 s2 err t evs where job1: "job1 = job\<lparr>pj_RetryCount := pj_RetryCount job + 1, pj_NextRetryTime := nxt\<rparr>"
    and pay: "ProcessPayment p ((rd_pay r)\<lparr>pe_reader := ms_tables s\<rparr>) job1 (ms_tables s) = (err, t, evs)"
    and rounds: "retry_rounds cfg p (r # rs) job s = (case concat (map send_of evs) of [] \<Rightarrow> s2 | job2 # _ \<Rightarrow> retry_rounds cfg p rs job2 s2)"
    and s2: "ms_tables s2 = t" "publishes (ms_trace s2) = publishes (ms_trace s) @ [job1]"
      "length (filter is_run_event (ms_trace s2)) = length (filter is_run_event (ms_trace s)) + 1"
      "length (filter is_dlq (ms_trace s2)) = length (filter is_dlq (ms_trace s)) + (if err = None then 0 else 1)"
    by (rule retry_round [OF assms(1-4), where p = p and s = s and rs = rs])
  let ?env = "(rd_pay r)\<lparr>pe_reader := ms_tables s\<rparr>"
  have "Analyze (pp_FraudDetector p) (pe_fraud (rd_pay r)) (dollars a) job1 = Analyze (pp_FraudDetector p) (pe_fraud (rd_pay r)) (dollars a) job"
    by (rule Analyze_account) (simp add: job1)
  then have ref: "refused_call p ?env a job1" using assms(5) by (simp add: refused_call_def)
  obtain e m tr where "ProcessPayment p ?env job1 (ms_tables s) =
      (Some e, set_status (pe_now ?env) (pj_IdempotencyKey job1) OrderStatusRetrying m (ms_tables s), tr)" "filter is_send tr = [RetrySend job1]"
    by (rule refused_payment [OF ref, of "ms_tables s" acc b]) (use assms(6-10) in \<open>auto simp: job1\<close>)
  then have "err = Some e" "t = set_status (pe_now (rd_pay r)) (pj_IdempotencyKey job) OrderStatusRetrying m (ms_tables s)"
    "concat (map send_of evs) = [job1]"
    using pay sends_filter [of evs] by (simp_all add: job1)
  then show ?thesis using that [OF job1] rounds s2 by simp
qed

text \<open>What any number of refused rounds leaves: the same accounts and orders, and a count for each round.\<close>

definition refused_state :: "nat \<Rightarrow> PaymentJob \<Rightarrow> MsgState \<Rightarrow> PaymentJob \<Rightarrow> MsgState \<Rightarrow> bool" where
  "refused_state n job s job' s' \<longleftrightarrow> (\<exists>nxt. job' = job\<lparr>pj_RetryCount := pj_RetryCount job + int n, pj_NextRetryTime := nxt\<rparr>) \<and>
     t_accounts (ms_tables s') = t_accounts (ms_tables s) \<and>
     length (publishes (ms_trace s')) = length (publishes (ms_trace s)) + n \<and>
     length (filter is_run_event (ms_trace s')) = length (filter is_run_event (ms_trace s)) + n \<and>
     length (filter is_dlq (ms_trace s')) = length (filter is_dlq (ms_trace s)) + n"

lemma refused_rounds:
  assumes "retry_config_ok cfg" "\<forall>r \<in> set rs. round_ok r \<and> pe_uuid_string (rd_pay r) = us \<and> refused_call p (rd_pay r) a job"
    and "PaymentJob_tags job" "pj_RetryCount job + int (length rs) \<le> wc_MaxRetryCount cfg"
    and "FindByID us None (pj_AccountID job) (ms_tables s) = Inr acc"
    and "holds_cents (pp_EncryptionKey p) (pj_Amount job) a" "holds_cents (pp_EncryptionKey p) (ac_Balance acc) b" "a \<le> b"
  shows "\<exists>job' s'. retry_rounds cfg p (rs @ rest) job s = retry_rounds cfg p rest job' s' \<and> refused_state (length rs) job s job' s'"
  using assms(2-6)
proof (induction rs arbitrary: job s)
  case Nil
  have "refused_state 0 job s job s" by (simp add: refused_state_def) (rule exI [of _ "pj_NextRetryTime job"], simp)
  then show ?case by auto
next
  case (Cons r rs)
  have r: "round_ok r" "refused_call p (rd_pay r) a job" "pe_uuid_string (rd_pay r) = us" "pj_RetryCount job < wc_MaxRetryCount cfg"
    using Cons.prems(1,3) by simp_all
  obtain nxt job1 s2 m where job1: "job1 = job\<lparr>pj_RetryCount := pj_RetryCount job + 1, pj_NextRetryTime := nxt\<rparr>"
    and rounds: "retry_rounds cfg p (r # rs @ rest) job s = retry_rounds cfg p (rs @ rest) job1 s2"
    and s2: "ms_tables s2 = set_status (pe_now (rd_pay r)) (pj_IdempotencyKey job) OrderStatusRetrying m (ms_tables s)"
      "publishes (ms_trace s2) = publishes (ms_trace s) @ [job1]"
      "length (filter is_run_event (ms_trace s2)) = length (filter is_run_event (ms_trace s)) + 1"
      "length (filter is_dlq (ms_trace s2)) = length (filter is_dlq (ms_trace s)) + 1"
    by (rule refused_round [OF assms(1) r(1) Cons.prems(2) r(4,2,3) Cons.prems(4,5) assms(7,8)])
  have "Analyze f fe x job1 = Analyze f fe x job" for f fe x by (rule Analyze_account) (simp add: job1)
  then have "\<forall>r \<in> set rs. round_ok r \<and> pe_uuid_string (rd_pay r) = us \<and> refused_call p (rd_pay r) a job1"
    using Cons.prems(1) by (simp add: refused_call_def)
  moreover have "PaymentJob_tags job1" using Cons.prems(2) by (simp add: PaymentJob_tags_def job1)
  moreover have "FindByID us None (pj_AccountID job1) (ms_tables s2) = Inr acc"
    using Cons.prems(4) FindByID_cong [of "ms_tables s2" "ms_tables s" us None] by (simp add: job1 s2(1))
  moreover have "pj_RetryCount job1 + int (length rs) \<le> wc_MaxRetryCount cfg" "holds_cents (pp_EncryptionKey p) (pj_Amount job1) a"
    using Cons.prems(3,5) by (simp_all add: job1)
  ultimately obtain job' s' where "retry_rounds cfg p (rs @ rest) job1 s2 = retry_rounds cfg p rest job' s'" "refused_state (length rs) job1 s2 job' s'"
    using Cons.IH by blast
  moreover from this(2) have "refused_state (length (r # rs)) job s job' s'"
    unfolding refused_state_def using s2 by (auto simp: job1 add.assoc)
  ultimately show ?case using rounds by auto
qed


subsection \<open>The whole course\<close>

lemma processMessage_publishes: "publishes (ms_trace (processMessage cfg process env msg s)) = publishes (ms_trace s)"
proof -
  have "publishes (ms_trace (ack_message env msg x)) = publishes (ms_trace x)" for x
    by (simp add: ack_message_def split: prod.split option.split)
  moreover have "publishes (ms_trace (sendToDLQ q env job r e x)) = publishes (ms_trace x)" for q job r e x
    by (simp add: sendToDLQ_def Let_def split: option.split)
  ultimately show ?thesis by (simp add: processMessage_def Let_def split: prod.split option.split)
qed

lemma refused_first:
  assumes "\<not> me_ctx_done env" "dlq_available env" "me_unmarshal env (msg_Value msg) = (job, None)" "me_validate env job = None"
    and "refused_call p penv a job" "pe_uuid_string penv = us" "FindByID us None (pj_AccountID job) (ms_tables s) = Inr acc"
    and "holds_cents (pp_EncryptionKey p) (pj_Amount job) a" "holds_cents (pp_EncryptionKey p) (ac_Balance acc) b" "a \<le> b"
  obtains s1 where "job_course cfg p env msg penv rs s = retry_rounds cfg p rs job s1"
    "t_accounts (ms_tables s1) = t_accounts (ms_tables s)" "publishes (ms_trace s1) = publishes (ms_trace s)"
    "length (filter is_run_event (ms_trace s1)) = length (filter is_run_event (ms_trace s)) + 1"
    "length (filter is_dlq (ms_trace s1)) = length (filter is_dlq (ms_trace s)) + 1"
proof -
  let ?env = "penv\<lparr>pe_reader := ms_tables s\<rparr>" let ?s1 = "processMessage cfg (ProcessPayment p ?env) env msg s"
  have ref: "refused_call p ?env a job" using assms(5) by (simp add: refused_call_def)
  obtain err m tr where pay: "ProcessPayment p ?env job (ms_tables s) =
      (Some err, set_status (pe_now ?env) (pj_IdempotencyKey job) OrderStatusRetrying m (ms_tables s), tr)" "filter is_send tr = [RetrySend job]"
    by (rule refused_payment [OF ref, of "ms_tables s" acc b]) (use assms(6-10) in auto)
  note val = pay.valid_message [OF assms(1-4) pay(1) refl, where cfg = cfg]
  have "sends (ms_trace ?s1) = sends (ms_trace s) @ [job]"
    unfolding sends_runs [of "ms_trace ?s1"] sends_runs [of "ms_trace s"] val(2) using pay(2) sends_filter [of tr] by simp
  then have "job_course cfg p env msg penv rs s = retry_rounds cfg p rs job ?s1"
    by (simp add: job_course_def pay_now_def newly_def Let_def)
  moreover have "length (filter is_dlq (ms_trace ?s1)) = length (filter is_dlq (ms_trace s)) + 1" using val(3) by auto
  ultimately show ?thesis using that val(1,2) processMessage_publishes by simp
qed


text \<open>
  Property C17. And it does not go on for ever: a job that is refused at the first attempt and at each
  of its \<open>MaxRetryCount\<close> retries is given up. No account has changed, the order ends failed, the job was
  published \<open>MaxRetryCount\<close> times and tried once more than that, and nothing after it happens, however
  many rounds could follow.
\<close>

theorem refused_for_good_is_given_up:
  assumes "\<not> me_ctx_done env" "dlq_available env" "me_unmarshal env (msg_Value msg) = (job, None)" "me_validate env job = None"
    and "refused_call p penv a job" "pe_uuid_string penv = us" "PaymentJob_tags job" "pj_RetryCount job = 0"
    and "retry_config_ok cfg" "\<forall>r \<in> set rs. round_ok r \<and> pe_uuid_string (rd_pay r) = us \<and> refused_call p (rd_pay r) a job"
    and "round_ok r" "int (length rs) = wc_MaxRetryCount cfg"
    and "FindByID us None (pj_AccountID job) (ms_tables s) = Inr acc" "holds_cents (pp_EncryptionKey p) (pj_Amount job) a"
    and "holds_cents (pp_EncryptionKey p) (ac_Balance acc) b" "a \<le> b"
    and "s' = job_course cfg p env msg penv (rs @ r # rest) s"
  shows "t_accounts (ms_tables s') = t_accounts (ms_tables s) \<and>
    list_all (\<lambda>o'. or_IdempotencyKey o' \<noteq> pj_IdempotencyKey job \<or> or_Status o' = OrderStatusFailed) (t_orders (ms_tables s')) \<and>
    length (publishes (ms_trace s')) = length (publishes (ms_trace s)) + length rs \<and>
    length (filter is_run_event (ms_trace s')) = length (filter is_run_event (ms_trace s)) + length rs + 1 \<and>
    length (filter is_dlq (ms_trace s')) = length (filter is_dlq (ms_trace s)) + length rs + 2"
proof -
  obtain s1 where s1: "job_course cfg p env msg penv (rs @ r # rest) s = retry_rounds cfg p (rs @ r # rest) job s1"
    "t_accounts (ms_tables s1) = t_accounts (ms_tables s)" "publishes (ms_trace s1) = publishes (ms_trace s)"
    "length (filter is_run_event (ms_trace s1)) = length (filter is_run_event (ms_trace s)) + 1"
    "length (filter is_dlq (ms_trace s1)) = length (filter is_dlq (ms_trace s)) + 1"
    by (rule refused_first [OF assms(1-6,13-16)])
  have find: "FindByID us None (pj_AccountID job) (ms_tables s1) = Inr acc" using assms(13) FindByID_cong [OF s1(2)] by simp
  have cnt: "pj_RetryCount job + int (length rs) \<le> wc_MaxRetryCount cfg" using assms(8,12) by simp
  obtain job1 s2 where s2: "retry_rounds cfg p (rs @ r # rest) job s1 = retry_rounds cfg p (r # rest) job1 s2" "refused_state (length rs) job s1 job1 s2"
    using refused_rounds [OF assms(9,10,7) cnt find assms(14-16)] by blast
  then obtain nxt where job1: "job1 = job\<lparr>pj_RetryCount := pj_RetryCount job + int (length rs), pj_NextRetryTime := nxt\<rparr>"
    unfolding refused_state_def by blast
  have c: "wc_MaxRetryCount cfg \<le> pj_RetryCount job1" "0 \<le> pj_RetryCount job1" "pj_RetryCount job1 < 2 ^ 31"
    using assms(8,9,12) by (simp_all add: job1 retry_config_ok_def WorkerConfig_tags_def)
  have e: "re_status_fault (rd_channel r) = None" "dlq_available (re_msg (rd_channel r))" using assms(11) by (simp_all add: round_ok_def)
  obtain s3 d m where s3: "retry_channel_job cfg (rd_channel r) job1 s2 = Some s3"
    "ms_tables s3 = set_status (me_now (re_msg (rd_channel r))) (pj_IdempotencyKey job1) OrderStatusFailed m (ms_tables s2)"
    "filter is_dlq (ms_trace s3) = filter is_dlq (ms_trace s2) @ [d]" "filter is_retry_msg (ms_trace s3) = filter is_retry_msg (ms_trace s2)"
    using exhausted_retry_parked [OF c e, of s2] by blast
  have runs: "filter is_run_event (ms_trace s3) = filter is_run_event (ms_trace s2)"
    using s3(1) check_exceeded(4) [of cfg "job1\<lparr>pj_RetryCount := pj_RetryCount job1 + 1\<rparr>" "rd_channel r" None s2] c
    by (auto simp: retry_channel_job_def checkIfMaxRetryLimitExceeded_def wrap64_id int64_ok_def Let_def split: prod.splits)
  have pub: "publishes (ms_trace s3) = publishes (ms_trace s2)"
    unfolding publishes_msgs [of "ms_trace s3"] publishes_msgs [of "ms_trace s2"] s3(4) ..
  have "s' = s3" using assms(17) s1(1) s2(1) s3(1) pub by (simp add: newly_def)
  moreover have "or_Status o' = OrderStatusFailed" if "o' \<in> set (t_orders (ms_tables s3))" "or_IdempotencyKey o' = pj_IdempotencyKey job" for o'
    using set_status_row [OF that(1) [unfolded s3(2)]] that(2) by (simp add: job1)
  ultimately show ?thesis
    using s1(2-5) s2(2) s3(2,3) runs pub by (auto simp: refused_state_def list_all_iff)
qed

subsection \<open>Examples\<close>

text \<open>The order's message finds the account locked; the first retry pays, or the budget of three is used up.\<close>

definition locked_example :: PayEnv where
  "locked_example = (env_example (tables_example 10000))\<lparr>pe_setnx := Inr False\<rparr>"

definition round_example :: "PayEnv \<Rightarrow> Round" where
  "round_example env = \<lparr>rd_channel = retry_env_example, rd_consumer = retry_env_example, rd_message = message_example, rd_pay = env\<rparr>"

definition tagged_job_example :: PaymentJob where
  "tagged_job_example = (job_example 2500)\<lparr>pj_ID := 5, pj_UserID := 8, pj_CreatedAt := 1, pj_UpdatedAt := 1\<rparr>"

definition tagged_env_example :: MsgEnv where
  "tagged_env_example = msg_env_example\<lparr>me_unmarshal := (\<lambda>v. (tagged_job_example, None))\<rparr>"

lemma round_example_facts:
  "round_ok (round_example env)" "retry_config_ok worker_config_example" "refused_call p locked_example a job"
  "pe_uuid_string locked_example = (\<lambda>u. ''uuid'')" "\<not> me_ctx_done tagged_env_example" "dlq_available tagged_env_example"
  "me_unmarshal tagged_env_example (msg_Value m) = (tagged_job_example, None)" "me_validate tagged_env_example j = None"
  "pj_RetryCount tagged_job_example = 0" "wc_MaxRetryCount worker_config_example = 3" "rd_pay (round_example env) = env"
  "pj_AccountID tagged_job_example = 7" "pj_IdempotencyKey tagged_job_example = 9" "pj_Amount tagged_job_example = enc_example 2500"
  using msg_env_example_ok worker_config_example_tags(1)
  by (simp_all add: round_ok_def round_example_def retry_env_example_def example_backoff msg_env_example_def dlq_available_def
      retry_config_ok_def worker_config_example_def refused_call_def locked_example_def env_example_def tagged_env_example_def
      tagged_job_example_def job_example_def PaymentJob_zero_def)

lemma tagged_example:
  "PaymentJob_tags tagged_job_example" "clean_call processor_example (\<lambda>u. ''uuid'') 7 (\<lambda>j. 2500) (env_example t) tagged_job_example"
proof -
  show "PaymentJob_tags tagged_job_example"
    using enc_example_nonempty [of 2500] by (simp add: PaymentJob_tags_def round_example_facts) (simp add: tagged_job_example_def time_zero_def)
  have "Analyze f fe x tagged_job_example = Analyze f fe x (job_example 2500)" for f fe x
    by (rule Analyze_account) (simp add: round_example_facts example_facts)
  then show "clean_call processor_example (\<lambda>u. ''uuid'') 7 (\<lambda>j. 2500) (env_example t) tagged_job_example"
    using clean_call_example [of t] by (simp add: clean_call_def round_example_facts example_facts)
qed


definition vain_course :: MsgState where
  "vain_course = job_course worker_config_example processor_example tagged_env_example message_example locked_example
     (replicate 3 (round_example locked_example) @ round_example locked_example # []) msg_state_example"

lemma find_tagged: "FindByID (\<lambda>u. ''uuid'') None (pj_AccountID tagged_job_example) (ms_tables msg_state_example) = Inr (account_example 10000)"
  by (simp add: round_example_facts msg_state_example_def example_facts)


theorem refused_for_good_is_given_up_witness:
  "t_accounts (ms_tables vain_course) = t_accounts (tables_example 10000) \<and> length (publishes (ms_trace vain_course)) = 3 \<and>
   length (filter is_run_event (ms_trace vain_course)) = 4"
proof -
  have rs: "\<forall>r \<in> set (replicate 3 (round_example locked_example)). round_ok r \<and> pe_uuid_string (rd_pay r) = (\<lambda>u. ''uuid'') \<and>
      refused_call processor_example (rd_pay r) 2500 tagged_job_example" by (simp add: round_example_facts)
  have n: "int (length (replicate 3 (round_example locked_example))) = wc_MaxRetryCount worker_config_example"
    "holds_cents (pp_EncryptionKey processor_example) (pj_Amount tagged_job_example) 2500"
    using example_premises(2) by (simp_all add: round_example_facts example_facts)
  show ?thesis
    using refused_for_good_is_given_up [OF round_example_facts(5-8,3,4) tagged_example(1) round_example_facts(9,2) rs
      round_example_facts(1) n(1) find_tagged n(2) example_premises(3,4) vain_course_def]
    by (simp add: msg_state_example_def)
qed

end
