(* ===== verification/Window_Counters.thy ===== *)
theory Window_Counters
  imports Fraud Ratelimit
begin

text \<open>
  The two counters the program keeps in Redis with \<open>INCR\<close> and \<open>EXPIRE\<close> in one pipeline: the velocity of an
  account (\<open>computeVelocity\<close> of \<open>fraud_detection_service.go\<close>) and the global count of the distributed limiter
  (\<open>pkg/ratelimit.go\<close>). Redis is an argument: \<open>incr now key ttl r\<close> is its answer to the pipeline at a time, and
  its state afterwards; \<open>redis_counter\<close> is what its documentation says about the two commands, where
  \<open>val now key r\<close> is the number under a key that has not expired, and 0 otherwise. What the counters count
  is a function of the times of the calls, \<open>since_pause\<close>.
\<close>

subsection \<open>INCR and EXPIRE\<close>

definition redis_counter ::
  "(time \<Rightarrow> string \<Rightarrow> duration \<Rightarrow> 'r \<Rightarrow> int \<times> 'r) \<Rightarrow> (time \<Rightarrow> string \<Rightarrow> 'r \<Rightarrow> int) \<Rightarrow> bool" where
  "redis_counter incr val \<longleftrightarrow>
     (\<forall>now key ttl r. fst (incr now key ttl r) = val now key r + 1) \<and>
     (\<forall>now later key ttl r. now \<le> later \<longrightarrow>
        val later key (snd (incr now key ttl r)) = (if later < now + ttl then val now key r + 1 else 0)) \<and>
     (\<forall>now later key key' ttl r. key' \<noteq> key \<longrightarrow> val later key' (snd (incr now key ttl r)) = val later key' r)"

text \<open>
  The calls since the last pause of \<open>w\<close> or more, from the times of the calls, latest first. The calls in
  the window of length \<open>w\<close> that ends with the latest.
\<close>

fun since_pause :: "duration \<Rightarrow> time list \<Rightarrow> nat" where
  "since_pause w [] = 0"
| "since_pause w [t] = 1"
| "since_pause w (t # t' # ts) = (if t < t' + w then Suc (since_pause w (t' # ts)) else 1)"

definition in_window :: "duration \<Rightarrow> time list \<Rightarrow> nat" where
  "in_window w ts = (case ts of [] \<Rightarrow> 0 | now # _ \<Rightarrow> length (filter (\<lambda>t. now < t + w) ts))"

text \<open>Nothing the window holds is left out; what is older may be counted as well.\<close>

lemma window_le_pause:
  "sorted_wrt (\<ge>) ts \<Longrightarrow> \<forall>t \<in> set ts. t \<le> now \<Longrightarrow> length (filter (\<lambda>t. now < t + w) ts) \<le> since_pause w ts"
proof (induction w ts rule: since_pause.induct)
  case (3 w t t' ts)
  show ?case
  proof (cases "t < t' + w")
    case False
    have "\<not> now < x + w" if "x \<in> set (t' # ts)" for x using that "3.prems" False by fastforce
    then have "filter (\<lambda>t. now < t + w) (t' # ts) = []" by (simp add: filter_empty_conv)
    then show ?thesis using False by simp
  qed (use 3 in auto)
qed simp_all

lemma in_window_le: "sorted_wrt (\<ge>) ts \<Longrightarrow> in_window w ts \<le> since_pause w ts"
  using window_le_pause [of ts "hd ts" w] by (cases ts) (auto simp: in_window_def)

text \<open>Without a pause every call is counted.\<close>

lemma since_pause_steady:
  "(\<forall>i. Suc i < length ts \<longrightarrow> ts ! i < ts ! Suc i + w) \<Longrightarrow> since_pause w ts = length ts"
proof (induction w ts rule: since_pause.induct)
  case (3 w t t' ts)
  have "t < t' + w" using "3.prems" [rule_format, of 0] by simp
  moreover have "\<forall>i. Suc i < length (t' # ts) \<longrightarrow> (t' # ts) ! i < (t' # ts) ! Suc i + w" using "3.prems" by fastforce
  ultimately show ?case using "3.IH" by simp
qed simp_all

subsection \<open>A counter over a sequence of calls\<close>

text \<open>The answers to calls at given times under given keys, with one expiry.\<close>

fun counted :: "(time \<Rightarrow> string \<Rightarrow> duration \<Rightarrow> 'r \<Rightarrow> int \<times> 'r) \<Rightarrow> duration \<Rightarrow> (time \<times> string) list \<Rightarrow> 'r \<Rightarrow> int list" where
  "counted incr w [] r = []"
| "counted incr w ((now, key) # cs) r = (let (n, r1) = incr now key w r in n # counted incr w cs r1)"

lemma length_counted [simp]: "length (counted incr w cs r) = length cs"
  by (induction incr w cs r rule: counted.induct) (simp_all split: prod.split)

text \<open>The times of the calls under a key, latest first.\<close>

definition times_of :: "'k \<Rightarrow> (time \<times> 'k) list \<Rightarrow> time list" where
  "times_of key cs = rev (map fst (filter (\<lambda>c. snd c = key) cs))"

lemma times_of_simps [simp]:
  "times_of key [] = []" "times_of key (cs @ [(now, k)]) = (if k = key then now # times_of key cs else times_of key cs)"
  by (simp_all add: times_of_def)

definition live_count :: "duration \<Rightarrow> time list \<Rightarrow> time \<Rightarrow> int" where
  "live_count w ts now = (case ts of [] \<Rightarrow> 0 | t # _ \<Rightarrow> if now < t + w then int (since_pause w ts) else 0)"

lemma live_count_next: "live_count w ts now + 1 = int (since_pause w (now # ts))"
  by (cases ts) (simp_all add: live_count_def)

text \<open>What the history \<open>h\<close> of the calls has left in Redis.\<close>

definition counter_inv :: "(time \<Rightarrow> string \<Rightarrow> 'r \<Rightarrow> int) \<Rightarrow> duration \<Rightarrow> (time \<times> string) list \<Rightarrow> 'r \<Rightarrow> bool" where
  "counter_inv val w h r \<longleftrightarrow> (\<forall>key now. (\<forall>c \<in> set h. fst c \<le> now) \<longrightarrow> val now key r = live_count w (times_of key h) now)"

lemma counter_inv_step:
  assumes "redis_counter incr val" "counter_inv val w h r" "\<forall>c \<in> set h. fst c \<le> now"
  shows "fst (incr now key w r) = int (since_pause w (now # times_of key h))"
    and "counter_inv val w (h @ [(now, key)]) (snd (incr now key w r))"
proof -
  have v: "val now k r = live_count w (times_of k h) now" for k using assms(2,3) by (simp add: counter_inv_def)
  show first: "fst (incr now key w r) = int (since_pause w (now # times_of key h))"
    using assms(1) v live_count_next by (simp add: redis_counter_def)
  show "counter_inv val w (h @ [(now, key)]) (snd (incr now key w r))"
    unfolding counter_inv_def
  proof (intro allI impI)
    fix k later assume later: "\<forall>c \<in> set (h @ [(now, key)]). fst c \<le> later"
    show "val later k (snd (incr now key w r)) = live_count w (times_of k (h @ [(now, key)])) later"
    proof (cases "k = key")
      case True
      have "val later key (snd (incr now key w r)) = (if later < now + w then val now key r + 1 else 0)"
        using assms(1) later by (simp add: redis_counter_def)
      then show ?thesis using v [of key] live_count_next [of w "times_of key h" now] by (simp add: True live_count_def)
    next
      case False
      then have "val later k (snd (incr now key w r)) = val later k r" using assms(1) by (simp add: redis_counter_def)
      then show ?thesis using assms(2) later False by (simp add: counter_inv_def)
    qed
  qed
qed

lemma counted_since_pause:
  assumes "redis_counter incr val" "counter_inv val w h r" "\<forall>c \<in> set h. \<forall>c' \<in> set cs. fst c \<le> fst c'" "sorted (map fst cs)" "j < length cs"
  shows "counted incr w cs r ! j = int (since_pause w (times_of (snd (cs ! j)) (h @ take (Suc j) cs)))"
  using assms(2-5)
proof (induction cs arbitrary: h r j)
  case (Cons c cs)
  obtain now key where c: "c = (now, key)" by fastforce
  have "\<forall>c \<in> set h. fst c \<le> now" using Cons.prems(2) c by simp
  note step = counter_inv_step [OF assms(1) Cons.prems(1) this, of key]
  have h: "\<forall>c \<in> set (h @ [(now, key)]). \<forall>c' \<in> set cs. fst c \<le> fst c'" using Cons.prems(2,3) c by auto
  show ?case
  proof (cases j)
    case 0
    then show ?thesis using step(1) by (simp add: c split: prod.split) (metis fst_conv)
  next
    case (Suc i)
    have "counted incr w cs (snd (incr now key w r)) ! i =
        int (since_pause w (times_of (snd (cs ! i)) ((h @ [(now, key)]) @ take (Suc i) cs)))"
      by (rule Cons.IH [OF step(2) h]) (use Cons.prems(3,4) c Suc in auto)
    then show ?thesis by (simp add: c Suc split: prod.split) (metis snd_conv)
  qed
qed simp

subsection \<open>The velocity of an account\<close>

text \<open>One call of \<open>computeVelocity\<close> at a time, with Redis answering the pipeline it sends.\<close>

definition velocity_at ::
  "(time \<Rightarrow> string \<Rightarrow> duration \<Rightarrow> 'r \<Rightarrow> int \<times> 'r) \<Rightarrow> FraudEnv \<Rightarrow> time \<Rightarrow> uuid \<Rightarrow> 'r \<Rightarrow> int result \<times> 'r" where
  "velocity_at incr env now accountId r =
     (case snd (computeVelocity env accountId) of
        RedisIncrExpire key ttl # _ \<Rightarrow>
          (let (n, r1) = incr now key ttl r in (fst (computeVelocity (env\<lparr>en_incr := Inr n\<rparr>) accountId), r1))
      | _ \<Rightarrow> (fst (computeVelocity env accountId), r))"

fun velocities ::
  "(time \<Rightarrow> string \<Rightarrow> duration \<Rightarrow> 'r \<Rightarrow> int \<times> 'r) \<Rightarrow> FraudEnv \<Rightarrow> (time \<times> uuid) list \<Rightarrow> 'r \<Rightarrow> int result list" where
  "velocities incr env [] r = []"
| "velocities incr env ((now, accountId) # cs) r =
     (let (v, r1) = velocity_at incr env now accountId r in v # velocities incr env cs r1)"

definition velocity_key :: "FraudEnv \<Rightarrow> uuid \<Rightarrow> string" where
  "velocity_key env accountId = ''fraud:velocity:'' @ en_uuid_string env accountId"

lemma velocities_counted:
  "velocities incr env cs r = map Inr (counted incr VelocityWindow (map (map_prod id (velocity_key env)) cs) r)"
proof (induction cs arbitrary: r)
  case (Cons c cs)
  then show ?case by (cases c) (simp add: velocity_at_def computeVelocity_def velocity_key_def Let_def split: prod.split)
qed simp

lemma times_of_velocity:
  "inj (en_uuid_string env) \<Longrightarrow> times_of (velocity_key env a) (map (map_prod id (velocity_key env)) cs) = times_of a cs"
  by (induction cs rule: rev_induct) (auto simp: velocity_key_def map_prod_def dest: injD split: prod.split)

text \<open>
  Property C32. What the velocity of an account counts: over any sequence of analyses of any accounts, the
  velocity handed to the model is the number of analyses of this account since its last pause of an hour
  or more, retries included. It is never below the number of analyses within the last hour, which
  the comment of \<open>computeVelocity\<close> calls it; the two differ when calls go on for more than an hour. Redis
  behaves as documented, and no counter is left from before.
\<close>

theorem velocity_counts_since_pause:
  assumes "redis_counter incr val" "\<forall>now key. val now key r = 0" "inj (en_uuid_string env)"
    and "sorted (map fst cs)" "j < length cs"
  shows "velocities incr env cs r ! j = Inr (int (since_pause VelocityWindow (times_of (snd (cs ! j)) (take (Suc j) cs)))) \<and>
    in_window VelocityWindow (times_of (snd (cs ! j)) (take (Suc j) cs)) \<le> since_pause VelocityWindow (times_of (snd (cs ! j)) (take (Suc j) cs))"
proof
  let ?cs = "map (map_prod id (velocity_key env)) cs"
  have inv: "counter_inv val VelocityWindow [] r" using assms(2) by (simp add: counter_inv_def live_count_def)
  have srt: "sorted (map fst ?cs)" using assms(4) by (simp add: comp_def)
  have "counted incr VelocityWindow ?cs r ! j = int (since_pause VelocityWindow (times_of (snd (?cs ! j)) ([] @ take (Suc j) ?cs)))"
    by (rule counted_since_pause [OF assms(1) inv _ srt]) (use assms(5) in auto)
  then show "velocities incr env cs r ! j = Inr (int (since_pause VelocityWindow (times_of (snd (cs ! j)) (take (Suc j) cs))))"
    using assms(5) by (simp add: velocities_counted take_map times_of_velocity [OF assms(3)])
  have "sorted (map fst (take (Suc j) cs))" using sorted_wrt_take [OF assms(4), of "Suc j"] by (simp add: take_map)
  then have "sorted_wrt (\<ge>) (times_of (snd (cs ! j)) (take (Suc j) cs))"
    by (simp add: times_of_def sorted_wrt_rev sorted_wrt_map sorted_wrt_filter)
  then show "in_window VelocityWindow (times_of (snd (cs ! j)) (take (Suc j) cs)) \<le>
      since_pause VelocityWindow (times_of (snd (cs ! j)) (take (Suc j) cs))" by (rule in_window_le)
qed

subsection \<open>The distributed limiter\<close>

text \<open>Calls of \<open>Allow\<close> at given times by all replicas, each with or without a local token.\<close>

fun limiter_run ::
  "(time \<Rightarrow> string \<Rightarrow> duration \<Rightarrow> 'r \<Rightarrow> int \<times> 'r) \<Rightarrow> DistributedLimiter \<Rightarrow> (time \<times> bool) list \<Rightarrow> 'r \<Rightarrow> bool list" where
  "limiter_run incr d [] r = []"
| "limiter_run incr d ((now, token) # cs) r =
     (case snd (Allow token (Inr 0) d) of
        [] \<Rightarrow> fst (Allow token (Inr 0) d) # limiter_run incr d cs r
      | (key, ttl) # _ \<Rightarrow> (let (n, r1) = incr now key ttl r in fst (Allow token (Inr n) d) # limiter_run incr d cs r1))"

lemma limiter_run_counted:
  assumes "dl_localLimiter d = Some l" "\<forall>c \<in> set cs. snd c"
  shows "limiter_run incr d cs r = map (\<lambda>n. n \<le> ll_Burst l) (counted incr (dl_ttl d) (map (\<lambda>c. (fst c, dl_key d)) cs) r)"
  using assms(2)
proof (induction cs arbitrary: r)
  case (Cons c cs)
  then show ?case by (cases c) (simp add: Allow_def assms(1) not_less split: prod.split)
qed simp

text \<open>
  Under steady load, with every call less than the expiry after the one before, the limiter admits the
  first \<open>burst\<close> calls and none after them, for as long as the load lasts.
\<close>

lemma limiter_starves:
  assumes "redis_counter incr val" "\<forall>now key. val now key r = 0" "0 < rate" "\<forall>c \<in> set cs. snd c" "sorted (map fst cs)"
    and "\<forall>i. Suc i < length cs \<longrightarrow> fst (cs ! Suc i) < fst (cs ! i) + ttl" "j < length cs"
  shows "limiter_run incr (NewDistributedLimiter key rate burst ttl) cs r ! j \<longleftrightarrow> int j < burst"
proof -
  let ?d = "NewDistributedLimiter key rate burst ttl" let ?cs = "map (\<lambda>c. (fst c, key)) cs"
  have d: "dl_localLimiter ?d = Some \<lparr>ll_Limit = rate, ll_Burst = burst\<rparr>" "dl_key ?d = key" "dl_ttl ?d = ttl"
    using assms(3) by (simp_all add: NewDistributedLimiter_def)
  have inv: "counter_inv val ttl [] r" using assms(2) by (simp add: counter_inv_def live_count_def)
  have srt: "sorted (map fst ?cs)" using assms(5) by (simp add: comp_def)
  have cnt: "counted incr ttl ?cs r ! j = int (since_pause ttl (times_of key (take (Suc j) ?cs)))"
    using counted_since_pause [OF assms(1) inv _ srt, of j] assms(7) by simp
  have ts: "times_of key (take (Suc j) ?cs) = rev (map fst (take (Suc j) cs))"
    by (simp add: times_of_def take_map comp_def)
  have "since_pause ttl (rev (map fst (take (Suc j) cs))) = length (rev (map fst (take (Suc j) cs)))"
  proof (rule since_pause_steady, intro allI impI)
    fix i assume i: "Suc i < length (rev (map fst (take (Suc j) cs)))"
    then have "Suc i \<le> j" using assms(7) by simp
    then have "Suc (j - Suc i) = j - i" "Suc (j - Suc i) < length cs" using assms(7) by auto
    then show "rev (map fst (take (Suc j) cs)) ! i < rev (map fst (take (Suc j) cs)) ! Suc i + ttl"
      using assms(6) [rule_format, of "j - Suc i"] i assms(7) by (simp add: rev_nth)
  qed
  then show ?thesis using cnt ts assms(7) by (simp add: limiter_run_counted [OF d(1) assms(4)] d(2,3)) linarith
qed

subsection \<open>Examples\<close>

text \<open>A store of counters with their expiry times that behaves as documented.\<close>

definition store_val :: "time \<Rightarrow> string \<Rightarrow> (string \<Rightarrow> int \<times> time) \<Rightarrow> int" where
  "store_val now key r = (if now < snd (r key) then fst (r key) else 0)"

definition store_incr :: "time \<Rightarrow> string \<Rightarrow> duration \<Rightarrow> (string \<Rightarrow> int \<times> time) \<Rightarrow> int \<times> (string \<Rightarrow> int \<times> time)" where
  "store_incr now key ttl r = (store_val now key r + 1, r(key := (store_val now key r + 1, now + ttl)))"

lemma store_documented: "redis_counter store_incr store_val"
  by (auto simp: redis_counter_def store_incr_def store_val_def)

text \<open>Three analyses, 50 minutes apart: two within the last hour, and a velocity of three.\<close>

definition uuid_text :: "uuid \<Rightarrow> string" where
  "uuid_text u = replicate (unat u) CHR ''x''"

definition analyses_example :: "(time \<times> uuid) list" where
  "analyses_example = [(0, 7), (3000 * Second, 7), (6000 * Second, 7)]"

definition velocity_env_example :: FraudEnv where
  "velocity_env_example = \<lparr>en_ctx_done = False, en_incr = Inl RedisNil, en_cache_get = Inl RedisNil,
     en_reader = \<lparr>t_users = [], t_accounts = [], t_orders = [], t_ai = []\<rparr>, en_find_fault = None, en_reserve = None,
     en_wait_cancelled = None, en_new_request = None, en_do = (\<lambda>q. Inl RedisNil), en_decode = (\<lambda>b. Inl RedisNil),
     en_uuid_string = uuid_text, en_quote = id\<rparr>"

theorem velocity_counts_since_pause_witness:
  "velocities store_incr velocity_env_example analyses_example (\<lambda>k. (0, 0)) ! 2 = Inr 3 \<and>
   in_window VelocityWindow (times_of 7 (take 3 analyses_example)) = 2"
proof -
  have "inj (en_uuid_string velocity_env_example)" by (rule injI) (simp add: velocity_env_example_def uuid_text_def replicate_eq_replicate word_unat_eq_iff)
  from velocity_counts_since_pause [OF store_documented _ this, of "\<lambda>k. (0, 0)" analyses_example 2]
  show ?thesis
    by (simp add: store_val_def analyses_example_def times_of_def in_window_def VelocityWindow_def Hour_def Second_def numeral_2_eq_2 numeral_3_eq_3)
qed

end
