(* ===== verification/Average_Cache.thy ===== *)
theory Average_Cache
  imports Payment
begin

text \<open>
  The average order amount of an account in the database and in Redis. \<open>computeDeviation\<close>
  (\<open>fraud_detection_service.go\<close>) reads the cached text and falls back to the row, whose average it then caches;
  \<open>UpdateBalanceAvgCount\<close> (\<open>payment_service.go\<close>) writes both. The row holds two decimals (\<open>Float64ToByte\<close>), the cache
  six (\<open>%f\<close>), and the cache is written before the transaction is committed.
\<close>

subsection \<open>Texts of averages\<close>

text \<open>Both are finite, not negative, and less than \<open>d\<close> apart.\<close>

fun near :: "rat \<Rightarrow> float64 \<Rightarrow> float64 \<Rightarrow> bool" where
  "near d (Fin s x) (Fin s' y) \<longleftrightarrow> \<not> s \<and> \<not> s' \<and> \<bar>x - y\<bar> < d"
| "near d _ _ \<longleftrightarrow> False"

lemma f64_round_within:
  assumes "0 \<le> x" "x < 2 ^ 45"
  obtains m where "f64_round False x = Fin False m" "\<bar>m - x\<bar> \<le> 1 / 512"
proof -
  have "x < 2 powi 45" using assms(2) by simp
  then obtain m where m: "round_mag x = Some m" "\<bar>m - x\<bar> \<le> 2 powi (45 - 54)"
    by (rule round_mag_error [OF assms(1)]) auto
  have "(2 :: rat) powi (45 - 54) = 1 / 512" by (simp add: power_int_def power_divide)
  with m(2) have err: "\<bar>m - x\<bar> \<le> 1 / 512" by simp
  have "f64_round False x = Fin False m" using m(1) assms(1) by (cases "x = 0") (auto simp: f64_round_def round_mag_def)
  then show ?thesis using err by (rule that)
qed

text \<open>Printing with \<open>p\<close> decimals and reading back moves an average by half a unit of the last one and the rounding.\<close>

lemma text_near:
  assumes "0 \<le> m" "m \<le> 2 ^ 44" "0 < p"
  obtains y where "parse_float (fmt_f p (Fin False m)) = Inr (Fin False y)" "\<bar>y - m\<bar> \<le> 1 / (2 * 10 ^ p) + 1 / 512"
proof -
  define u n q where "u = (10 ^ p :: rat)" and "n = nat (round_even (m * 10 ^ p))" and "q = of_nat n / u"
  have u: "1 \<le> u" by (simp add: u_def)
  have n0: "of_nat n = (of_int (round_even (m * u)) :: rat)"
    using round_even_nonneg [of "m * u"] assms(1) by (simp add: n_def u_def)
  have "\<bar>q - m\<bar> = \<bar>of_nat n - m * u\<bar> / u" using u by (simp add: q_def abs_if field_simps)
  also have "\<dots> \<le> 1 / 2 / u" using round_even_error [of "m * u"] u unfolding n0 by (intro divide_right_mono) auto
  finally have d: "\<bar>q - m\<bar> \<le> 1 / (2 * u)" by simp
  also have "\<dots> \<le> 1" using u by (simp add: divide_le_eq)
  finally have "q < 2 ^ 45" using assms(2) by simp
  moreover have "0 \<le> q" using u by (simp add: q_def)
  ultimately obtain y where y: "f64_round False q = Fin False y" "\<bar>y - q\<bar> \<le> 1 / 512" using f64_round_within by blast
  have "parse_float (fmt_f p (Fin False m)) = Inr (Fin False y)"
    using parse_fmt_f [OF assms(3,1), of False] y(1) by (simp add: f64_val_def q_def n_def u_def)
  moreover have "\<bar>y - m\<bar> \<le> 1 / (2 * u) + 1 / 512" using d y(2) by linarith
  ultimately show ?thesis using that by (simp add: u_def)
qed

lemma texts_near:
  assumes "at_most 1 v"
  obtains x y where "ToFloat64 (fmt_f 6 v) = Inr x" "ToFloat64 (fmt_f 2 v) = Inr y" "near (1 / 100) x y"
proof -
  obtain m where m: "v = Fin False m" "0 \<le> m" "m \<le> 2 ^ 44" using at_most_cases [OF assms] by auto
  obtain x where x: "parse_float (fmt_f 6 (Fin False m)) = Inr (Fin False x)" "\<bar>x - m\<bar> \<le> 1 / (2 * 10 ^ 6) + 1 / 512"
    by (rule text_near [OF m(2,3), of 6]) auto
  obtain y where y: "parse_float (fmt_f 2 (Fin False m)) = Inr (Fin False y)" "\<bar>y - m\<bar> \<le> 1 / (2 * 10 ^ 2) + 1 / 512"
    by (rule text_near [OF m(2,3), of 2]) auto
  have "near (1 / 100) (Fin False x) (Fin False y)" using x(2) y(2) by (simp add: abs_if split: if_splits)
  then show ?thesis using that x(1) y(1) by (simp add: m(1) ToFloat64_def)
qed

text \<open>Whole cents below \<open>2 ^ 32\<close> dollars also survive six decimals.\<close>

lemma dollars_six_decimals:
  assumes "c < 2 ^ 32 * 100"
  shows "ToFloat64 (fmt_f 6 (dollars c)) = Inr (dollars c)"
proof -
  have lt: "of_nat c / 100 < (2 :: rat) powi 32"
  proof -
    have "of_nat c < (of_nat (2 ^ 32 * 100) :: rat)" using assms by (simp only: of_nat_less_iff)
    then show ?thesis by simp
  qed
  have nn: "0 \<le> of_nat c / (100 :: rat)" by simp
  obtain m where m: "round_mag (of_nat c / 100) = Some m" "\<bar>m - of_nat c / 100\<bar> \<le> 2 powi (32 - 54)" "0 \<le> m"
    by (rule round_mag_error [OF nn lt]) auto
  have d: "dollars c = Fin False m" using m(1) by (auto simp: dollars_def f64_round_def round_mag_def)
  have p: "(2 :: rat) powi (32 - 54) = 1 / 4194304" by (simp add: power_int_def power_divide)
  have "\<bar>m * 10 ^ 6 - of_int (int c * 10000)\<bar> = 1000000 * \<bar>m - of_nat c / 100\<bar>"
    by (simp add: abs_if field_simps)
  also have "\<dots> \<le> 1000000 * (1 / 4194304)" using m(2) unfolding p by (rule mult_left_mono) simp
  also have "\<dots> < 1 / 2" by simp
  finally have "round_even (m * 10 ^ 6) = int c * 10000" by (rule round_even_unique)
  then have "nat (round_even (m * 10 ^ 6)) = c * 10000" by (simp add: nat_mult_distrib)
  then have "parse_float (fmt_f 6 (Fin False m)) = (case f64_round False (of_nat (c * 10000) / 10 ^ 6) of Inf sg \<Rightarrow> Inl ErrRange | x \<Rightarrow> Inr x)"
    using parse_fmt_f [of 6 m False] m(3) by (simp add: f64_val_def)
  moreover have "of_nat (c * 10000) / 10 ^ 6 = (of_nat c / 100 :: rat)" by simp
  ultimately show ?thesis using d by (simp add: dollars_def ToFloat64_def)
qed

subsection \<open>The cache filled from the row\<close>

text \<open>
  The cache filled by an analysis is transparent: after a miss that found an average of whole
  cents below \<open>2 ^ 32\<close> dollars, the text it writes under the key of the account makes every later analysis
  that finds it compute, without the database, what it would have computed from the row.
\<close>

theorem deviation_cache_transparent:
  assumes "en_cache_get env = Inl RedisNil" "FindByID (en_uuid_string env) (en_find_fault env) accountID (en_reader env) = Inr account"
    and "holds_cents (fd_EncryptionKey f) (ac_AvgOrderAmount account) c" "c < 2 ^ 32 * 100"
  shows "\<exists>text. snd (computeDeviation f env accountID amount) =
      [RedisSet (GetDeviationRedisKey (en_uuid_string env) accountID) text DeviationCacheTTL] \<and>
    computeDeviation f (env'\<lparr>en_cache_get := Inr text\<rparr>) accountID amount' = (fst (computeDeviation f env accountID amount'), [])"
proof -
  have avg: "DecryptToFloat64 (ac_AvgOrderAmount account) (fd_EncryptionKey f) = Inr (dollars c)"
    using assms(3) by (simp add: holds_cents_def)
  show ?thesis
    by (rule exI [of _ "fmt_f 6 (dollars c)"])
      (simp add: computeDeviation_def assms(1,2) avg dollars_six_decimals [OF assms(4)] Let_def)
qed

subsection \<open>The cache filled by a payment\<close>

fun is_cache :: "pay_event \<Rightarrow> bool" where
  "is_cache (CacheSet key text ttl) = True"
| "is_cache _ = False"

lemma fraud_trace_no_cache: "filter is_cache (fraud_trace p env job) = []"
  by (simp add: fraud_trace_def split: sum.split)

lemma debit_caches:
  assumes "decide p env job = Debit acc avg" "pe_update_fault env = None" "count_fits (Debit acc avg)"
  shows "filter is_cache (st_trace (snd (process_locked p env job (pay_start env job t)))) =
    [CacheSet (GetDeviationRedisKey (pe_uuid_string env) (ac_ID acc)) (fmt_f 6 avg) DeviationCacheTTL]"
proof -
  obtain s1 where s1: "st_tx s1 = Begin t" "st_trace s1 = st_trace (pay_start env job t) @ fraud_trace p env job"
    and eq: "process_locked p env job (pay_start env job t) = carry_out env job (Debit acc avg) s1"
    using process_locked_decide [of "pay_start env job t" p env job] assms(1) by auto
  show ?thesis
    unfolding eq using assms(2,3)
    by (auto simp: s1 debit_locked_def fraud_trace_no_cache count_fits_def tx_Exec_def Begin_def
        UpdateBalanceCountAvgByAccountID_def Let_def split: prod.split sum.split)
qed

lemma cached_whatever_commit:
  assumes "pe_setnx env = Inr True" "pe_begin env = None" "decide p env job = Debit acc avg" "pe_update_fault env = None"
    and "count_fits (Debit acc avg)"
  shows "filter is_cache (snd (snd (ProcessPayment p (env\<lparr>pe_commit := c\<rparr>) job t))) =
    [CacheSet (GetDeviationRedisKey (pe_uuid_string env) (ac_ID acc)) (fmt_f 6 avg) DeviationCacheTTL]"
proof -
  let ?env = "env\<lparr>pe_commit := c\<rparr>"
  have e: "pe_setnx ?env = Inr True" "pe_begin ?env = None" using assms(1,2) by simp_all
  have "pay_start ?env job t = pay_start env job t" by (simp add: lock_key_def)
  then have "process_locked p ?env job (pay_start ?env job t) = process_locked p env job (pay_start env job t)"
    by (simp add: process_commit_independent)
  then show ?thesis using debit_caches [OF assms(3-5), of t] by (simp add: ProcessPayment_locked [OF e])
qed

lemma commit_failure_rolls_back: "fst (snd (ProcessPayment p (env\<lparr>pe_commit := Some e\<rparr>) job t)) = t"
  by (simp add: ProcessPayment_def Commit_def Let_def split: sum.split option.split prod.split)

text \<open>The average a debit computes, and what the row and the cache show of it.\<close>

lemma debited_average:
  assumes "debited_account p env acc bal amount = Inr (acc', avg)" "random_ok env" "DecryptToFloat64 (ac_AvgOrderAmount acc) (pp_EncryptionKey p) = Inr v"
    and "at_most 1 v" "at_most 1 amount" "0 \<le> ac_OrderCount acc" "ac_OrderCount acc + 1 < 2 ^ 31"
  shows "at_most 1 avg" "DecryptToFloat64 (ac_AvgOrderAmount acc') (pp_EncryptionKey p) = ToFloat64 (fmt_f 2 avg)"
    "ac_OrderCount acc' = ac_OrderCount acc + 1" "ac_ID acc' = ac_ID acc"
proof -
  obtain n where n: "pe_nonce_avg env = Inr n" "length n = 12"
    using assms(2) by (auto simp: random_ok_def split: sum.splits)
  have w: "wrap64 (ac_OrderCount acc + 1) = ac_OrderCount acc + 1" using assms(6,7) by (simp add: wrap64_id int64_ok_def)
  obtain enc where avg: "avg = f64_div (f64_add (f64_mul v (f64_of_int (ac_OrderCount acc))) amount) (f64_of_int (ac_OrderCount acc + 1))"
    and enc: "EncryptAES (Inr n) (Float64ToByte avg) (pp_EncryptionKey p) = Inr enc" "ac_AvgOrderAmount acc' = enc"
    and rest: "ac_OrderCount acc' = ac_OrderCount acc + 1" "ac_ID acc' = ac_ID acc"
    using assms(1,3) by (auto simp: debited_account_def Let_def w n(1) split: sum.splits)
  show "at_most 1 avg" unfolding avg by (rule at_most_arith [OF assms(4,5,6)]) (use assms(7) in simp)
  show "DecryptToFloat64 (ac_AvgOrderAmount acc') (pp_EncryptionKey p) = ToFloat64 (fmt_f 2 avg)"
    using DecryptToFloat64_encrypted [OF enc(1) n(2)] enc(2) by simp
qed (use assms in \<open>auto simp: debited_account_def Let_def wrap64_id int64_ok_def split: sum.splits\<close>)

text \<open>
  Property C33. What a payment leaves in the cache: a clean, covered payment writes the cached average
  exactly once, whatever its commit answers. If the commit succeeds, the cached average is less than a
  cent from the one the row of the account then holds (the row keeps two decimals, the cache six);
  if it fails, the cache has the average of a debit that the tables, left as they were, do not have.
\<close>

theorem cached_average_near_row:
  assumes "undisturbed env" "random_ok env" "length (pp_EncryptionKey p) = 32" "pe_reader env = t"
    and "holds_cents (pp_EncryptionKey p) (pj_Amount job) a"
    and "FindByID (pe_uuid_string env) None (pj_AccountID job) t = Inr acc"
    and "holds_cents (pp_EncryptionKey p) (ac_Balance acc) b" "a \<le> b"
    and "holds_average (pp_EncryptionKey p) (ac_AvgOrderAmount acc)" "0 \<le> ac_OrderCount acc" "ac_OrderCount acc + 1 < 2 ^ 31"
    and "fs_FraudFlag (fst (Analyze (pp_FraudDetector p) (pe_fraud env) (dollars a) job)) = FraudFlagClean"
    and "(err, t', tr) = ProcessPayment p (env\<lparr>pe_commit := c\<rparr>) job t"
  shows "\<exists>text x. filter is_cache tr = [CacheSet (GetDeviationRedisKey (pe_uuid_string env) (pj_AccountID job)) text DeviationCacheTTL] \<and>
    ToFloat64 text = Inr x \<and>
    (case c of
       Some e \<Rightarrow> t' = t
     | None \<Rightarrow> \<exists>acc' y. FindByID (pe_uuid_string env) None (pj_AccountID job) t' = Inr acc' \<and>
         DecryptToFloat64 (ac_AvgOrderAmount acc') (pp_EncryptionKey p) = Inr y \<and> near (1 / 100) x y)"
proof -
  have u: "pe_setnx env = Inr True" "pe_begin env = None" "pe_update_fault env = None" "pe_status_fault env = None"
    "pe_commit env = None" "pe_find_fault env = None" "pe_ctx_done env = None"
    using assms(1) by (simp_all add: undisturbed_def)
  have ok: "cents_ok a" "cents_ok b" using assms(5,7) by (simp_all add: holds_cents_def)
  obtain v where v: "DecryptToFloat64 (ac_AvgOrderAmount acc) (pp_EncryptionKey p) = Inr v" "at_most 1 v"
    using assms(9) by (auto simp: holds_average_def split: sum.splits)
  obtain acc' avg where d: "debited_account p env acc (dollars b) (dollars a) = Inr (acc', avg)"
    by (rule debited_account_dollars [OF assms(3,2) ok assms(8) v(1)])
  note av = debited_average [OF d assms(2) v dollars_at_most [OF ok(1)] assms(10,11)]
  have dec: "decide p env job = Debit acc' avg"
    using decide_known [OF assms(5) u(6), of acc b] assms(4,6-8,12) u(7) by (simp add: d)
  have fits: "count_fits (Debit acc' avg)" using av(3) assms(10,11) by (simp add: count_fits_def int4_ok_def)
  have i: "ac_ID acc' = pj_AccountID job" using av(4) FindByID_SomeD [OF assms(6)] by simp
  obtain x y where xy: "ToFloat64 (fmt_f 6 avg) = Inr x" "ToFloat64 (fmt_f 2 avg) = Inr y" "near (1 / 100) x y"
    by (rule texts_near [OF av(1)])
  have tr: "filter is_cache tr = [CacheSet (GetDeviationRedisKey (pe_uuid_string env) (pj_AccountID job)) (fmt_f 6 avg) DeviationCacheTTL]"
    using cached_whatever_commit [OF u(1,2) dec u(3) fits, of c t] i by (simp flip: assms(13))
  show ?thesis
  proof (cases c)
    case (Some e)
    then have "t' = t" using assms(13) commit_failure_rolls_back [where e = e and env = env and p = p and job = job and t = t] by (metis fst_conv snd_conv)
    then show ?thesis using tr xy(1) Some by auto
  next
    case None
    have "env\<lparr>pe_commit := c\<rparr> = env" using u(5) None by simp
    then have t': "t' = settle (pe_now env) (pj_IdempotencyKey job) (Debit acc' avg) t"
      using payment_carries_out_decision [OF u(1-5), of p job t] fits dec assms(13) by (metis fst_conv snd_conv)
    have "ac_AvgOrderAmount (set_account (pe_now env) acc' acc) = ac_AvgOrderAmount acc'" using av(4) by (simp add: set_account_def)
    then show ?thesis
      using settle_debit_lookup(1) [OF assms(6) av(4), of "pe_now env" "pj_IdempotencyKey job" avg] tr xy av(2) None
      unfolding t' by auto
  qed
qed

subsection \<open>Examples\<close>

text \<open>Seven orders of 1.00 and one of 2.00: the average is 1.125, and the row and the cache show different texts of it.\<close>

lemma f64_round_nine_eighths: "f64_round False (9 / 8) = Fin False (9 / 8)"
proof -
  have "ilog2 (9 / 8) < 1" by (rule ilog2_less) simp_all
  then have "ulp_exp (9 / 8) \<le> - 52" by (simp add: ulp_exp_def)
  then obtain e where e: "ulp_exp (9 / 8) = - int e" by (metis neg_numeral_le_zero nonpos_int_cases order_trans)
  with \<open>ulp_exp (9 / 8) \<le> - 52\<close> have "3 \<le> e" by simp
  then obtain d where d: "e = 3 + d" by (metis le_Suc_ex)
  have "2 powi (ulp_exp (9 / 8)) = (1 / 2 ^ e :: rat)" unfolding e by (simp add: power_int_minus divide_inverse)
  moreover have "(2 :: rat) ^ e = 8 * 2 ^ d" unfolding d power_add by simp
  ultimately have u: "2 powi (ulp_exp (9 / 8)) = (1 / (8 * 2 ^ d) :: rat)" by simp
  have scaled: "(9 / 8) / (1 / (8 * 2 ^ d)) = (of_int (9 * 2 ^ d) :: rat)" by simp
  have "of_int (round_even (9 / 8 / 2 powi (ulp_exp (9 / 8)))) * 2 powi (ulp_exp (9 / 8)) = (9 / 8 :: rat)"
    unfolding u scaled round_even_int by simp
  then show ?thesis by (simp add: f64_round_def round_mag_def Let_def)
qed

lemma show_fixed_numeral: "show_fixed (numeral w) n = show_fixed (pred_numeral w) (n div 10) @ [digit_char (n mod 10)]"
  by (simp only: numeral_eq_Suc show_fixed.simps)

lemma digit_chars: "digit_char 0 = CHR ''0''" "digit_char (Suc 0) = CHR ''1''" "digit_char 2 = CHR ''2''" "digit_char 5 = CHR ''5''"
  by (simp_all add: digit_char_def char_of_def bit_0)

lemma average_texts_differ:
  assumes "avg = f64_div (f64_add (f64_mul (dollars 100) (f64_of_int 7)) (dollars 200)) (f64_of_int 8)"
  shows "fmt_f 6 avg = ''1.125000'' \<and> fmt_f 2 avg = ''1.12''"
proof -
  have f: "f64_round False (of_int n) = Fin False (of_int n)" if "n \<in> {1, 2, 7, 9}" for n
    using f64_of_int_exact [of n] that by (auto simp: f64_of_int_def)
  note f = f [of 1, simplified] f [of 2, simplified] f [of 7, simplified] f [of 9, simplified]
  have "avg = Fin False (9 / 8)"
    using f64_of_int_exact [of 7] f64_of_int_exact [of 8] f by (simp add: assms dollars_def f64_val_def f64_round_nine_eighths)
  moreover have "round_even (9 / 8 * 10 ^ 6) = 1125000" "round_even (9 / 8 * 10 ^ 2) = 112"
    using floor_divide_of_int_eq [of 225 2, where ?'a = rat] by (simp_all add: round_even_def)
  moreover have "show_nat 1 = ''1''" "show_fixed 6 125000 = ''125000''" "show_fixed 2 12 = ''12''"
    by (simp_all add: show_nat.simps show_fixed_numeral digit_chars)
  ultimately show ?thesis by (simp add: Let_def)
qed

definition averaged_example :: Account where
  "averaged_example = (account_example 10000)\<lparr>ac_AvgOrderAmount := enc_example 2500\<rparr>"

definition miss_env_example :: FraudEnv where
  "miss_env_example = (fraud_env_example ((tables_example 10000)\<lparr>t_accounts := [averaged_example]\<rparr>) False)\<lparr>en_cache_get := Inl RedisNil\<rparr>"

theorem deviation_cache_transparent_witness:
  "\<exists>text. snd (computeDeviation (pp_FraudDetector processor_example) miss_env_example 7 (dollars 5000)) =
      [RedisSet (GetDeviationRedisKey (en_uuid_string miss_env_example) 7) text DeviationCacheTTL] \<and>
     computeDeviation (pp_FraudDetector processor_example) (miss_env_example\<lparr>en_cache_get := Inr text\<rparr>) 7 (dollars 7500) =
       (Inr (relative_deviation (dollars 7500) (dollars 2500)), [])"
proof -
  have k: "fd_EncryptionKey (pp_FraudDetector processor_example) = key_example"
    by (simp add: processor_example_def NewFraudDetectionService_def)
  have miss: "en_cache_get miss_env_example = Inl RedisNil" by (simp add: miss_env_example_def)
  have find: "FindByID (en_uuid_string miss_env_example) (en_find_fault miss_env_example) 7 (en_reader miss_env_example) = Inr averaged_example"
    by (simp add: miss_env_example_def fraud_env_example_def averaged_example_def account_example_def FindByID_def)
  have avg: "holds_cents (fd_EncryptionKey (pp_FraudDetector processor_example)) (ac_AvgOrderAmount averaged_example) 2500"
    using enc_example_holds [of 2500] by (simp add: k averaged_example_def cents_ok_def)
  then have "fst (computeDeviation (pp_FraudDetector processor_example) miss_env_example 7 (dollars 7500)) =
      Inr (relative_deviation (dollars 7500) (dollars 2500))"
    by (simp add: computeDeviation_def miss find holds_cents_def Let_def)
  then show ?thesis
    using deviation_cache_transparent [OF miss find avg, of "dollars 5000" miss_env_example "dollars 7500"] by simp
qed

theorem cached_average_near_row_witness:
  "\<exists>err t' tr text. ProcessPayment processor_example ((env_example (tables_example 10000))\<lparr>pe_commit := Some RedisNil\<rparr>) (job_example 2500)
      (tables_example 10000) = (err, t', tr) \<and>
     filter is_cache tr = [CacheSet (GetDeviationRedisKey (\<lambda>u. ''uuid'') 7) text DeviationCacheTTL] \<and> t' = tables_example 10000"
proof -
  let ?t = "tables_example 10000"
  obtain err t' tr where run: "(err, t', tr) =
      ProcessPayment processor_example ((env_example ?t)\<lparr>pe_commit := Some RedisNil\<rparr>) (job_example 2500) ?t" by (metis prod_cases3)
  have us: "pe_uuid_string (env_example ?t) = (\<lambda>u. ''uuid'')" by (simp add: env_example_def)
  have avg: "holds_average (pp_EncryptionKey processor_example) (ac_AvgOrderAmount (account_example 10000))"
    by (rule average_example)
  note r = cached_average_near_row [OF example_facts(1,2,3,4) example_premises(2,1,3,4) avg example_premises(5-7) run]
  show ?thesis
    by (rule exI [of _ err], rule exI [of _ t'], rule exI [of _ tr]) (use r run [symmetric] in \<open>auto simp: us example_facts\<close>)
qed

end
