(* ===== verification/Spec2Isabelle.thy ===== *)
theory Spec2Isabelle
  imports Errors Security Backoff Commit_Manager Repositories Http_Client Redis_Client Config Fraud Payment
    Topic_Manager Order_Handler Retry_Handler Retry_Consumer Order_Api Order_App Worker Database Ratelimit
    Schema User_Seeder Seeded_Data Dataset_Export Order_Seeder Concurrent_Payments Redelivery Seeded_Orders
    Metrics Logger Worker_Process Order_Http Replica_Reads Retry_Flow Window_Counters Average_Cache
begin

text \<open>
  A verification of the resilient payment processor, a Go program of two services and two tools
  around PostgreSQL, Kafka and Redis.

  \<^bold>\<open>The program.\<close> A client places an order with the \<^emph>\<open>order API\<close> (\<open>services/order-api\<close>). The API checks the
  idempotency key and the balance, stores a pending order with its amount encrypted and publishes a
  payment job to Kafka. The \<^emph>\<open>payment worker\<close> (\<open>services/payment-worker\<close>) reads the jobs, locks the
  account in Redis, asks a scoring service about fraud, debits the account in a transaction and marks
  the order. A job that cannot be decided now goes through a channel to the retry handler, which
  publishes it to a retry topic with a growing delay and reads that topic back; what cannot be done
  at all is written to a dead letter topic. Offsets are committed as far as messages are finished
  without a gap. Two command line tools fill the database (\<open>services/user-api/cmd/seed\<close>) and load the
  API (\<open>services/order-api/cmd/seed\<close>). \<open>pkg\<close> holds what the services share.

  \<^bold>\<open>Conventions.\<close> A struct is a record whose fields carry a prefix, an enumeration a datatype, a Go
  function a function of the same name. A function that can fail returns \<open>go_error + 'a\<close>; a panic is a
  value of its own (\<open>Panicked\<close>, \<open>None\<close>, an event). \<open>int\<close> and \<open>time.Duration\<close> are integers with \<open>wrap64\<close>
  where arithmetic can leave the range, \<open>uint8\<close> is \<open>8 word\<close>, a UUID \<open>128 word\<close>, a byte \<open>8 word\<close>, a
  \<open>float64\<close> the exact model of \<open>Float64\<close>. State is passed explicitly: the tables of the database, the
  commit manager, the trace of what a handler did. What third-party code and the outside answer
  (PostgreSQL's faults, Redis, Kafka, HTTP, the clock, random numbers, viper, the validator, pgxpool,
  golang-migrate, the rate limiter) is an argument, gathered in an environment record per component;
  the theorems name what they rely on in it. Concurrency is a step relation: a state is reachable by
  any interleaving of the steps, or the result of running a list of turns.

  \<^bold>\<open>The theories\<close>, with the files under \<open>src\<close> they model.
  \<^item> \<open>Prelude\<close>: integers, bytes, decimal digits. \<open>Float64\<close>: IEEE 754 binary64 with its rounding, the
    printing and reading of numbers, and that whole cents survive both. \<open>Aes_Gcm\<close>: AES-256 in
    Galois/counter mode, executable.
  \<^item> \<open>Errors\<close> (\<open>pkg/errors.go\<close>), \<open>Models\<close> (\<open>pkg/models\<close>, \<open>pkg/dtos\<close>, \<open>pkg/const.go\<close>), \<open>Config\<close> (the three
    \<open>configs/config.go\<close>, \<open>pkg/utils/utils.go\<close>), \<open>Http_Client\<close>, \<open>Redis_Client\<close>, \<open>Backoff\<close>, \<open>Ratelimit\<close>,
    \<open>Topic_Manager\<close> (the files of these names in \<open>pkg\<close>).
  \<^item> \<open>Security\<close> (\<open>pkg/utils/security_utils.go\<close>): encryption of amounts. The locale \<open>aead\<close> is what the code
    needs of the cipher, \<open>amount_store\<close> what the services need of this component; both are
    interpreted on the model. It shows the round trips.
  \<^item> \<open>Repositories\<close> (\<open>pkg/repositories\<close>, the transactions of \<open>pkg/database/db.go\<close>): one function per SQL
    statement on tables as lists of rows. \<open>Database\<close>: opening and closing pools, masking data sources.
    The order of the rows of a query without \<open>ORDER BY\<close> is an argument (\<open>row_order\<close>), chosen anew for each query.
    \<open>Paging\<close>: reading a table page by page (locale \<open>paged_query\<close>). \<open>Schema\<close>: the constraints of the migration
    as an invariant (locale \<open>sql_statement\<close>), which the server enforces, and that the workers' own statements
    never run into them, the order count at the end of its column excepted.
  \<^item> \<open>Commit_Manager\<close> (\<open>pkg/kafka/commit_manager.go\<close>): the committed position refines the end of the
    longest run of acknowledged offsets from 1; where it departs from what is wanted is stated too
    (offset 0, a late start, a refused commit).
  \<^item> \<open>Fraud\<close> and \<open>Payment\<close> (\<open>fraud_detection_service.go\<close>, \<open>payment_service.go\<close>): the analysis and the
    payment with lock, transaction, deferred release and commit. \<open>decide\<close> and \<open>carry_out\<close> split a call
    into what it decides and what it writes; conservation of money (counting the calls whose transaction
    landed, since a failed commit is silent), all or nothing, exact debits,
    overdrafts, retries and the order of release and commit rest on that.
  \<^item> \<open>Concurrent_Payments\<close> (\<open>payment_service.go\<close>): any number of payments at once, one shared access (lock,
    begin, read, release, commit) per turn. Calls that do not overlap between read and commit refine
    a serial run and conserve money, every call returns; the lock excludes up to its release, so
    debits are serial when commits follow the release at once and no lock expires, and a debit can
    be lost when they do not.
  \<^item> \<open>Replica_Reads\<close> (the methods of \<open>DB\<close> in \<open>db.go\<close>): payments that read from replicas which follow the primary at
    their own pace, both for the balance and for the fraud analysis. While the replica lags, they forget debits.
    \<open>Average_Cache\<close>: the average order amount in the row and in Redis, and how far the two lie apart.
    \<open>Window_Counters\<close> (\<open>computeVelocity\<close>, \<open>ratelimit.go\<close>): what counters with a renewed expiry count over time.
  \<^item> \<open>Order_Handler\<close>, \<open>Retry_Handler\<close>, \<open>Retry_Consumer\<close> (\<open>kafka_order_handler.go\<close>, \<open>kafka_retry_handler.go\<close>):
    handling one message of either topic (untouched after a shutdown, else acknowledged once and paid or parked,
    a dead letter being missed only when its topic fails), the retry budget and its
    backoff, and the two read loops with their semaphores as step relations. The locale
    \<open>payment_processor\<close> is what the handlers need of the payment, \<open>acking_handler\<close> what the loops need of a
    handler; it is interpreted for both handlers.
  \<^item> \<open>Retry_Flow\<close>: the course of one job through order topic, retry channel and retry topic; refused for a while it
    is paid later, refused for good it is given up after its budget.
  \<^item> \<open>Redelivery\<close>: consumers of a partition one after the other, each starting at the position the ones
    before it left (locale \<open>committing_loop\<close>, interpreted for both loops): no restart skips a message, the
    position stays where a restart found it, and a message delivered twice is debited twice.
  \<^item> \<open>Metrics\<close> (\<open>order_handler_metrics.go\<close>, the collectors of \<open>api_metrics.go\<close>): the collectors and what the
    handlers' events add to them; counters, gauge and latency timers agree with what the consumer did.
    \<open>Logger\<close> (\<open>pkg/logger.go\<close>): which configuration the logger is built from.
  \<^item> \<open>Order_Api\<close> (order service, publisher, HTTP handler and middlewares), \<open>Order_App\<close> (\<open>app.go\<close>, \<open>cmd/main.go\<close>,
    \<open>migrate.go\<close>): orders are accepted exactly if their key is new, the balance covers them and the account is the
    user's; they are stored and published all or nothing; every
    pool and the producer are accounted for. The locale \<open>order_service\<close> is what the HTTP handler needs.
    \<open>Order_Http\<close>: the engine with all its routes; one of them has effects, and no reply carries the text of
    an internal error in release mode.
  \<^item> \<open>Worker\<close> (\<open>payment-worker/cmd/main.go\<close>): the start, and the retry channel between the goroutines that
    pay, the retry handler and the shutdown (\<open>wstep\<close>); every job handed over is published once while
    publishing works. \<open>Worker_Process\<close>: what the process opens, starts and closes on every path, with the
    metrics server, the cleanups of both handlers and the logger of delivery reports; another goroutine may
    end it at any moment, by a fatal error or a panic.
  \<^item> \<open>User_Seeder\<close>, \<open>Seeded_Data\<close>, \<open>Dataset_Export\<close> (\<open>user_account_seeder.go\<close>): the seeding transaction is all or
    nothing and exact, what it writes lies within its bounds, the export ends, and is complete if the pages
    are read in one order. The
    locales \<open>account_seeding\<close> and \<open>data_seeding\<close> lift what each statement keeps to the whole run.
  \<^item> \<open>Order_Seeder\<close> (\<open>order_seeder.go\<close>): the producer's loops against a reference sequence, with sends that may
    block for ever (\<open>send_end\<close>), and the channel with its pool of workers (\<open>pstep\<close>), which drains and posts
    every order it took. \<open>Seeded_Orders\<close>: the two seeders and the API
    together; every order the load generator sends for a seeded account is one the API accepts to read.
  \<^item> This theory: an order from the API through the worker to the debit.

  \<^bold>\<open>Bounds and termination.\<close> Amounts are exact up to \<open>10 ^ 15\<close> cents (\<open>cents_ok\<close>), far below the
  \<open>2 powi 44\<close> dollars where the rounding of a float64 would reach a cent. No definition uses fuel. The two loops over
  pages may run for ever if a table grows without bound; they are \<open>partial_function (option)\<close>, and shown
  to return when no reader shows more than \<open>2 ^ 62\<close> rows. All other loops are structural or have a
  measure; the pool of workers has one as well.

  \<^bold>\<open>Limits.\<close> An error of \<open>Commit\<close> stands for a commit without effect: a commit that took effect and whose answer
  was lost is not among the answers of the database. Within one call the goroutines the code joins before it reads their results are run
  in place. In \<open>Concurrent_Payments\<close> the transactions of different workers are those of PostgreSQL in read
  committed, the reader is the primary, and what a fraud analysis keeps in Redis is an argument of each
  call; replicas and the Redis counters are treated for calls one after the other (\<open>Replica_Reads\<close>,
  \<open>Window_Counters\<close>), where \<open>redis_counter\<close> states the documented behaviour of \<open>INCR\<close> and \<open>EXPIRE\<close>. In \<open>Retry_Flow\<close> a
  published job is delivered as it was encoded, and the waiting before a retry is not timed. The handlers
  of one consumer are steps of their own, and run to their end once they start. Floating point
  operations are not fused.

  \<^bold>\<open>Not modelled.\<close> The single calls of the logger, apart from the delivery reports of the producers: they change
  nothing the rest reads. The values of the histograms, which depend on the clock. The generated Swagger
  documents (\<open>docs.go\<close>): text without behaviour. Behaviour inside third-party libraries is an argument
  throughout.
\<close>

section \<open>From the order to the debit\<close>

lemma PaymentJob_tags_published:
  assumes "oe_new_id env \<noteq> uuid_Nil" "userId \<noteq> uuid_Nil" "rq_AccountID req \<noteq> uuid_Nil" "rq_IdempotencyID req \<noteq> uuid_Nil"
    and "enc \<noteq> []" "oe_created_at env \<noteq> time_zero" "oe_updated_at env \<noteq> time_zero"
  shows "PaymentJob_tags (published_job env userId req enc)"
  using assms by (simp add: PaymentJob_tags_def published_job_def new_order_def ToPaymentJob_def)

lemma published_job_simps [simp]:
  "pj_Amount (published_job env userId req enc) = enc"
  "pj_AccountID (published_job env userId req enc) = rq_AccountID req"
  "pj_IdempotencyKey (published_job env userId req enc) = rq_IdempotencyID req"
  by (simp_all add: published_job_def new_order_def ToPaymentJob_def)

lemma encrypted_amount_nonempty:
  assumes "encrypted_amount aesKey env req = Inr enc"
  shows "enc \<noteq> []"
proof -
  have "EncryptAES (oe_nonce env) (Float64ToByte (rq_Amount req)) aesKey = Inr enc"
    using assms by (auto simp: encrypted_amount_def split: sum.splits if_splits bool.splits)
  then show ?thesis
    using EncryptAES_nonempty by (cases "oe_nonce env") (auto simp: EncryptAES_def split: option.splits)
qed

text \<open>
  Property C4. From the request to the debit: an order of \<open>a\<close> cents on an account that holds
  \<open>b \<ge> a\<close> cents is accepted by the API, and the worker that receives the published job (decoded
  from its JSON as it was encoded, validated by its tags) settles it: the balance drops to
  exactly \<open>b - a\<close> cents, the stored order row holds \<open>a\<close> cents and ends as successful, and no dead
  letter is written. Nothing outside fails, the readers are up to date, both services hold the
  same key, and the scoring service finds the payment clean.
\<close>

theorem accepted_order_is_paid:
  assumes api: "order_undisturbed oenv" "length key = 32" "rq_IdempotencyID req \<noteq> uuid_Nil"
    "\<forall>o' \<in> set (t_orders (oe_idem_reader oenv)). or_IdempotencyKey o' \<noteq> rq_IdempotencyID req"
    "FindByID us None (rq_AccountID req) t = Inr acc" "oe_account_reader oenv = t" "oe_uuid_string oenv = us"
    "holds_cents key (ac_Balance acc) b" "ac_Balance acc \<noteq> []" "rq_Amount req = dollars a" "cents_ok a" "a \<le> b"
    "oe_gen_id oenv \<notin> or_ID ` set (t_orders t)" "account_exists t (rq_AccountID req) userId"
    and ids: "oe_new_id oenv \<noteq> uuid_Nil" "userId \<noteq> uuid_Nil" "oe_created_at oenv \<noteq> time_zero" "oe_updated_at oenv \<noteq> time_zero"
    and publish: "\<forall>j. oe_marshal oenv j = None" "oe_produce oenv = None"
    and created: "CreateOrder ocfg key oenv userId req t = (res, t1, ms)"
    and received: "\<forall>m \<in> set ms. me_unmarshal menv (msg_Value msg) = (om_Job m, None)"
      "\<forall>j. me_validate menv j = None \<longleftrightarrow> PaymentJob_tags j" "\<not> me_ctx_done menv" "ms_tables s = t1"
    and worker: "undisturbed penv" "random_ok penv" "pp_EncryptionKey p = key" "pe_reader penv = t1" "pe_uuid_string penv = us"
      "DecryptToFloat64 (ac_AvgOrderAmount acc) key = Inr v" "0 \<le> ac_OrderCount acc" "ac_OrderCount acc + 1 < 2 ^ 31"
      "\<forall>j. fs_FraudFlag (fst (Analyze (pp_FraudDetector p) (pe_fraud penv) (dollars a) j)) = FraudFlagClean"
  shows "res = Inr (us (oe_new_id oenv)) \<and>
    (\<exists>acc' row. FindByID us None (rq_AccountID req) (ms_tables (processMessage wcfg (ProcessPayment p penv) menv msg s)) = Inr acc' \<and>
       holds_cents key (ac_Balance acc') (b - a) \<and>
       row \<in> set (t_orders (ms_tables (processMessage wcfg (ProcessPayment p penv) menv msg s))) \<and>
       or_IdempotencyKey row = rq_IdempotencyID req \<and> or_Status row = OrderStatusSuccess \<and> holds_cents key (or_Amount row) a) \<and>
    filter is_dlq (ms_trace (processMessage wcfg (ProcessPayment p penv) menv msg s)) = filter is_dlq (ms_trace s)"
proof -
  have find: "FindByID (oe_uuid_string oenv) None (rq_AccountID req) (oe_account_reader oenv) = Inr acc"
    by (simp add: api)
  obtain enc where enc: "encrypted_amount key oenv req = Inr enc" "holds_cents key enc a"
    using encrypted_amount_known(2) [OF api(1-4) find api(8-12)] by blast
  let ?job = "published_job oenv userId req enc" and ?row = "stored_order oenv userId req enc"
  have t1: "res = Inr (us (oe_new_id oenv))" "t1 = t\<lparr>t_orders := t_orders t @ [?row]\<rparr>" "\<exists>m \<in> set ms. om_Job m = ?job"
    using CreateOrder_encrypted [OF api(1) enc(1) api(13,14), of ocfg] created publish
    by (auto simp: api PublishOrder_def Let_def)
  have acct: "rq_AccountID req \<noteq> uuid_Nil" using FindByID_SomeD [OF api(5)] by simp
  have job: "me_unmarshal menv (msg_Value msg) = (?job, None)" using t1(3) received(1) by auto
  have valid: "me_validate menv ?job = None"
    using PaymentJob_tags_published [OF ids(1,2) acct api(3) encrypted_amount_nonempty [OF enc(1)] ids(3,4)] received(2) by simp
  have find1: "FindByID us None (pj_AccountID ?job) t1 = Inr acc"
    using api(5) FindByID_cong [of t1 t us None] by (simp add: t1(2))
  obtain t2 evs acc' where pay: "ProcessPayment p penv ?job t1 = (None, t2, evs)"
      "FindByID us None (rq_AccountID req) t2 = Inr acc'" "holds_cents key (ac_Balance acc') (b - a)"
      "t_orders t2 = t_orders (set_status (pe_now penv) (rq_IdempotencyID req) OrderStatusSuccess ''Payment completed successfully'' t1)"
    using payment_debits [of penv p t1 ?job a acc b v] worker api(2,8,12) enc(2) find1 by auto
  have "?row \<in> set (t_orders t1)" "or_IdempotencyKey ?row = rq_IdempotencyID req" "or_Amount ?row = enc"
    by (simp_all add: t1(2) stored_order_def new_order_def)
  then have "\<exists>row \<in> set (t_orders t2). or_IdempotencyKey row = rq_IdempotencyID req \<and>
      or_Status row = OrderStatusSuccess \<and> or_Amount row = enc"
    unfolding pay(4) by (intro bexI [where x = "?row\<lparr>or_Status := OrderStatusSuccess,
      or_Message := ''Payment completed successfully'', or_UpdatedAt := pe_now penv\<rparr>"]) (force simp: set_status_def)+
  moreover have "ProcessPayment p penv ?job (ms_tables s) = (None, t2, evs)" using pay(1) received(4) by simp
  note processMessage_paid [where process = "ProcessPayment p penv", OF received(3) job valid this, of wcfg]
  ultimately show ?thesis using t1(1) pay(2,3) enc(2) by auto
qed

definition created_example :: "string result \<times> Tables \<times> OrderMessage list" where
  "created_example = CreateOrder order_config_example key_example (order_env_example (tables_example 10000)) 8
     (request_example 2500) (tables_example 10000)"

definition receive_env_example :: MsgEnv where
  "receive_env_example = msg_env_example\<lparr>me_unmarshal := (\<lambda>v. (om_Job (hd (snd (snd created_example))), None)),
     me_validate := (\<lambda>j. if PaymentJob_tags j then None else Some (LibError ''invalid job''))\<rparr>"

definition paid_state_example :: MsgState where
  "paid_state_example = processMessage worker_config_example (ProcessPayment processor_example (env_example (fst (snd created_example))))
     receive_env_example message_example (msg_state_example\<lparr>ms_tables := fst (snd created_example)\<rparr>)"

lemma CreateOrder_one_message: "length (snd (snd (CreateOrder cfg aesKey env userId req t))) \<le> 1"
  by (rule CreateOrder_cases [of cfg aesKey env userId req t])
    (auto simp: PublishOrder_def Let_def split: option.splits)

lemma created_example_message:
  "\<forall>m \<in> set (snd (snd created_example)). me_unmarshal receive_env_example v = (om_Job m, None)"
  using CreateOrder_one_message [of order_config_example key_example "order_env_example (tables_example 10000)" 8
      "request_example 2500" "tables_example 10000"]
  by (cases "snd (snd created_example)") (auto simp: receive_env_example_def created_example_def)

theorem accepted_order_is_paid_witness:
  "fst created_example = Inr ''uuid'' \<and>
   (\<exists>acc'. FindByID (\<lambda>u. ''uuid'') None 7 (ms_tables paid_state_example) = Inr acc' \<and> holds_cents key_example (ac_Balance acc') 7500) \<and>
   filter is_dlq (ms_trace paid_state_example) = []"
proof -
  let ?t = "tables_example 10000" and ?t1 = "fst (snd created_example)"
  let ?oenv = "order_env_example ?t"
  have c: "cents_ok 10000" "cents_ok 2500" by (simp_all add: cents_ok_def)
  note p = order_example_premises [OF c(1)]
  have o1: "oe_account_reader ?oenv = ?t" "oe_uuid_string ?oenv = (\<lambda>u. ''uuid'')" "oe_new_id ?oenv \<noteq> uuid_Nil"
    "oe_created_at ?oenv \<noteq> time_zero" "oe_updated_at ?oenv \<noteq> time_zero" "\<forall>j. oe_marshal ?oenv j = None" "oe_produce ?oenv = None"
    "(8 :: uuid) \<noteq> uuid_Nil"
    by (simp_all add: order_env_example_def time_zero_def)
  have f: "FindByID (\<lambda>u. ''uuid'') None (rq_AccountID (request_example 2500)) ?t = Inr (account_example 10000)"
    using p(1) by (simp add: o1)
  have x: "CreateOrder order_config_example key_example ?oenv 8 (request_example 2500) ?t = (fst created_example, ?t1, snd (snd created_example))"
    by (simp add: created_example_def)
  have m: "\<forall>j. me_validate receive_env_example j = None \<longleftrightarrow> PaymentJob_tags j" "\<not> me_ctx_done receive_env_example"
    by (simp_all add: receive_env_example_def msg_env_example_def)
  have w: "pe_uuid_string (env_example ?t1) = (\<lambda>u. ''uuid'')"
    "\<forall>j. fs_FraudFlag (fst (Analyze (pp_FraudDetector processor_example) (pe_fraud (env_example ?t1)) (dollars 2500) j)) = FraudFlagClean"
    using fraud_example_verdict [OF c(2)] by (simp_all add: env_example_def)
  have n: "0 \<le> ac_OrderCount (account_example 10000)" "ac_OrderCount (account_example 10000) + 1 < 2 ^ 31" "(2500 :: nat) \<le> 10000"
    by (simp_all add: example_facts)
  have s: "ms_tables (msg_state_example\<lparr>ms_tables := ?t1\<rparr>) = ?t1" by simp
  note paid = accepted_order_is_paid [OF order_example_facts(1,2) p(4,5) f o1(1,2) p(2,3) order_example_facts(7) c(2) n(3)
      order_example_facts(9) p(6) o1(3,8,4,5,6,7) x created_example_message m s example_facts(1,2,6,4) w(1) example_facts(12) n(1,2) w(2),
      of worker_config_example]
  show ?thesis using paid by (auto simp: paid_state_example_def order_example_facts(6) msg_state_example_def)
qed

end
